(* ===== verification/Prelude.thy ===== *)
theory Prelude
  imports Main "HOL-Library.Multiset"
begin

text \<open>
  The shared vocabulary of the development: how Go's error returns are read, how
  \<^verbatim>\<open>sort.Slice\<close> is read, and the generic list facts the components use.

  \<^item> A Go function that returns only an \<^verbatim>\<open>error\<close> is a function into \<open>'e option\<close>
    (\<open>None\<close> is \<^verbatim>\<open>nil\<close>); one that returns a value and an error is a function into
    \<open>'e + 'a\<close>, with \<open>Inl\<close> for the error.
  \<^item> A chain of \<^verbatim>\<open>if err := check(); err != nil { return err }\<close> is \<open>first_error\<close> of
    the checks, in the order of the source.
  \<^item> \<^verbatim>\<open>sort.Slice(xs, less)\<close> is \<open>isort lt xs\<close>. The library's sort is not stable, so
    the result is only determined where \<open>lt\<close> is total on distinct elements: the locale
    \<open>go_less\<close> states that contract and proves that there every sorted permutation is the
    one \<open>isort\<close> computes.
\<close>

section \<open>Collections of facts\<close>

named_theorems err_simps \<open>reading error chains\<close>
named_theorems text_simps \<open>Go strings, runes and numbers\<close>
named_theorems sql_simps \<open>SQL statements and transactions\<close>

section \<open>Error returns\<close>

fun first_error :: "'e option list \<Rightarrow> 'e option" where
  "first_error [] = None"
| "first_error (None # es) = first_error es"
| "first_error (Some e # es) = Some e"

lemma first_error_None [err_simps]: "first_error es = None \<longleftrightarrow> (\<forall>e \<in> set es. e = None)"
  by (induction es rule: first_error.induct) auto

lemma first_error_Cons_Some:
  "first_error (x # es) = Some e \<longleftrightarrow> x = Some e \<or> (x = None \<and> first_error es = Some e)"
  by (cases x) auto

lemma first_error_Some_mem: "first_error es = Some e \<Longrightarrow> Some e \<in> set es"
  by (induction es rule: first_error.induct) auto

lemma first_error_append:
  "first_error (xs @ ys) = (case first_error xs of None \<Rightarrow> first_error ys | Some e \<Rightarrow> Some e)"
  by (induction xs rule: first_error.induct) auto

definition bind_err :: "'e + 'a \<Rightarrow> ('a \<Rightarrow> 'e + 'b) \<Rightarrow> 'e + 'b" where
  "bind_err r f = (case r of Inl e \<Rightarrow> Inl e | Inr x \<Rightarrow> f x)"

lemma bind_err_simps [simp]: "bind_err (Inl e) f = Inl e" "bind_err (Inr x) f = f x"
  by (simp_all add: bind_err_def)

lemma bind_err_Inr [err_simps]: "bind_err r f = Inr y \<longleftrightarrow> (\<exists>x. r = Inr x \<and> f x = Inr y)"
  by (cases r) auto

lemma bind_err_Inl:
  "bind_err r f = Inl e \<longleftrightarrow> r = Inl e \<or> (\<exists>x. r = Inr x \<and> f x = Inl e)"
  by (cases r) auto

section \<open>sort.Slice\<close>

fun insort_by :: "('a \<Rightarrow> 'a \<Rightarrow> bool) \<Rightarrow> 'a \<Rightarrow> 'a list \<Rightarrow> 'a list" where
  "insort_by lt x [] = [x]"
| "insort_by lt x (y # ys) = (if lt y x then y # insort_by lt x ys else x # y # ys)"

fun isort :: "('a \<Rightarrow> 'a \<Rightarrow> bool) \<Rightarrow> 'a list \<Rightarrow> 'a list" where
  "isort lt [] = []"
| "isort lt (x # xs) = insort_by lt x (isort lt xs)"

lemma mset_insort_by [simp]: "mset (insort_by lt x ys) = add_mset x (mset ys)"
  by (induction ys) auto

lemma mset_isort [simp]: "mset (isort lt xs) = mset xs"
  by (induction xs) auto

lemma set_insort_by [simp]: "set (insort_by lt x ys) = insert x (set ys)"
  by (induction ys) auto

lemma set_isort [simp]: "set (isort lt xs) = set xs"
  by (induction xs) auto

lemma length_isort [simp]: "length (isort lt xs) = length xs"
  by (metis mset_isort size_mset)

lemma distinct_isort [simp]: "distinct (isort lt xs) = distinct xs"
  by (metis mset_isort mset_eq_imp_distinct_iff)

lemma map_insort_by:
  "map f (insort_by (\<lambda>a b. lt (f a) (f b)) x ys) = insort_by lt (f x) (map f ys)"
  by (induction ys) auto

lemma map_isort: "map f (isort (\<lambda>a b. lt (f a) (f b)) xs) = isort lt (map f xs)"
  by (induction xs) (auto simp: map_insort_by)

text \<open>The contract of a \<^verbatim>\<open>less\<close> argument on the elements \<open>D\<close> that are sorted.\<close>

locale go_less =
  fixes lt :: "'a \<Rightarrow> 'a \<Rightarrow> bool" and D :: "'a set"
  assumes lt_irrefl: "x \<in> D \<Longrightarrow> \<not> lt x x"
    and lt_trans: "x \<in> D \<Longrightarrow> y \<in> D \<Longrightarrow> z \<in> D \<Longrightarrow> lt x y \<Longrightarrow> lt y z \<Longrightarrow> lt x z"
    and lt_total: "x \<in> D \<Longrightarrow> y \<in> D \<Longrightarrow> lt x y \<or> x = y \<or> lt y x"
begin

lemma lt_asym: "x \<in> D \<Longrightarrow> y \<in> D \<Longrightarrow> lt x y \<Longrightarrow> \<not> lt y x"
  using lt_irrefl lt_trans by blast

lemma sorted_insort_by:
  "\<lbrakk> set (x # ys) \<subseteq> D; x \<notin> set ys; sorted_wrt lt ys \<rbrakk> \<Longrightarrow> sorted_wrt lt (insort_by lt x ys)"
proof (induction ys)
  case Nil
  then show ?case by simp
next
  case (Cons y ys)
  show ?case
  proof (cases "lt y x")
    case True
    with Cons show ?thesis by auto
  next
    case False
    with Cons.prems have "lt x y" using lt_total [of x y] by auto
    with Cons.prems False show ?thesis by (auto intro: lt_trans [of x y])
  qed
qed

lemma sorted_isort: "\<lbrakk> set xs \<subseteq> D; distinct xs \<rbrakk> \<Longrightarrow> sorted_wrt lt (isort lt xs)"
  by (induction xs) (auto intro!: sorted_insort_by)

text \<open>There is one sorted permutation, so the library's choice of algorithm does not show.\<close>

lemma sorted_unique:
  "\<lbrakk> set xs \<subseteq> D; mset xs = mset ys; sorted_wrt lt xs; sorted_wrt lt ys \<rbrakk> \<Longrightarrow> xs = ys"
proof (induction xs arbitrary: ys)
  case Nil
  then show ?case by simp
next
  case (Cons x xs)
  from Cons.prems(2) obtain y ys' where ys: "ys = y # ys'" by (cases ys) auto
  have sets: "set (x # xs) = set ys" using Cons.prems(2) by (metis set_mset_mset)
  have "x = y"
  proof (rule ccontr)
    assume ne: "x \<noteq> y"
    with sets ys have "x \<in> set ys'" "y \<in> set xs" by auto
    with Cons.prems(3,4) ys have "lt y x" "lt x y" by auto
    moreover have "x \<in> D" "y \<in> D" using Cons.prems(1) \<open>y \<in> set xs\<close> by auto
    ultimately show False using lt_asym by blast
  qed
  moreover have "xs = ys'" using Cons ys \<open>x = y\<close> by auto
  ultimately show ?case using ys by simp
qed

lemma isort_unique:
  "\<lbrakk> set xs \<subseteq> D; distinct xs; mset ys = mset xs; sorted_wrt lt ys \<rbrakk> \<Longrightarrow> ys = isort lt xs"
  by (metis mset_isort set_isort sorted_isort sorted_unique)

lemma isort_mset_cong: "\<lbrakk> set xs \<subseteq> D; distinct xs; mset ys = mset xs \<rbrakk> \<Longrightarrow> isort lt ys = isort lt xs"
  by (metis isort_unique mset_eq_imp_distinct_iff mset_isort set_mset_mset sorted_isort)

end

section \<open>Association lists as Go maps\<close>

lemma map_of_perm:
  "\<lbrakk> distinct (map fst xs); mset ys = mset xs \<rbrakk> \<Longrightarrow> map_of ys = map_of xs"
proof -
  assume d: "distinct (map fst xs)" and m: "mset ys = mset xs"
  from m have "mset (map fst ys) = mset (map fst xs)" by (metis mset_map)
  with d have "distinct (map fst ys)" by (metis mset_eq_imp_distinct_iff)
  moreover have "set ys = set xs" using m by (metis set_mset_mset)
  ultimately show ?thesis using d by (metis map_of_inject_set)
qed

end
