(* ===== verification/Go_Text.thy ===== *)
theory Go_Text
  imports Prelude
begin

text \<open>
  What the program uses of Go's text libraries. A Go string is a byte sequence: here a
  \<open>string\<close>, whose characters are bytes. Runes are Unicode code points (\<open>nat\<close>).

  \<^item> \<open>decode_rune\<close>, \<open>encode_rune\<close>, \<open>runes\<close>, \<open>valid_utf8\<close>: \<^verbatim>\<open>unicode/utf8\<close> and the
    \<^verbatim>\<open>range\<close> loop over a string (an ill-formed byte is U+FFFD of width 1);
  \<^item> \<open>lower_rune\<close>, \<open>to_lower\<close>, \<open>is_space\<close>, \<open>trim_space\<close>: \<^verbatim>\<open>unicode\<close> and \<^verbatim>\<open>strings\<close>, with
    the whole simple lower-case table of the Unicode character database;
  \<^item> \<open>format_int\<close>, \<open>parse_int\<close>: \<^verbatim>\<open>strconv\<close> in base 10 at 64 bits;
  \<^item> \<open>wrap64\<close>: two's complement wrap-around of \<^verbatim>\<open>int64\<close>.

  The lemmas show that well-formed text is exactly the concatenation of the encodings of
  its runes, and that decimal printing and reading are inverse.
\<close>

section \<open>Bytes\<close>

abbreviation byte_val :: "char \<Rightarrow> nat" where
  "byte_val c \<equiv> of_char c"

abbreviation byte :: "nat \<Rightarrow> char" where
  "byte n \<equiv> char_of n"

lemma byte_val_less [simp]: "byte_val c < 256"
  using of_char_mod_256 [of c, where 'a = nat] by (metis mod_less_divisor zero_less_numeral)

lemma byte_val_byte: "n < 256 \<Longrightarrow> byte_val (byte n) = n"
  by simp

section \<open>UTF-8\<close>

definition rune_error :: nat where "rune_error = 0xFFFD"

definition is_cont :: "nat \<Rightarrow> bool" where "is_cont n \<longleftrightarrow> 0x80 \<le> n \<and> n \<le> 0xBF"

text \<open>The second byte's range depends on the first (no overlong forms, no surrogates).\<close>

definition second_ok :: "nat \<Rightarrow> nat \<Rightarrow> bool" where
  "second_ok n0 n1 \<longleftrightarrow>
     (if n0 = 0xE0 then 0xA0 \<le> n1 \<and> n1 \<le> 0xBF
      else if n0 = 0xED then 0x80 \<le> n1 \<and> n1 \<le> 0x9F
      else if n0 = 0xF0 then 0x90 \<le> n1 \<and> n1 \<le> 0xBF
      else if n0 = 0xF4 then 0x80 \<le> n1 \<and> n1 \<le> 0x8F
      else is_cont n1)"

text \<open>\<^verbatim>\<open>utf8.DecodeRune\<close>: the first rune and its width.\<close>

definition decode_rune :: "string \<Rightarrow> nat \<times> nat" where
  "decode_rune s =
     (case s of
        [] \<Rightarrow> (rune_error, 0)
      | b0 # s1 \<Rightarrow>
          let n0 = byte_val b0 in
          if n0 < 0x80 then (n0, 1)
          else if n0 < 0xC2 \<or> 0xF4 < n0 then (rune_error, 1)
          else (case s1 of
             [] \<Rightarrow> (rune_error, 1)
           | b1 # s2 \<Rightarrow>
               let n1 = byte_val b1 in
               if \<not> second_ok n0 n1 then (rune_error, 1)
               else if n0 < 0xE0 then ((n0 - 0xC0) * 64 + (n1 - 0x80), 2)
               else (case s2 of
                  [] \<Rightarrow> (rune_error, 1)
                | b2 # s3 \<Rightarrow>
                    let n2 = byte_val b2 in
                    if \<not> is_cont n2 then (rune_error, 1)
                    else if n0 < 0xF0
                    then ((n0 - 0xE0) * 4096 + (n1 - 0x80) * 64 + (n2 - 0x80), 3)
                    else (case s3 of
                       [] \<Rightarrow> (rune_error, 1)
                     | b3 # _ \<Rightarrow>
                         let n3 = byte_val b3 in
                         if \<not> is_cont n3 then (rune_error, 1)
                         else ((n0 - 0xF0) * 262144 + (n1 - 0x80) * 4096
                               + (n2 - 0x80) * 64 + (n3 - 0x80), 4)))))"

text \<open>\<^verbatim>\<open>utf8.AppendRune\<close>: surrogates and values beyond U+10FFFF are written as U+FFFD.\<close>

definition scalar :: "nat \<Rightarrow> bool" where
  "scalar r \<longleftrightarrow> r \<le> 0x10FFFF \<and> \<not> (0xD800 \<le> r \<and> r \<le> 0xDFFF)"

definition encode_rune :: "nat \<Rightarrow> string" where
  "encode_rune r =
     (if r < 0x80 then [byte r]
      else if r < 0x800 then [byte (0xC0 + r div 64), byte (0x80 + r mod 64)]
      else if \<not> scalar r then [byte 0xEF, byte 0xBF, byte 0xBD]
      else if r < 0x10000
      then [byte (0xE0 + r div 4096), byte (0x80 + r div 64 mod 64), byte (0x80 + r mod 64)]
      else [byte (0xF0 + r div 262144), byte (0x80 + r div 4096 mod 64),
            byte (0x80 + r div 64 mod 64), byte (0x80 + r mod 64)])"

lemma decode_rune_width_le: "s \<noteq> [] \<Longrightarrow> 1 \<le> snd (decode_rune s)"
  by (auto simp: decode_rune_def Let_def split: list.splits)

text \<open>The runes of a string, as a \<^verbatim>\<open>range\<close> loop yields them, and the bytes of each.\<close>

function rune_chunks :: "string \<Rightarrow> string list" where
  "rune_chunks [] = []"
| "rune_chunks (b # bs) =
     (let n = snd (decode_rune (b # bs)) in take n (b # bs) # rune_chunks (drop (n - 1) bs))"
  by pat_completeness auto
termination
  by (relation "measure length") auto

declare rune_chunks.simps(2) [simp del]

definition chunk_rune :: "string \<Rightarrow> nat" where "chunk_rune c = fst (decode_rune c)"

function runes :: "string \<Rightarrow> nat list" where
  "runes [] = []"
| "runes (b # bs) =
     (let rn = decode_rune (b # bs) in fst rn # runes (drop (snd rn - 1) bs))"
  by pat_completeness auto
termination
  by (relation "measure length") auto

declare runes.simps(2) [simp del]

text \<open>\<^verbatim>\<open>utf8.Valid\<close> and \<^verbatim>\<open>utf8.ValidString\<close>.\<close>

function valid_utf8 :: "string \<Rightarrow> bool" where
  "valid_utf8 [] = True"
| "valid_utf8 (b # bs) =
     (let rn = decode_rune (b # bs)
      in \<not> (fst rn = rune_error \<and> snd rn = 1) \<and> valid_utf8 (drop (snd rn - 1) bs))"
  by pat_completeness auto
termination
  by (relation "measure length") auto

declare valid_utf8.simps(2) [simp del]

definition utf8 :: "nat list \<Rightarrow> string" where "utf8 rs = concat (map encode_rune rs)"

lemma utf8_simps [simp]:
  "utf8 [] = []" "utf8 (r # rs) = encode_rune r @ utf8 rs" "utf8 (rs @ rs') = utf8 rs @ utf8 rs'"
  by (simp_all add: utf8_def)

lemma encode_rune_not_Nil [simp]: "encode_rune r \<noteq> []"
  by (simp add: encode_rune_def)

lemma div_4096: "(r::nat) div 4096 = r div 64 div 64"
  by (simp flip: div_mult2_eq)

lemma div_262144: "(r::nat) div 262144 = r div 64 div 64 div 64"
  by (simp flip: div_mult2_eq)

lemma decode_encode_3:
  assumes "scalar r" "0x800 \<le> r" "r < 0x10000"
  shows "decode_rune (encode_rune r @ s) = (r, length (encode_rune r))"
proof -
  define x y where "x = r div 64" and "y = x div 64"
  have e: "x * 64 + r mod 64 = r" "y * 64 + x mod 64 = x" by (simp_all add: x_def y_def)
  have m: "r mod 64 < 64" "x mod 64 < 64" by simp_all
  have y: "y < 16" using assms(3) e m by linarith
  have lo: "y = 0 \<Longrightarrow> 32 \<le> x mod 64" using assms(2) e m by linarith
  have hi: "y = 13 \<Longrightarrow> x mod 64 < 32" using assms e m unfolding scalar_def by linarith
  have sum: "y * 4096 + (x mod 64) * 64 + r mod 64 = r" using e by linarith
  have enc: "encode_rune r = [byte (0xE0 + y), byte (0x80 + x mod 64), byte (0x80 + r mod 64)]"
    using assms by (simp add: encode_rune_def div_4096 x_def y_def)
  show ?thesis
    using y lo hi sum m
    by (auto simp: enc decode_rune_def second_ok_def is_cont_def Let_def)
qed

lemma decode_encode_4:
  assumes "scalar r" "0x10000 \<le> r"
  shows "decode_rune (encode_rune r @ s) = (r, length (encode_rune r))"
proof -
  define x y z where "x = r div 64" and "y = x div 64" and "z = y div 64"
  have e: "x * 64 + r mod 64 = r" "y * 64 + x mod 64 = x" "z * 64 + y mod 64 = y"
    by (simp_all add: x_def y_def z_def)
  have m: "r mod 64 < 64" "x mod 64 < 64" "y mod 64 < 64" by simp_all
  have r: "r \<le> 0x10FFFF" using assms by (simp add: scalar_def)
  have z: "z < 5" using r e m by linarith
  have lo: "z = 0 \<Longrightarrow> 16 \<le> y mod 64" using assms(2) e m by linarith
  have hi: "z = 4 \<Longrightarrow> y mod 64 < 16" using r e m by linarith
  have sum: "z * 262144 + (y mod 64) * 4096 + (x mod 64) * 64 + r mod 64 = r" using e by linarith
  have enc: "encode_rune r = [byte (0xF0 + z), byte (0x80 + y mod 64), byte (0x80 + x mod 64),
      byte (0x80 + r mod 64)]"
    using assms by (simp add: encode_rune_def div_4096 div_262144 x_def y_def z_def)
  show ?thesis
    using z lo hi sum m
    by (auto simp: enc decode_rune_def second_ok_def is_cont_def Let_def)
qed

lemma decode_encode:
  assumes "scalar r"
  shows "decode_rune (encode_rune r @ s) = (r, length (encode_rune r))"
proof -
  consider "r < 0x80" | "0x80 \<le> r" "r < 0x800" | "0x800 \<le> r" "r < 0x10000" | "0x10000 \<le> r"
    by linarith
  then show ?thesis
  proof cases
    case 1
    then show ?thesis by (simp add: decode_rune_def encode_rune_def)
  next
    case 2
    then have "r div 64 < 32" "2 \<le> r div 64" by auto
    with 2 show ?thesis
      by (simp add: decode_rune_def encode_rune_def second_ok_def is_cont_def Let_def)
  next
    case 3
    with assms show ?thesis by (rule decode_encode_3)
  next
    case 4
    with assms show ?thesis by (rule decode_encode_4)
  qed
qed

lemma encode_2:
  assumes "0xC2 \<le> n0" "n0 < 0xE0" "0x80 \<le> n1" "n1 \<le> 0xBF"
    and r: "r = (n0 - 0xC0) * 64 + (n1 - 0x80)"
  shows "scalar r \<and> encode_rune r = [byte n0, byte n1]"
proof -
  have m: "n1 - 0x80 < 64" using assms(4) by linarith
  have "r div 64 = n0 - 0xC0" "r mod 64 = n1 - 0x80" using m by (simp_all add: r)
  moreover have "0x80 \<le> r" "r < 0x800" using assms m by linarith+
  ultimately show ?thesis using assms by (simp add: encode_rune_def scalar_def)
qed

lemma div_mod_64: "c < 64 \<Longrightarrow> (q * 64 + c) div 64 = q \<and> (q * 64 + c) mod 64 = (c::nat)"
  by simp

lemma encode_3:
  assumes "0xE0 \<le> n0" "n0 < 0xF0" "second_ok n0 n1" "is_cont n2"
    and r: "r = (n0 - 0xE0) * 4096 + (n1 - 0x80) * 64 + (n2 - 0x80)"
  shows "scalar r \<and> encode_rune r = [byte n0, byte n1, byte n2]"
proof -
  define a b c where "a = n0 - 0xE0" and "b = n1 - 0x80" and "c = n2 - 0x80"
  have n: "n0 = 0xE0 + a" "n1 = 0x80 + b" "n2 = 0x80 + c" "a < 16" "b < 64" "c < 64"
    and lo: "0 < a \<or> 32 \<le> b" and hi: "a < 13 \<or> 13 < a \<or> b < 32"
    using assms(1-4) by (auto simp: a_def b_def c_def second_ok_def is_cont_def split: if_splits)
  have r': "r = (a * 64 + b) * 64 + c" by (simp add: r a_def b_def c_def)
  have r2: "r = a * 4096 + b * 64 + c" by (simp add: r')
  have d: "r div 64 = a * 64 + b" "r mod 64 = c"
    using div_mod_64 [OF n(6), of "a * 64 + b"] by (simp_all only: r')
  have "r div 4096 = a" "r div 64 mod 64 = b" using n by (simp_all add: div_4096 d)
  moreover have "0x800 \<le> r" using lo n r2 by (elim disjE) linarith+
  moreover have "r < 0x10000" using n r2 by linarith
  moreover have "r < 0xD800 \<or> 0xDFFF < r"
  proof (cases "a \<le> 13")
    case True
    then have "r < 0xD800" using hi n r2 by (elim disjE) linarith+
    then show ?thesis ..
  next
    case False
    then show ?thesis using n r2 by linarith
  qed
  ultimately show ?thesis using n d by (auto simp: encode_rune_def scalar_def)
qed

lemma encode_4:
  assumes "0xF0 \<le> n0" "n0 \<le> 0xF4" "second_ok n0 n1" "is_cont n2" "is_cont n3"
    and r: "r = (n0 - 0xF0) * 262144 + (n1 - 0x80) * 4096 + (n2 - 0x80) * 64 + (n3 - 0x80)"
  shows "scalar r \<and> encode_rune r = [byte n0, byte n1, byte n2, byte n3]"
proof -
  define a b c d where "a = n0 - 0xF0" and "b = n1 - 0x80" and "c = n2 - 0x80" and "d = n3 - 0x80"
  have n: "n0 = 0xF0 + a" "n1 = 0x80 + b" "n2 = 0x80 + c" "n3 = 0x80 + d" "a < 5" "b < 64" "c < 64" "d < 64"
    and lo: "0 < a \<or> 16 \<le> b" and hi: "a < 4 \<or> b < 16"
    using assms(1-5) by (auto simp: a_def b_def c_def d_def second_ok_def is_cont_def split: if_splits)
  have r': "r = ((a * 64 + b) * 64 + c) * 64 + d" by (simp add: r a_def b_def c_def d_def)
  have r2: "r = a * 262144 + b * 4096 + c * 64 + d" by (simp add: r')
  have e: "r div 64 = (a * 64 + b) * 64 + c" "r mod 64 = d"
    using div_mod_64 [OF n(8), of "(a * 64 + b) * 64 + c"] by (simp_all only: r')
  have e2: "r div 64 div 64 = a * 64 + b" "r div 64 mod 64 = c"
    using div_mod_64 [OF n(7), of "a * 64 + b"] by (simp_all only: e)
  have "r div 64 div 64 div 64 = a" "r div 64 div 64 mod 64 = b" using n by (simp_all add: e2)
  moreover have "0x10000 \<le> r" using lo n r2 by (elim disjE) linarith+
  moreover have "r \<le> 0x10FFFF" using hi n r2 by (elim disjE) linarith+
  ultimately show ?thesis using n e e2 by (simp add: encode_rune_def scalar_def div_4096 div_262144)
qed

lemma second_ok_cont: "second_ok a b \<Longrightarrow> 0x80 \<le> b \<and> b \<le> 0xBF"
  by (auto simp: second_ok_def is_cont_def split: if_splits)

lemma decode_valid:
  assumes "decode_rune s = (r, n)" "s \<noteq> []" "\<not> (r = rune_error \<and> n = 1)"
  shows "scalar r \<and> n = length (encode_rune r) \<and> s = encode_rune r @ drop n s"
proof -
  obtain b0 s1 where s: "s = b0 # s1" using assms(2) by (cases s) auto
  define n0 where "n0 = byte_val b0"
  show ?thesis
  proof (cases "n0 < 0x80")
    case True
    then show ?thesis using assms by (auto simp: s decode_rune_def n0_def encode_rune_def scalar_def)
  next
    case big: False
    with assms have n0: "0xC2 \<le> n0" "n0 \<le> 0xF4"
      by (auto simp: s decode_rune_def n0_def Let_def split: if_splits)
    with big assms obtain b1 s2 where s1: "s1 = b1 # s2" and ok: "second_ok n0 (byte_val b1)"
      by (cases s1) (auto simp: s decode_rune_def n0_def Let_def split: if_splits)
    show ?thesis
    proof (cases "n0 < 0xE0")
      case True
      with assms n0 ok have "r = (n0 - 0xC0) * 64 + (byte_val b1 - 0x80)" "n = 2"
        by (auto simp: s s1 decode_rune_def n0_def Let_def)
      with encode_2 [of n0 "byte_val b1" r] True n0 second_ok_cont [OF ok] show ?thesis
        by (simp add: s s1 n0_def)
    next
      case 3: False
      with assms n0 ok obtain b2 s3 where s2: "s2 = b2 # s3" and c2: "is_cont (byte_val b2)"
        by (cases s2) (auto simp: s s1 decode_rune_def n0_def Let_def split: if_splits)
      show ?thesis
      proof (cases "n0 < 0xF0")
        case True
        with assms n0 ok 3 c2
        have "r = (n0 - 0xE0) * 4096 + (byte_val b1 - 0x80) * 64 + (byte_val b2 - 0x80)" "n = 3"
          by (auto simp: s s1 s2 decode_rune_def n0_def Let_def)
        with encode_3 [of n0 "byte_val b1" "byte_val b2" r] True 3 ok c2 show ?thesis
          by (simp add: s s1 s2 n0_def)
      next
        case 4: False
        with assms n0 ok c2 obtain b3 s4 where s3: "s3 = b3 # s4" and c3: "is_cont (byte_val b3)"
          by (cases s3) (auto simp: s s1 s2 decode_rune_def n0_def Let_def split: if_splits)
        with assms n0 ok c2 3 4
        have "r = (n0 - 0xF0) * 262144 + (byte_val b1 - 0x80) * 4096 + (byte_val b2 - 0x80) * 64
            + (byte_val b3 - 0x80)" "n = 4"
          by (auto simp: s s1 s2 decode_rune_def n0_def Let_def)
        with encode_4 [of n0 "byte_val b1" "byte_val b2" "byte_val b3" r] 4 n0 ok c2 c3 show ?thesis
          by (simp add: s s1 s2 s3 n0_def)
      qed
    qed
  qed
qed

lemma valid_utf8_encode [simp]:
  assumes "scalar r" shows "valid_utf8 (encode_rune r @ s) = valid_utf8 s"
proof -
  obtain b bs where e: "encode_rune r = b # bs" by (cases "encode_rune r") auto
  have d: "decode_rune (b # bs @ s) = (r, Suc (length bs))" using decode_encode [OF assms, of s] e by simp
  have "\<not> (r = rune_error \<and> Suc (length bs) = 1)"
    using e by (auto simp: rune_error_def encode_rune_def scalar_def)
  then show ?thesis by (simp add: e valid_utf8.simps(2) d Let_def)
qed

lemma runes_encode [simp]:
  assumes "scalar r" shows "runes (encode_rune r @ s) = r # runes s"
proof -
  obtain b bs where e: "encode_rune r = b # bs" by (cases "encode_rune r") auto
  have d: "decode_rune (b # bs @ s) = (r, Suc (length bs))" using decode_encode [OF assms, of s] e by simp
  then show ?thesis by (simp add: e runes.simps(2) Let_def)
qed

text \<open>Well-formed text is the encoding of its runes, and conversely.\<close>

lemma valid_utf8_runes:
  "valid_utf8 s \<Longrightarrow> utf8 (runes s) = s \<and> list_all scalar (runes s)"
proof (induction s rule: valid_utf8.induct)
  case 1
  then show ?case by simp
next
  case (2 b bs)
  obtain r n where d: "decode_rune (b # bs) = (r, n)" by (cases "decode_rune (b # bs)")
  with 2 have ok: "\<not> (r = rune_error \<and> n = 1)" and v: "valid_utf8 (drop (n - 1) bs)"
    by (auto simp: valid_utf8.simps(2) Let_def)
  have "n \<noteq> 0" using decode_rune_width_le [of "b # bs"] d by simp
  then have dr: "drop n (b # bs) = drop (n - 1) bs" by (cases n) auto
  from decode_valid [OF d _ ok] have sc: "scalar r" and s: "b # bs = encode_rune r @ drop (n - 1) bs"
    using dr by auto
  from 2(1) [OF d [symmetric]] v d have IH: "utf8 (runes (drop (n - 1) bs)) = drop (n - 1) bs"
      "list_all scalar (runes (drop (n - 1) bs))"
    by auto
  have "runes (b # bs) = r # runes (drop (n - 1) bs)" by (simp add: runes.simps(2) d)
  with IH sc s show ?case by simp
qed

lemma valid_utf8_utf8 [simp]: "list_all scalar rs \<Longrightarrow> valid_utf8 (utf8 rs)"
  by (induction rs) auto

lemma runes_utf8 [simp]: "list_all scalar rs \<Longrightarrow> runes (utf8 rs) = rs"
  by (induction rs) auto

lemma valid_utf8E:
  assumes "valid_utf8 s" obtains rs where "s = utf8 rs" "list_all scalar rs" "runes s = rs"
  using valid_utf8_runes [OF assms] by metis

lemma valid_utf8_append: "valid_utf8 s \<Longrightarrow> valid_utf8 (s @ t) = valid_utf8 t"
proof (elim valid_utf8E)
  fix rs assume "s = utf8 rs" "list_all scalar rs"
  then show ?thesis by (induction rs arbitrary: s) auto
qed

lemma runes_append: "valid_utf8 s \<Longrightarrow> runes (s @ t) = runes s @ runes t"
proof (elim valid_utf8E)
  fix rs assume "s = utf8 rs" "list_all scalar rs"
  then show ?thesis by (induction rs arbitrary: s) auto
qed

lemma encode_ascii: "byte_val c < 0x80 \<Longrightarrow> encode_rune (byte_val c) = [c]"
  by (simp add: encode_rune_def)

lemma scalar_ascii: "n < 0x80 \<Longrightarrow> scalar n" by (simp add: scalar_def)

lemma valid_utf8_ascii_Cons [simp]: "byte_val c < 0x80 \<Longrightarrow> valid_utf8 (c # s) = valid_utf8 s"
  using valid_utf8_encode [of "byte_val c" s] by (simp add: encode_ascii scalar_ascii)

lemma runes_ascii_Cons [simp]: "byte_val c < 0x80 \<Longrightarrow> runes (c # s) = byte_val c # runes s"
  using runes_encode [of "byte_val c" s] by (simp add: encode_ascii scalar_ascii)

definition ascii :: "string \<Rightarrow> bool" where "ascii s \<longleftrightarrow> list_all (\<lambda>c. byte_val c < 0x80) s"

lemma ascii_simps [simp]: "ascii []" "ascii (c # s) = (byte_val c < 0x80 \<and> ascii s)"
    "ascii (s @ t) = (ascii s \<and> ascii t)"
  by (simp_all add: ascii_def)

lemma valid_utf8_ascii: "ascii s \<Longrightarrow> valid_utf8 s"
  by (induction s) auto

lemma runes_ascii: "ascii s \<Longrightarrow> runes s = map byte_val s"
  by (induction s) auto

section \<open>Case and space\<close>

text \<open>
  The simple lower-case mapping beyond ASCII: rows \<open>(lo, hi, stride, delta)\<close>; a rune of
  \<open>lo..hi\<close> at a multiple of \<open>stride\<close> from \<open>lo\<close> has its lower case \<open>delta\<close> away.
\<close>

definition lower_table :: "(nat \<times> nat \<times> nat \<times> int) list" where
  "lower_table = [
    (192, 214, 1, 32), (216, 222, 1, 32), (256, 302, 2, 1), (304, 304, 1, - 199),
    (306, 310, 2, 1), (313, 327, 2, 1), (330, 374, 2, 1), (376, 376, 1, - 121),
    (377, 381, 2, 1), (385, 385, 1, 210), (386, 388, 2, 1), (390, 390, 1, 206),
    (391, 391, 1, 1), (393, 394, 1, 205), (395, 395, 1, 1), (398, 398, 1, 79),
    (399, 399, 1, 202), (400, 400, 1, 203), (401, 401, 1, 1), (403, 403, 1, 205),
    (404, 404, 1, 207), (406, 406, 1, 211), (407, 407, 1, 209), (408, 408, 1, 1),
    (412, 412, 1, 211), (413, 413, 1, 213), (415, 415, 1, 214), (416, 420, 2, 1),
    (422, 422, 1, 218), (423, 423, 1, 1), (425, 425, 1, 218), (428, 428, 1, 1),
    (430, 430, 1, 218), (431, 431, 1, 1), (433, 434, 1, 217), (435, 437, 2, 1),
    (439, 439, 1, 219), (440, 440, 1, 1), (444, 444, 1, 1), (452, 452, 1, 2), (453, 453, 1, 1),
    (455, 455, 1, 2), (456, 456, 1, 1), (458, 458, 1, 2), (459, 475, 2, 1), (478, 494, 2, 1),
    (497, 497, 1, 2), (498, 500, 2, 1), (502, 502, 1, - 97), (503, 503, 1, - 56),
    (504, 542, 2, 1), (544, 544, 1, - 130), (546, 562, 2, 1), (570, 570, 1, 10795),
    (571, 571, 1, 1), (573, 573, 1, - 163), (574, 574, 1, 10792), (577, 577, 1, 1),
    (579, 579, 1, - 195), (580, 580, 1, 69), (581, 581, 1, 71), (582, 590, 2, 1),
    (880, 882, 2, 1), (886, 886, 1, 1), (895, 895, 1, 116), (902, 902, 1, 38),
    (904, 906, 1, 37), (908, 908, 1, 64), (910, 911, 1, 63), (913, 929, 1, 32),
    (931, 939, 1, 32), (975, 975, 1, 8), (984, 1006, 2, 1), (1012, 1012, 1, - 60),
    (1015, 1015, 1, 1), (1017, 1017, 1, - 7), (1018, 1018, 1, 1), (1021, 1023, 1, - 130),
    (1024, 1039, 1, 80), (1040, 1071, 1, 32), (1120, 1152, 2, 1), (1162, 1214, 2, 1),
    (1216, 1216, 1, 15), (1217, 1229, 2, 1), (1232, 1326, 2, 1), (1329, 1366, 1, 48),
    (4256, 4293, 1, 7264), (4295, 4295, 1, 7264), (4301, 4301, 1, 7264), (5024, 5103, 1, 38864),
    (5104, 5109, 1, 8), (7312, 7354, 1, - 3008), (7357, 7359, 1, - 3008), (7680, 7828, 2, 1),
    (7838, 7838, 1, - 7615), (7840, 7934, 2, 1), (7944, 7951, 1, - 8), (7960, 7965, 1, - 8),
    (7976, 7983, 1, - 8), (7992, 7999, 1, - 8), (8008, 8013, 1, - 8), (8025, 8031, 2, - 8),
    (8040, 8047, 1, - 8), (8072, 8079, 1, - 8), (8088, 8095, 1, - 8), (8104, 8111, 1, - 8),
    (8120, 8121, 1, - 8), (8122, 8123, 1, - 74), (8124, 8124, 1, - 9), (8136, 8139, 1, - 86),
    (8140, 8140, 1, - 9), (8152, 8153, 1, - 8), (8154, 8155, 1, - 100), (8168, 8169, 1, - 8),
    (8170, 8171, 1, - 112), (8172, 8172, 1, - 7), (8184, 8185, 1, - 128),
    (8186, 8187, 1, - 126), (8188, 8188, 1, - 9), (8486, 8486, 1, - 7517),
    (8490, 8490, 1, - 8383), (8491, 8491, 1, - 8262), (8498, 8498, 1, 28), (8544, 8559, 1, 16),
    (8579, 8579, 1, 1), (9398, 9423, 1, 26), (11264, 11311, 1, 48), (11360, 11360, 1, 1),
    (11362, 11362, 1, - 10743), (11363, 11363, 1, - 3814), (11364, 11364, 1, - 10727),
    (11367, 11371, 2, 1), (11373, 11373, 1, - 10780), (11374, 11374, 1, - 10749),
    (11375, 11375, 1, - 10783), (11376, 11376, 1, - 10782), (11378, 11378, 1, 1),
    (11381, 11381, 1, 1), (11390, 11391, 1, - 10815), (11392, 11490, 2, 1),
    (11499, 11501, 2, 1), (11506, 11506, 1, 1), (42560, 42604, 2, 1), (42624, 42650, 2, 1),
    (42786, 42798, 2, 1), (42802, 42862, 2, 1), (42873, 42875, 2, 1),
    (42877, 42877, 1, - 35332), (42878, 42886, 2, 1), (42891, 42891, 1, 1),
    (42893, 42893, 1, - 42280), (42896, 42898, 2, 1), (42902, 42920, 2, 1),
    (42922, 42922, 1, - 42308), (42923, 42923, 1, - 42319), (42924, 42924, 1, - 42315),
    (42925, 42925, 1, - 42305), (42926, 42926, 1, - 42308), (42928, 42928, 1, - 42258),
    (42929, 42929, 1, - 42282), (42930, 42930, 1, - 42261), (42931, 42931, 1, 928),
    (42932, 42946, 2, 1), (42948, 42948, 1, - 48), (42949, 42949, 1, - 42307),
    (42950, 42950, 1, - 35384), (42951, 42953, 2, 1), (42960, 42960, 1, 1),
    (42966, 42968, 2, 1), (42997, 42997, 1, 1), (65313, 65338, 1, 32), (66560, 66599, 1, 40),
    (66736, 66771, 1, 40), (66928, 66938, 1, 39), (66940, 66954, 1, 39), (66956, 66962, 1, 39),
    (66964, 66965, 1, 39), (68736, 68786, 1, 64), (71840, 71871, 1, 32), (93760, 93791, 1, 32),
    (125184, 125217, 1, 34)]"

fun lower_lookup :: "(nat \<times> nat \<times> nat \<times> int) list \<Rightarrow> nat \<Rightarrow> nat" where
  "lower_lookup [] r = r"
| "lower_lookup ((lo, hi, stride, delta) # rows) r =
     (if lo \<le> r \<and> r \<le> hi \<and> (r - lo) mod stride = 0 then nat (int r + delta)
      else lower_lookup rows r)"

text \<open>\<^verbatim>\<open>unicode.ToLower\<close> and \<^verbatim>\<open>strings.ToLower\<close>.\<close>

definition lower_rune :: "nat \<Rightarrow> nat" where
  "lower_rune r =
     (if r < 0x80 then (if 0x41 \<le> r \<and> r \<le> 0x5A then r + 32 else r)
      else lower_lookup lower_table r)"

definition to_lower :: "string \<Rightarrow> string" where
  "to_lower s = concat (map (\<lambda>r. encode_rune (lower_rune r)) (runes s))"

text \<open>\<^verbatim>\<open>unicode.IsSpace\<close>.\<close>

definition is_space :: "nat \<Rightarrow> bool" where
  "is_space r \<longleftrightarrow>
     (0x09 \<le> r \<and> r \<le> 0x0D) \<or> r = 0x20 \<or> r = 0x85 \<or> r = 0xA0 \<or> r = 0x1680 \<or>
     (0x2000 \<le> r \<and> r \<le> 0x200A) \<or> r = 0x2028 \<or> r = 0x2029 \<or> r = 0x202F \<or> r = 0x205F \<or> r = 0x3000"

text \<open>\<^verbatim>\<open>strings.TrimSpace\<close>.\<close>

definition trim_space :: "string \<Rightarrow> string" where
  "trim_space s =
     (let sp = (\<lambda>c. is_space (chunk_rune c))
      in concat (rev (dropWhile sp (rev (dropWhile sp (rune_chunks s))))))"

definition lower_byte :: "char \<Rightarrow> char" where
  "lower_byte c = (if 0x41 \<le> byte_val c \<and> byte_val c \<le> 0x5A then byte (byte_val c + 32) else c)"

lemma to_lower_ascii: "ascii s \<Longrightarrow> to_lower s = map lower_byte s"
  by (induction s) (auto simp: to_lower_def lower_rune_def lower_byte_def encode_rune_def)

lemma trim_space_Nil [simp]: "trim_space [] = []"
  by (simp add: trim_space_def)

lemma ascii_lower_id: "list_all (\<lambda>c. byte_val c < 0x80 \<and> \<not> (0x41 \<le> byte_val c \<and> byte_val c \<le> 0x5A)) s \<Longrightarrow> to_lower s = s"
proof -
  assume a: "list_all (\<lambda>c. byte_val c < 0x80 \<and> \<not> (0x41 \<le> byte_val c \<and> byte_val c \<le> 0x5A)) s"
  then have "ascii s" by (auto simp: ascii_def list_all_iff)
  moreover have "map lower_byte s = s" using a by (induction s) (auto simp: lower_byte_def)
  ultimately show ?thesis by (simp add: to_lower_ascii)
qed

lemma trim_space_head:
  assumes "byte_val c < 0x80" "\<not> is_space (byte_val c)" shows "trim_space (c # cs) \<noteq> []"
proof -
  have d: "decode_rune (c # cs) = (byte_val c, 1)"
    using decode_encode [of "byte_val c" cs] assms(1) by (simp add: encode_ascii scalar_ascii)
  have r: "rune_chunks (c # cs) = [c] # rune_chunks cs"
    using d by (simp add: rune_chunks.simps(2))
  have "chunk_rune [c] = byte_val c"
    using decode_encode [of "byte_val c" "[]"] assms(1) by (simp add: chunk_rune_def encode_ascii scalar_ascii)
  with assms(2) r show ?thesis by (auto simp: trim_space_def Let_def dropWhile_append)
qed

section \<open>Integers\<close>

text \<open>Go's \<^verbatim>\<open>int64\<close> arithmetic wraps around.\<close>

definition wrap64 :: "int \<Rightarrow> int" where
  "wrap64 x = (x + 2 ^ 63) mod 2 ^ 64 - 2 ^ 63"

definition int64 :: "int \<Rightarrow> bool" where
  "int64 x \<longleftrightarrow> - (2 ^ 63) \<le> x \<and> x < 2 ^ 63"

lemma wrap64_id [simp]: "int64 x \<Longrightarrow> wrap64 x = x"
  by (simp add: wrap64_def int64_def)

lemma int64_wrap64 [simp]: "int64 (wrap64 x)"
  by (simp add: wrap64_def int64_def)

lemma wrap64_overflow: "wrap64 (2 ^ 63) = - (2 ^ 63)"
  by (simp add: wrap64_def)

fun nat_digits :: "nat \<Rightarrow> string" where
  "nat_digits n = (if n < 10 then [byte (0x30 + n)] else nat_digits (n div 10) @ [byte (0x30 + n mod 10)])"

declare nat_digits.simps [simp del]

text \<open>\<^verbatim>\<open>strconv.FormatInt(v, 10)\<close>.\<close>

definition format_int :: "int \<Rightarrow> string" where
  "format_int v = (if v < 0 then CHR ''-'' # nat_digits (nat (- v)) else nat_digits (nat v))"

definition is_digit :: "char \<Rightarrow> bool" where
  "is_digit c \<longleftrightarrow> 0x30 \<le> byte_val c \<and> byte_val c \<le> 0x39"

definition digit_val :: "char \<Rightarrow> nat" where "digit_val c = byte_val c - 0x30"

fun digits_val :: "nat \<Rightarrow> string \<Rightarrow> nat" where
  "digits_val acc [] = acc"
| "digits_val acc (c # cs) = digits_val (10 * acc + digit_val c) cs"

text \<open>\<^verbatim>\<open>strconv.ParseInt(s, 10, 64)\<close>: an optional sign, then digits, within range.\<close>

definition parse_int :: "string \<Rightarrow> int option" where
  "parse_int s =
     (let neg = (case s of c # _ \<Rightarrow> c = CHR ''-'' | [] \<Rightarrow> False);
          ds = (case s of c # cs \<Rightarrow> (if c = CHR ''-'' \<or> c = CHR ''+'' then cs else s) | [] \<Rightarrow> []);
          v = (if neg then - int (digits_val 0 ds) else int (digits_val 0 ds))
      in if ds = [] \<or> \<not> list_all is_digit ds \<or> \<not> int64 v then None else Some v)"

lemma nat_digits_digits: "list_all is_digit (nat_digits n) \<and> nat_digits n \<noteq> []"
proof (induction n rule: nat_digits.induct)
  case (1 n)
  show ?case
  proof (cases "n < 10")
    case True
    then show ?thesis by (simp add: nat_digits.simps [of n] is_digit_def)
  next
    case False
    with 1 show ?thesis by (simp add: nat_digits.simps [of n] is_digit_def)
  qed
qed

lemma digits_val_append: "digits_val acc (xs @ ys) = digits_val (digits_val acc xs) ys"
  by (induction xs arbitrary: acc) auto

lemma digits_val_nat_digits: "digits_val 0 (nat_digits n) = n"
proof (induction n rule: nat_digits.induct)
  case (1 n)
  show ?case
  proof (cases "n < 10")
    case True
    then show ?thesis by (simp add: nat_digits.simps [of n] digit_val_def)
  next
    case False
    with 1 show ?thesis by (simp add: nat_digits.simps [of n] digits_val_append digit_val_def)
  qed
qed

lemma nat_digits_head:
  "nat_digits n = c # cs \<Longrightarrow> is_digit c \<and> (cs \<noteq> [] \<longrightarrow> byte_val c \<noteq> 0x30)"
proof (induction n arbitrary: c cs rule: nat_digits.induct)
  case (1 n)
  show ?case
  proof (cases "n < 10")
    case True
    with 1 show ?thesis by (auto simp: nat_digits.simps [of n] is_digit_def)
  next
    case False
    obtain d ds where d: "nat_digits (n div 10) = d # ds"
      using nat_digits_digits [of "n div 10"] by (cases "nat_digits (n div 10)") auto
    from 1(1) [OF False d] have IH: "is_digit d" "ds \<noteq> [] \<longrightarrow> byte_val d \<noteq> 0x30" by auto
    have c: "c = d" using 1(2) False d by (simp add: nat_digits.simps [of n])
    have "ds = [] \<Longrightarrow> byte_val d \<noteq> 0x30"
    proof
      assume "ds = []" and z: "byte_val d = 0x30"
      with d digits_val_nat_digits [of "n div 10"] have "n div 10 = 0" by (simp add: digit_val_def)
      with False show False by simp
    qed
    with IH c show ?thesis by blast
  qed
qed

lemma parse_format_int: "int64 v \<Longrightarrow> parse_int (format_int v) = Some v"
proof -
  assume v: "int64 v"
  have nd: "list_all is_digit (nat_digits n)" "nat_digits n \<noteq> []" for n
    using nat_digits_digits by auto
  show ?thesis
  proof (cases "v < 0")
    case True
    then show ?thesis using v nd
      by (simp add: parse_int_def format_int_def digits_val_nat_digits)
  next
    case False
    obtain c cs where c: "nat_digits (nat v) = c # cs" using nd by (cases "nat_digits (nat v)") auto
    with nat_digits_head have "is_digit c" by blast
    then have "c \<noteq> CHR ''-''" "c \<noteq> CHR ''+''" by (auto simp: is_digit_def)
    with False v nd [of "nat v"] digits_val_nat_digits [of "nat v"] c show ?thesis
      by (simp add: parse_int_def format_int_def)
  qed
qed

lemma format_int_inject: "int64 a \<Longrightarrow> int64 b \<Longrightarrow> format_int a = format_int b \<Longrightarrow> a = b"
  by (metis option.inject parse_format_int)

end
