(* ===== verification/Sql.thy ===== *)
theory Sql
  imports Go_Text
begin

text \<open>
  The \<^verbatim>\<open>database/sql\<close> calls of the sources, on PostgreSQL.

  A database is a record of tables; a table is a list of rows. A \<open>world\<close> holds the committed
  database, the server clock, and three schedules that stand for everything outside the program's
  control: whether each statement fails, what happens to each commit, and how much time passes
  before each transaction. The schedules are arbitrary, so a theorem about a world covers every
  pattern of failures, including a commit whose reply is lost.

  Inside a transaction a computation reads and changes a private copy of the database.
  An error abandons the copy, which is what the deferred \<^verbatim>\<open>tx.Rollback()\<close> of every function does.
  Transactions run one after the other; \<^verbatim>\<open>now()\<close> is the time at which the transaction began.
\<close>

datatype commit_outcome = Committed | Aborted | ReplyLost

record 'db world =
  durable :: 'db
  clock :: int
  ticks :: "nat list"
  stmt_faults :: "bool list"
  commits :: "commit_outcome list"

definition pop :: "'a \<Rightarrow> 'a list \<Rightarrow> 'a \<times> 'a list" where
  "pop d xs = (case xs of [] \<Rightarrow> (d, []) | y # ys \<Rightarrow> (y, ys))"

text \<open>PostgreSQL \<^verbatim>\<open>TEXT\<close> holds valid UTF-8 without the zero byte; a statement with any other text
  argument is an error.\<close>

definition pg_text_ok :: "string \<Rightarrow> bool" where
  "pg_text_ok s \<longleftrightarrow> valid_utf8 s \<and> CHR 0x00 \<notin> set s"

section \<open>Computations inside a transaction\<close>

type_synonym ('db, 'e, 'a) tx = "'db \<Rightarrow> bool list \<Rightarrow> ('e + 'a) \<times> 'db \<times> bool list"

definition tx_return :: "'a \<Rightarrow> ('db, 'e, 'a) tx" where
  "tx_return x db fs = (Inr x, db, fs)"

definition tx_fail :: "'e \<Rightarrow> ('db, 'e, 'a) tx" where
  "tx_fail e db fs = (Inl e, db, fs)"

definition tx_bind :: "('db, 'e, 'a) tx \<Rightarrow> ('a \<Rightarrow> ('db, 'e, 'b) tx) \<Rightarrow> ('db, 'e, 'b) tx" where
  "tx_bind m k db fs =
     (case m db fs of
        (Inl e, db', fs') \<Rightarrow> (Inl e, db', fs')
      | (Inr x, db', fs') \<Rightarrow> k x db' fs')"

definition tx_lift :: "'e + 'a \<Rightarrow> ('db, 'e, 'a) tx" where
  "tx_lift r db fs = (r, db, fs)"

text \<open>\<open>tx_stmt err ps f\<close> is a statement with text arguments \<open>ps\<close>: \<open>err\<close> if it fails, else the effect
  \<open>f\<close>, which may itself report a violated constraint.\<close>

definition tx_stmt :: "'e \<Rightarrow> string list \<Rightarrow> ('db \<Rightarrow> 'e + ('a \<times> 'db)) \<Rightarrow> ('db, 'e, 'a) tx" where
  "tx_stmt err ps f db fs =
     (let (fault, fs') = pop False fs
      in if fault \<or> \<not> list_all pg_text_ok ps then (Inl err, db, fs')
         else (case f db of
                 Inl e \<Rightarrow> (Inl e, db, fs')
               | Inr (x, db') \<Rightarrow> (Inr x, db', fs')))"

definition tx_query :: "'e \<Rightarrow> string list \<Rightarrow> ('db \<Rightarrow> 'a) \<Rightarrow> ('db, 'e, 'a) tx" where
  "tx_query err ps q = tx_stmt err ps (\<lambda>db. Inr (q db, db))"

section \<open>Transactions and single statements\<close>

text \<open>\<open>transact be ce body\<close> is \<^verbatim>\<open>BeginTx\<close>, the body, and \<^verbatim>\<open>Commit\<close>; \<open>be\<close> and \<open>ce\<close> are the errors
  reported when the first or the last fails.\<close>

definition transact :: "'e \<Rightarrow> 'e \<Rightarrow> (int \<Rightarrow> ('db, 'e, 'a) tx) \<Rightarrow> 'db world \<Rightarrow> ('e + 'a) \<times> 'db world" where
  "transact be ce body w =
     (let (dt, ts) = pop 0 (ticks w);
          now = clock w + int dt;
          (fault, fs) = pop False (stmt_faults w);
          w1 = w\<lparr>clock := now, ticks := ts, stmt_faults := fs\<rparr>
      in if fault then (Inl be, w1)
         else (case body now (durable w) fs of
                 (Inl e, _, fs') \<Rightarrow> (Inl e, w1\<lparr>stmt_faults := fs'\<rparr>)
               | (Inr x, db', fs') \<Rightarrow>
                   (let (oc, cs) = pop Committed (commits w);
                        w2 = w1\<lparr>stmt_faults := fs', commits := cs\<rparr>
                    in case oc of
                         Committed \<Rightarrow> (Inr x, w2\<lparr>durable := db'\<rparr>)
                       | Aborted \<Rightarrow> (Inl ce, w2)
                       | ReplyLost \<Rightarrow> (Inl ce, w2\<lparr>durable := db'\<rparr>))))"

text \<open>\<open>exec_auto err ps f\<close> is \<^verbatim>\<open>db.ExecContext\<close>: one statement in its own transaction.\<close>

definition exec_auto :: "'e \<Rightarrow> string list \<Rightarrow> (int \<Rightarrow> 'db \<Rightarrow> 'e + ('a \<times> 'db)) \<Rightarrow> 'db world \<Rightarrow> ('e + 'a) \<times> 'db world" where
  "exec_auto err ps f = transact err err (\<lambda>now. tx_stmt err ps (f now))"

text \<open>\<open>query_auto err ps q\<close> is \<^verbatim>\<open>db.QueryContext\<close>.\<close>

definition query_auto :: "'e \<Rightarrow> string list \<Rightarrow> (int \<Rightarrow> 'db \<Rightarrow> 'a) \<Rightarrow> 'db world \<Rightarrow> ('e + 'a) \<times> 'db world" where
  "query_auto err ps q = transact err err (\<lambda>now. tx_query err ps (q now))"

definition lift_world :: "'e option \<Rightarrow> ('db world \<Rightarrow> ('e + 'a) \<times> 'db world) \<Rightarrow> 'db world \<Rightarrow> ('e + 'a) \<times> 'db world" where
  "lift_world chk m w = (case chk of Some e \<Rightarrow> (Inl e, w) | None \<Rightarrow> m w)"

section \<open>Reading computations\<close>

lemma tx_return_iff [sql_simps]: "tx_return x db fs = (r, db', fs') \<longleftrightarrow> r = Inr x \<and> db' = db \<and> fs' = fs"
  by (auto simp: tx_return_def)

lemma tx_fail_Inr [sql_simps]: "tx_fail e db fs = (Inr x, db', fs') \<longleftrightarrow> False"
  by (simp add: tx_fail_def)

lemma tx_lift_Inr [sql_simps]: "tx_lift r db fs = (Inr x, db', fs') \<longleftrightarrow> r = Inr x \<and> db' = db \<and> fs' = fs"
  by (auto simp: tx_lift_def)

lemma tx_bind_Inr [sql_simps]:
  "tx_bind m k db fs = (Inr y, db', fs') \<longleftrightarrow>
   (\<exists>x db1 fs1. m db fs = (Inr x, db1, fs1) \<and> k x db1 fs1 = (Inr y, db', fs'))"
  by (auto simp: tx_bind_def split: prod.splits sum.splits)

lemma tx_stmt_Inr [sql_simps]:
  "tx_stmt err ps f db fs = (Inr x, db', fs') \<longleftrightarrow>
   \<not> fst (pop False fs) \<and> fs' = snd (pop False fs) \<and> list_all pg_text_ok ps \<and> f db = Inr (x, db')"
  by (auto simp: tx_stmt_def Let_def split: prod.splits sum.splits)

lemma tx_query_Inr [sql_simps]:
  "tx_query err ps q db fs = (Inr x, db', fs') \<longleftrightarrow>
   \<not> fst (pop False fs) \<and> fs' = snd (pop False fs) \<and> list_all pg_text_ok ps \<and> x = q db \<and> db' = db"
  by (auto simp: tx_query_def tx_stmt_Inr)

text \<open>A transaction either leaves the committed database as it was and reports an error, or
  commits the database its body computed; success always means the latter, and an error together
  with a commit is only possible when the reply to the commit is lost.\<close>

definition commit_reply :: "'db world \<Rightarrow> commit_outcome" where
  "commit_reply w = fst (pop Committed (commits w))"

lemma transact_cases:
  assumes "transact be ce body w = (r, w')"
  obtains (unchanged) e where "r = Inl e" "durable w' = durable w"
  | (committed) now x fs fs' where "body now (durable w) fs = (Inr x, durable w', fs')"
      "r = Inr x \<or> (r = Inl ce \<and> commit_reply w = ReplyLost)"
  using assms
  by (fastforce simp: transact_def Let_def commit_reply_def
      split: prod.splits sum.splits if_splits commit_outcome.splits)

lemma transact_success:
  assumes "transact be ce body w = (Inr x, w')"
  obtains now fs fs' where "body now (durable w) fs = (Inr x, durable w', fs')"
  using assms by (rule transact_cases) auto

lemma transact_no_faults:
  assumes "stmt_faults w = []" "commits w = []"
  shows "transact be ce body w =
    (let now = clock w + int (fst (pop 0 (ticks w)));
         w1 = w\<lparr>clock := now, ticks := snd (pop 0 (ticks w))\<rparr>
     in case body now (durable w) [] of
          (Inl e, _, fs') \<Rightarrow> (Inl e, w1\<lparr>stmt_faults := fs'\<rparr>)
        | (Inr x, db', fs') \<Rightarrow> (Inr x, w1\<lparr>stmt_faults := fs', durable := db'\<rparr>))"
  using assms
  by (cases w) (auto simp: transact_def Let_def pop_def split: prod.splits sum.splits list.splits)

section \<open>The contract of a transactional operation\<close>

text \<open>An operation \<open>run\<close> on a command \<open>c\<close> is atomic with effect \<open>eff\<close> if each run either reports an
  error and changes nothing, or has exactly the effect and either returns its result or lost the
  reply to its commit.\<close>

locale atomic_op =
  fixes run :: "'c \<Rightarrow> 'db world \<Rightarrow> ('e + 'r) \<times> 'db world"
    and eff :: "'c \<Rightarrow> 'r \<Rightarrow> 'db \<Rightarrow> 'db \<Rightarrow> bool"
  assumes outcome: "run c w = (r, w') \<Longrightarrow>
    (\<exists>e. r = Inl e \<and> durable w' = durable w) \<or>
    (\<exists>x. eff c x (durable w) (durable w') \<and> (r = Inr x \<or> (\<exists>e. r = Inl e) \<and> commit_reply w = ReplyLost))"
begin

lemma success: "run c w = (Inr x, w') \<Longrightarrow> eff c x (durable w) (durable w')"
  using outcome by fastforce

lemma failure: "\<lbrakk> run c w = (Inl e, w'); commit_reply w \<noteq> ReplyLost \<rbrakk> \<Longrightarrow> durable w' = durable w"
  using outcome by fastforce

lemma change: "run c w = (r, w') \<Longrightarrow> durable w' = durable w \<or> (\<exists>x. eff c x (durable w) (durable w'))"
  using outcome by fastforce

lemma invariant:
  assumes "run c w = (r, w')" "I (durable w)" "\<And>x db db'. \<lbrakk> I db; eff c x db db' \<rbrakk> \<Longrightarrow> I db'"
  shows "I (durable w')"
  using change [OF assms(1)] assms(2,3) by auto

end

text \<open>Every function that validates its command and then runs one transaction meets the contract,
  with what the body does as its effect.\<close>

lemma transact_outcome:
  assumes "lift_world chk (transact be ce body) w = (r, w')"
    and "\<And>now db fs x db' fs'. \<lbrakk> chk = None; body now db fs = (Inr x, db', fs') \<rbrakk> \<Longrightarrow> eff x db db'"
  shows "(\<exists>e. r = Inl e \<and> durable w' = durable w) \<or>
    (\<exists>x. eff x (durable w) (durable w') \<and> (r = Inr x \<or> (\<exists>e. r = Inl e) \<and> commit_reply w = ReplyLost))"
proof (cases chk)
  case None
  with assms(1) have "transact be ce body w = (r, w')" by (simp add: lift_world_def)
  then show ?thesis by (rule transact_cases) (use assms(2) [OF None] in blast)+
qed (use assms(1) in \<open>auto simp: lift_world_def\<close>)

lemma atomic_opI:
  assumes "\<And>c. run c = lift_world (chk c) (transact be ce (body c))"
    and "\<And>c now db fs x db' fs'. \<lbrakk> chk c = None; body c now db fs = (Inr x, db', fs') \<rbrakk> \<Longrightarrow> eff c x db db'"
  shows "atomic_op run eff"
proof
  fix c w r w'
  assume "run c w = (r, w')"
  then show "(\<exists>e. r = Inl e \<and> durable w' = durable w) \<or>
    (\<exists>x. eff c x (durable w) (durable w') \<and> (r = Inr x \<or> (\<exists>e. r = Inl e) \<and> commit_reply w = ReplyLost))"
    unfolding assms(1) by (rule transact_outcome) (rule assms(2))
qed

lemma lift_world_None [simp]: "lift_world None m = m"
  by (simp add: lift_world_def fun_eq_iff)

end
