(* ===== verification/Go_Time.thy ===== *)
theory Go_Time
  imports Go_Text
begin

text \<open>
  What the program uses of Go's \<^verbatim>\<open>time\<close> package: \<^verbatim>\<open>time.Parse(time.RFC3339Nano, v)\<close>, the
  civil calendar, and the microsecond precision of PostgreSQL's \<^verbatim>\<open>TIMESTAMPTZ\<close>. A
  \<^verbatim>\<open>time.Time\<close> is the number of nanoseconds since the Unix epoch.

  The parser is the library's lenient one, which \<^verbatim>\<open>time.Parse\<close> falls back to: the hour may
  have one digit, the fraction may follow a comma, and the zone is \<open>Z\<close> or an offset.
\<close>

type_synonym gotime = int

section \<open>The calendar\<close>

definition is_leap :: "int \<Rightarrow> bool" where
  "is_leap y \<longleftrightarrow> y mod 4 = 0 \<and> (y mod 100 \<noteq> 0 \<or> y mod 400 = 0)"

definition days_in :: "int \<Rightarrow> int \<Rightarrow> int" where
  "days_in m y =
     (if m = 2 then (if is_leap y then 29 else 28)
      else if m = 4 \<or> m = 6 \<or> m = 9 \<or> m = 11 then 30 else 31)"

definition days_before_year :: "int \<Rightarrow> int" where
  "days_before_year y = 365 * (y - 1) + (y - 1) div 4 - (y - 1) div 100 + (y - 1) div 400"

fun days_before_month :: "nat \<Rightarrow> int \<Rightarrow> int" where
  "days_before_month 0 y = 0"
| "days_before_month (Suc m) y = (if m = 0 then 0 else days_before_month m y + days_in (int m) y)"

text \<open>Days since the Unix epoch of a civil date.\<close>

definition civil_days :: "int \<Rightarrow> int \<Rightarrow> int \<Rightarrow> int" where
  "civil_days y m d = days_before_year y + days_before_month (nat m) y + d - 1 - 719162"

section \<open>Parsing\<close>

text \<open>\<^verbatim>\<open>getnum\<close>: one or two digits, two where the layout is fixed.\<close>

definition getnum :: "bool \<Rightarrow> string \<Rightarrow> (int \<times> string) option" where
  "getnum fixed s =
     (case s of
        [] \<Rightarrow> None
      | c # cs \<Rightarrow>
          if \<not> is_digit c then None
          else (case cs of
             d # ds \<Rightarrow>
               if is_digit d then Some (int (10 * digit_val c + digit_val d), ds)
               else if fixed then None else Some (int (digit_val c), cs)
           | [] \<Rightarrow> if fixed then None else Some (int (digit_val c), cs)))"

definition skip :: "char \<Rightarrow> string \<Rightarrow> string option" where
  "skip p s = (case s of c # cs \<Rightarrow> (if c = p then Some cs else None) | [] \<Rightarrow> None)"

definition get_year :: "string \<Rightarrow> (int \<times> string) option" where
  "get_year s =
     (if length s < 4 \<or> \<not> list_all is_digit (take 4 s) then None
      else Some (int (digits_val 0 (take 4 s)), drop 4 s))"

definition comma_or_period :: "char \<Rightarrow> bool" where
  "comma_or_period c \<longleftrightarrow> c = CHR ''.'' \<or> c = CHR '',''"

text \<open>The optional fraction; digits beyond the ninth are dropped.\<close>

definition get_frac :: "string \<Rightarrow> int \<times> string" where
  "get_frac s =
     (case s of
        c # d # ds \<Rightarrow>
          (if comma_or_period c \<and> is_digit d
           then (let digs = takeWhile is_digit (d # ds); used = take 9 digs
                 in (int (digits_val 0 used) * 10 ^ (9 - length used), dropWhile is_digit (d # ds)))
           else (0, s))
      | _ \<Rightarrow> (0, s))"

text \<open>The zone: its offset in seconds.\<close>

definition get_zone :: "string \<Rightarrow> (int \<times> string) option" where
  "get_zone s =
     (case s of
        [] \<Rightarrow> None
      | c # cs \<Rightarrow>
          if c = CHR ''Z'' then Some (0, cs)
          else if length s < 6 \<or> s ! 3 \<noteq> CHR '':'' then None
          else (case getnum True (take 2 cs) of
             None \<Rightarrow> None
           | Some (hr, _) \<Rightarrow>
               (case getnum True (take 2 (drop 4 s)) of
                  None \<Rightarrow> None
                | Some (mm, _) \<Rightarrow>
                    if hr > 24 \<or> mm > 60 then None
                    else if c = CHR ''+'' then Some ((hr * 60 + mm) * 60, drop 6 s)
                    else if c = CHR ''-'' then Some (- ((hr * 60 + mm) * 60), drop 6 s)
                    else None)))"

definition unix_nanos :: "int \<Rightarrow> int \<Rightarrow> int \<Rightarrow> int \<Rightarrow> int \<Rightarrow> int \<Rightarrow> int \<Rightarrow> int \<Rightarrow> gotime" where
  "unix_nanos y mo d h mi s ns off =
     ((civil_days y mo d * 24 + h) * 3600 + mi * 60 + s - off) * 1000000000 + ns"

text \<open>\<^verbatim>\<open>time.Parse(time.RFC3339Nano, v)\<close>.\<close>

definition parse_rfc3339 :: "string \<Rightarrow> gotime option" where
  "parse_rfc3339 v =
     Option.bind (get_year v) (\<lambda>(y, s).
     Option.bind (skip (CHR ''-'') s) (\<lambda>s.
     Option.bind (getnum True s) (\<lambda>(mo, s).
     if mo < 1 \<or> 12 < mo then None else
     Option.bind (skip (CHR ''-'') s) (\<lambda>s.
     Option.bind (getnum True s) (\<lambda>(d, s).
     Option.bind (skip (CHR ''T'') s) (\<lambda>s.
     Option.bind (getnum False s) (\<lambda>(h, s).
     if 24 \<le> h then None else
     Option.bind (skip (CHR '':'') s) (\<lambda>s.
     Option.bind (getnum True s) (\<lambda>(mi, s).
     if 60 \<le> mi then None else
     Option.bind (skip (CHR '':'') s) (\<lambda>s.
     Option.bind (getnum True s) (\<lambda>(sec, s).
     if 60 \<le> sec then None else
     (case get_frac s of (ns, s) \<Rightarrow>
     Option.bind (get_zone s) (\<lambda>(off, s).
     if s \<noteq> [] then None
     else if d < 1 \<or> days_in mo y < d then None
     else Some (unix_nanos y mo d h mi sec ns off))))))))))))))"

text \<open>The value PostgreSQL keeps: whole microseconds.\<close>

definition pg_time :: "gotime \<Rightarrow> int" where "pg_time t = t div 1000"

end
