(* ===== verification/Event_Envelope.thy ===== *)
theory Event_Envelope
  imports Go_Time
begin

text \<open>
  Package \<^verbatim>\<open>event\<close>: the Event Spine envelope, its five payload families and their validation
  (\<^verbatim>\<open>event/envelope.go\<close>, \<^verbatim>\<open>event/families.go\<close>, \<^verbatim>\<open>event/errors.go\<close>).

  An envelope is a record with the fields of the Go struct; the sealed \<^verbatim>\<open>Payload\<close> interface
  is a datatype with one constructor per family, and a \<^verbatim>\<open>nil\<close> payload is \<open>None\<close>. Errors keep
  the sentinel they wrap; their message text is not modelled. \<open>valid_envelope\<close> is what
  acceptance by \<open>Validate\<close> means, field by field.
\<close>

section \<open>Errors and constants\<close>

datatype event_error = ErrMalformed | ErrUnsupported | ErrIdentityConflict

definition maxSafeInt :: int where "maxSafeInt = 9007199254740991"

definition EventTypeQuantityDecremented :: string where
  "EventTypeQuantityDecremented = ''inventory.quantity_decremented''"
definition EventTypeSupplierRegistered :: string where
  "EventTypeSupplierRegistered = ''supplier.registered''"
definition EventTypeIngredientLotReceived :: string where
  "EventTypeIngredientLotReceived = ''ingredient_lot.received''"
definition EventTypeProductionBatchProduced :: string where
  "EventTypeProductionBatchProduced = ''production_batch.produced''"
definition EventTypeShipmentDispatched :: string where
  "EventTypeShipmentDispatched = ''shipment.dispatched''"

definition AggregateTypeInventoryItem :: string where
  "AggregateTypeInventoryItem = ''inventory_item''"
definition AggregateTypeSupplier :: string where
  "AggregateTypeSupplier = ''supplier''"
definition AggregateTypeIngredientLot :: string where
  "AggregateTypeIngredientLot = ''ingredient_lot''"
definition AggregateTypeProductionBatch :: string where
  "AggregateTypeProductionBatch = ''production_batch''"
definition AggregateTypeShipment :: string where
  "AggregateTypeShipment = ''shipment''"

definition ProducerSyntheticERP :: string where
  "ProducerSyntheticERP = ''synthetic-erp''"
definition SchemaVersionV1 :: int where "SchemaVersionV1 = 1"

lemmas event_type_defs =
  EventTypeQuantityDecremented_def EventTypeSupplierRegistered_def EventTypeIngredientLotReceived_def
  EventTypeProductionBatchProduced_def EventTypeShipmentDispatched_def
lemmas aggregate_type_defs =
  AggregateTypeInventoryItem_def AggregateTypeSupplier_def AggregateTypeIngredientLot_def
  AggregateTypeProductionBatch_def AggregateTypeShipment_def

lemma event_types_distinct [simp]:
  "EventTypeQuantityDecremented \<noteq> EventTypeSupplierRegistered"
  "EventTypeQuantityDecremented \<noteq> EventTypeIngredientLotReceived"
  "EventTypeQuantityDecremented \<noteq> EventTypeProductionBatchProduced"
  "EventTypeQuantityDecremented \<noteq> EventTypeShipmentDispatched"
  "EventTypeSupplierRegistered \<noteq> EventTypeQuantityDecremented"
  "EventTypeSupplierRegistered \<noteq> EventTypeIngredientLotReceived"
  "EventTypeSupplierRegistered \<noteq> EventTypeProductionBatchProduced"
  "EventTypeSupplierRegistered \<noteq> EventTypeShipmentDispatched"
  "EventTypeIngredientLotReceived \<noteq> EventTypeQuantityDecremented"
  "EventTypeIngredientLotReceived \<noteq> EventTypeSupplierRegistered"
  "EventTypeIngredientLotReceived \<noteq> EventTypeProductionBatchProduced"
  "EventTypeIngredientLotReceived \<noteq> EventTypeShipmentDispatched"
  "EventTypeProductionBatchProduced \<noteq> EventTypeQuantityDecremented"
  "EventTypeProductionBatchProduced \<noteq> EventTypeSupplierRegistered"
  "EventTypeProductionBatchProduced \<noteq> EventTypeIngredientLotReceived"
  "EventTypeProductionBatchProduced \<noteq> EventTypeShipmentDispatched"
  "EventTypeShipmentDispatched \<noteq> EventTypeQuantityDecremented"
  "EventTypeShipmentDispatched \<noteq> EventTypeSupplierRegistered"
  "EventTypeShipmentDispatched \<noteq> EventTypeIngredientLotReceived"
  "EventTypeShipmentDispatched \<noteq> EventTypeProductionBatchProduced"
  by (simp_all add: event_type_defs)

lemma aggregate_types_distinct [simp]:
  "AggregateTypeInventoryItem \<noteq> AggregateTypeSupplier"
  "AggregateTypeInventoryItem \<noteq> AggregateTypeIngredientLot"
  "AggregateTypeInventoryItem \<noteq> AggregateTypeProductionBatch"
  "AggregateTypeInventoryItem \<noteq> AggregateTypeShipment"
  "AggregateTypeSupplier \<noteq> AggregateTypeInventoryItem"
  "AggregateTypeSupplier \<noteq> AggregateTypeIngredientLot"
  "AggregateTypeSupplier \<noteq> AggregateTypeProductionBatch"
  "AggregateTypeSupplier \<noteq> AggregateTypeShipment"
  "AggregateTypeIngredientLot \<noteq> AggregateTypeInventoryItem"
  "AggregateTypeIngredientLot \<noteq> AggregateTypeSupplier"
  "AggregateTypeIngredientLot \<noteq> AggregateTypeProductionBatch"
  "AggregateTypeIngredientLot \<noteq> AggregateTypeShipment"
  "AggregateTypeProductionBatch \<noteq> AggregateTypeInventoryItem"
  "AggregateTypeProductionBatch \<noteq> AggregateTypeSupplier"
  "AggregateTypeProductionBatch \<noteq> AggregateTypeIngredientLot"
  "AggregateTypeProductionBatch \<noteq> AggregateTypeShipment"
  "AggregateTypeShipment \<noteq> AggregateTypeInventoryItem"
  "AggregateTypeShipment \<noteq> AggregateTypeSupplier"
  "AggregateTypeShipment \<noteq> AggregateTypeIngredientLot"
  "AggregateTypeShipment \<noteq> AggregateTypeProductionBatch"
  by (simp_all add: aggregate_type_defs)

section \<open>Data\<close>

record quantity_decremented =
  qd_OrderID :: string
  qd_ItemID :: string
  qd_QuantityDecremented :: int
  qd_QuantityBefore :: int
  qd_QuantityAfter :: int

record supplier_registered =
  sr_SupplierID :: string

record ingredient_lot_received =
  il_LotID :: string
  il_SupplierID :: string
  il_ItemID :: string

record production_batch_produced =
  pb_BatchID :: string
  pb_LotID :: string

record shipment_dispatched =
  sd_ShipmentID :: string
  sd_BatchID :: string
  sd_OrderID :: string

datatype payload =
    QuantityDecremented quantity_decremented
  | SupplierRegistered supplier_registered
  | IngredientLotReceived ingredient_lot_received
  | ProductionBatchProduced production_batch_produced
  | ShipmentDispatched shipment_dispatched

record envelope =
  EventID :: string
  TenantID :: string
  EventType :: string
  EventSchemaVersion :: int
  AggregateType :: string
  AggregateID :: string
  AggregateVersion :: int
  OccurredAt :: string
  RecordedAt :: string
  Producer :: string
  CorrelationID :: string
  CausationID :: "string option"
  TraceID :: string
  Payload :: "payload option"

section \<open>Field checks\<close>

text \<open>A regular expression without repetition is a list of byte predicates.\<close>

definition match_shape :: "(char \<Rightarrow> bool) list \<Rightarrow> string \<Rightarrow> bool" where
  "match_shape ps s = list_all2 (\<lambda>p c. p c) ps s"

definition is_hex_any :: "char \<Rightarrow> bool" where
  "is_hex_any c \<longleftrightarrow> is_digit c \<or> (0x61 \<le> byte_val c \<and> byte_val c \<le> 0x66) \<or> (0x41 \<le> byte_val c \<and> byte_val c \<le> 0x46)"

definition is_variant_any :: "char \<Rightarrow> bool" where
  "is_variant_any c \<longleftrightarrow> c = CHR ''8'' \<or> c = CHR ''9'' \<or> c = CHR ''a'' \<or> c = CHR ''b'' \<or> c = CHR ''A'' \<or> c = CHR ''B''"

definition uuidV4Regexp :: "(char \<Rightarrow> bool) list" where
  "uuidV4Regexp =
     replicate 8 is_hex_any @ [\<lambda>c. c = CHR ''-''] @ replicate 4 is_hex_any @ [\<lambda>c. c = CHR ''-''] @
     [\<lambda>c. c = CHR ''4''] @ replicate 3 is_hex_any @ [\<lambda>c. c = CHR ''-''] @
     [is_variant_any] @ replicate 3 is_hex_any @ [\<lambda>c. c = CHR ''-''] @ replicate 12 is_hex_any"

definition timeZ_prefix :: "(char \<Rightarrow> bool) list" where
  "timeZ_prefix =
     replicate 4 is_digit @ [\<lambda>c. c = CHR ''-''] @ replicate 2 is_digit @ [\<lambda>c. c = CHR ''-''] @
     replicate 2 is_digit @ [\<lambda>c. c = CHR ''T''] @ replicate 2 is_digit @ [\<lambda>c. c = CHR '':''] @
     replicate 2 is_digit @ [\<lambda>c. c = CHR '':''] @ replicate 2 is_digit"

definition timeZRegexp :: "string \<Rightarrow> bool" where
  "timeZRegexp v \<longleftrightarrow>
     match_shape timeZ_prefix (take 19 v) \<and>
     (case drop 19 v of
        [] \<Rightarrow> False
      | c # cs \<Rightarrow>
          (if c = CHR ''.'' then takeWhile is_digit cs \<noteq> [] \<and> dropWhile is_digit cs = ''Z''
           else c = CHR ''Z'' \<and> cs = []))"

definition requireUTF8 :: "string \<Rightarrow> event_error option" where
  "requireUTF8 v = (if \<not> valid_utf8 v then Some ErrMalformed else None)"

definition requireUUID :: "string \<Rightarrow> event_error option" where
  "requireUUID v = (if \<not> match_shape uuidV4Regexp v then Some ErrMalformed else None)"

definition requireLowerUUID :: "string \<Rightarrow> event_error option" where
  "requireLowerUUID v =
     (case requireUUID v of
        Some e \<Rightarrow> Some e
      | None \<Rightarrow> if v \<noteq> to_lower v then Some ErrMalformed else None)"

definition requireCanonicalID :: "string \<Rightarrow> event_error option" where
  "requireCanonicalID v =
     (if v = [] then Some ErrMalformed
      else if v \<noteq> to_lower v then Some ErrMalformed
      else if list_ex is_space (runes v) then Some ErrMalformed
      else None)"

definition requireTimeZ :: "string \<Rightarrow> event_error option" where
  "requireTimeZ v =
     (if \<not> timeZRegexp v then Some ErrMalformed
      else if parse_rfc3339 v = None then Some ErrMalformed
      else None)"

definition check :: "bool \<Rightarrow> event_error option" where
  "check ok = (if ok then None else Some ErrMalformed)"

lemma field_checks [err_simps]:
  "requireUTF8 v = None \<longleftrightarrow> valid_utf8 v"
  "requireUUID v = None \<longleftrightarrow> match_shape uuidV4Regexp v"
  "requireLowerUUID v = None \<longleftrightarrow> match_shape uuidV4Regexp v \<and> v = to_lower v"
  "requireCanonicalID v = None \<longleftrightarrow> v \<noteq> [] \<and> v = to_lower v \<and> \<not> list_ex is_space (runes v)"
  "requireTimeZ v = None \<longleftrightarrow> timeZRegexp v \<and> parse_rfc3339 v \<noteq> None"
  "check b = None \<longleftrightarrow> b"
  by (auto simp: requireUTF8_def requireUUID_def requireLowerUUID_def requireCanonicalID_def
      requireTimeZ_def check_def)

section \<open>Families\<close>

definition familyAggregateType :: "string \<Rightarrow> int \<Rightarrow> event_error + string" where
  "familyAggregateType eventType schema =
     (let agg =
        (if eventType = EventTypeQuantityDecremented then Some AggregateTypeInventoryItem
         else if eventType = EventTypeSupplierRegistered then Some AggregateTypeSupplier
         else if eventType = EventTypeIngredientLotReceived then Some AggregateTypeIngredientLot
         else if eventType = EventTypeProductionBatchProduced then Some AggregateTypeProductionBatch
         else if eventType = EventTypeShipmentDispatched then Some AggregateTypeShipment
         else None)
      in case agg of
           None \<Rightarrow> Inl ErrUnsupported
         | Some a \<Rightarrow> if schema \<noteq> SchemaVersionV1 then Inl ErrUnsupported else Inr a)"

definition validate_QuantityDecremented :: "quantity_decremented \<Rightarrow> envelope \<Rightarrow> event_error option" where
  "validate_QuantityDecremented p env = first_error
     [check (EventType env = EventTypeQuantityDecremented),
      requireUTF8 (qd_OrderID p), requireUTF8 (qd_ItemID p),
      requireUUID (qd_OrderID p), requireCanonicalID (qd_ItemID p),
      check (qd_ItemID p = AggregateID env),
      check (\<not> (qd_QuantityDecremented p < 1 \<or> qd_QuantityDecremented p > maxSafeInt)),
      check (\<not> (qd_QuantityBefore p < 0 \<or> qd_QuantityBefore p > maxSafeInt)),
      check (\<not> (qd_QuantityAfter p < 0 \<or> qd_QuantityAfter p > maxSafeInt)),
      check (wrap64 (qd_QuantityBefore p - qd_QuantityDecremented p) = qd_QuantityAfter p)]"

definition validate_SupplierRegistered :: "supplier_registered \<Rightarrow> envelope \<Rightarrow> event_error option" where
  "validate_SupplierRegistered p env = first_error
     [check (EventType env = EventTypeSupplierRegistered),
      requireUTF8 (sr_SupplierID p), requireCanonicalID (sr_SupplierID p),
      check (sr_SupplierID p = AggregateID env)]"

definition validate_IngredientLotReceived :: "ingredient_lot_received \<Rightarrow> envelope \<Rightarrow> event_error option" where
  "validate_IngredientLotReceived p env = first_error
     [check (EventType env = EventTypeIngredientLotReceived),
      requireUTF8 (il_LotID p), requireUTF8 (il_SupplierID p), requireUTF8 (il_ItemID p),
      requireCanonicalID (il_LotID p), requireCanonicalID (il_SupplierID p),
      requireCanonicalID (il_ItemID p),
      check (il_LotID p = AggregateID env)]"

definition validate_ProductionBatchProduced :: "production_batch_produced \<Rightarrow> envelope \<Rightarrow> event_error option" where
  "validate_ProductionBatchProduced p env = first_error
     [check (EventType env = EventTypeProductionBatchProduced),
      requireUTF8 (pb_BatchID p), requireUTF8 (pb_LotID p),
      requireCanonicalID (pb_BatchID p), requireCanonicalID (pb_LotID p),
      check (pb_BatchID p = AggregateID env)]"

definition validate_ShipmentDispatched :: "shipment_dispatched \<Rightarrow> envelope \<Rightarrow> event_error option" where
  "validate_ShipmentDispatched p env = first_error
     [check (EventType env = EventTypeShipmentDispatched),
      requireUTF8 (sd_ShipmentID p), requireUTF8 (sd_BatchID p), requireUTF8 (sd_OrderID p),
      requireCanonicalID (sd_ShipmentID p), requireCanonicalID (sd_BatchID p),
      requireUUID (sd_OrderID p),
      check (sd_ShipmentID p = AggregateID env)]"

fun validateAgainst :: "payload \<Rightarrow> envelope \<Rightarrow> event_error option" where
  "validateAgainst (QuantityDecremented p) env = validate_QuantityDecremented p env"
| "validateAgainst (SupplierRegistered p) env = validate_SupplierRegistered p env"
| "validateAgainst (IngredientLotReceived p) env = validate_IngredientLotReceived p env"
| "validateAgainst (ProductionBatchProduced p) env = validate_ProductionBatchProduced p env"
| "validateAgainst (ShipmentDispatched p) env = validate_ShipmentDispatched p env"

definition validatePayload :: "envelope \<Rightarrow> event_error option" where
  "validatePayload env = (case Payload env of None \<Rightarrow> Some ErrMalformed | Some p \<Rightarrow> validateAgainst p env)"

definition Validate :: "envelope \<Rightarrow> event_error option" where
  "Validate env = first_error
     ([requireUTF8 (EventID env), requireUTF8 (TenantID env), requireUTF8 (EventType env),
       requireUTF8 (AggregateType env), requireUTF8 (AggregateID env),
       requireUTF8 (OccurredAt env), requireUTF8 (RecordedAt env), requireUTF8 (Producer env),
       requireUTF8 (CorrelationID env),
       (case CausationID env of None \<Rightarrow> None | Some c \<Rightarrow> requireUTF8 c),
       requireUTF8 (TraceID env),
       requireUUID (EventID env), requireLowerUUID (TenantID env)]
      @ (case familyAggregateType (EventType env) (EventSchemaVersion env) of
           Inl e \<Rightarrow> [Some e]
         | Inr wantAgg \<Rightarrow> [check (AggregateType env = wantAgg)])
      @ [requireCanonicalID (AggregateID env),
         check (\<not> (AggregateVersion env < 1 \<or> AggregateVersion env > maxSafeInt)),
         requireTimeZ (OccurredAt env), requireTimeZ (RecordedAt env),
         check (Producer env = ProducerSyntheticERP),
         requireUUID (CorrelationID env),
         (case CausationID env of None \<Rightarrow> None | Some c \<Rightarrow> requireUUID c),
         check (trim_space (TraceID env) \<noteq> []),
         validatePayload env])"

section \<open>Payload accessors\<close>

definition AsQuantityDecremented :: "envelope \<Rightarrow> quantity_decremented option" where
  "AsQuantityDecremented env = (case Payload env of Some (QuantityDecremented p) \<Rightarrow> Some p | _ \<Rightarrow> None)"

definition AsSupplierRegistered :: "envelope \<Rightarrow> supplier_registered option" where
  "AsSupplierRegistered env = (case Payload env of Some (SupplierRegistered p) \<Rightarrow> Some p | _ \<Rightarrow> None)"

definition AsIngredientLotReceived :: "envelope \<Rightarrow> ingredient_lot_received option" where
  "AsIngredientLotReceived env = (case Payload env of Some (IngredientLotReceived p) \<Rightarrow> Some p | _ \<Rightarrow> None)"

definition AsProductionBatchProduced :: "envelope \<Rightarrow> production_batch_produced option" where
  "AsProductionBatchProduced env = (case Payload env of Some (ProductionBatchProduced p) \<Rightarrow> Some p | _ \<Rightarrow> None)"

definition AsShipmentDispatched :: "envelope \<Rightarrow> shipment_dispatched option" where
  "AsShipmentDispatched env = (case Payload env of Some (ShipmentDispatched p) \<Rightarrow> Some p | _ \<Rightarrow> None)"

definition WithQuantityDecremented ::
  "envelope \<Rightarrow> (quantity_decremented \<Rightarrow> quantity_decremented) \<Rightarrow> envelope" where
  "WithQuantityDecremented env fn =
     (case AsQuantityDecremented env of
        None \<Rightarrow> env
      | Some p \<Rightarrow> env\<lparr>Payload := Some (QuantityDecremented (fn p))\<rparr>)"

section \<open>What validation accepts\<close>

definition valid_id :: "string \<Rightarrow> bool" where
  "valid_id v \<longleftrightarrow> valid_utf8 v \<and> requireCanonicalID v = None"

definition valid_uuid :: "string \<Rightarrow> bool" where
  "valid_uuid v \<longleftrightarrow> valid_utf8 v \<and> match_shape uuidV4Regexp v"

fun valid_payload :: "payload \<Rightarrow> string \<Rightarrow> string \<Rightarrow> bool" where
  "valid_payload (QuantityDecremented p) ety aid \<longleftrightarrow>
     ety = EventTypeQuantityDecremented \<and> valid_uuid (qd_OrderID p) \<and> valid_id (qd_ItemID p) \<and>
     qd_ItemID p = aid \<and> 1 \<le> qd_QuantityDecremented p \<and> qd_QuantityDecremented p \<le> maxSafeInt \<and>
     0 \<le> qd_QuantityBefore p \<and> qd_QuantityBefore p \<le> maxSafeInt \<and>
     0 \<le> qd_QuantityAfter p \<and> qd_QuantityAfter p \<le> maxSafeInt \<and>
     qd_QuantityBefore p = qd_QuantityAfter p + qd_QuantityDecremented p"
| "valid_payload (SupplierRegistered p) ety aid \<longleftrightarrow>
     ety = EventTypeSupplierRegistered \<and> valid_id (sr_SupplierID p) \<and> sr_SupplierID p = aid"
| "valid_payload (IngredientLotReceived p) ety aid \<longleftrightarrow>
     ety = EventTypeIngredientLotReceived \<and> valid_id (il_LotID p) \<and> valid_id (il_SupplierID p) \<and>
     valid_id (il_ItemID p) \<and> il_LotID p = aid"
| "valid_payload (ProductionBatchProduced p) ety aid \<longleftrightarrow>
     ety = EventTypeProductionBatchProduced \<and> valid_id (pb_BatchID p) \<and> valid_id (pb_LotID p) \<and>
     pb_BatchID p = aid"
| "valid_payload (ShipmentDispatched p) ety aid \<longleftrightarrow>
     ety = EventTypeShipmentDispatched \<and> valid_id (sd_ShipmentID p) \<and> valid_id (sd_BatchID p) \<and>
     valid_uuid (sd_OrderID p) \<and> sd_ShipmentID p = aid"

fun payload_aggregate :: "payload \<Rightarrow> string" where
  "payload_aggregate (QuantityDecremented p) = AggregateTypeInventoryItem"
| "payload_aggregate (SupplierRegistered p) = AggregateTypeSupplier"
| "payload_aggregate (IngredientLotReceived p) = AggregateTypeIngredientLot"
| "payload_aggregate (ProductionBatchProduced p) = AggregateTypeProductionBatch"
| "payload_aggregate (ShipmentDispatched p) = AggregateTypeShipment"

definition valid_time :: "string \<Rightarrow> bool" where
  "valid_time v \<longleftrightarrow> valid_utf8 v \<and> timeZRegexp v \<and> parse_rfc3339 v \<noteq> None"

definition valid_envelope :: "envelope \<Rightarrow> bool" where
  "valid_envelope env \<longleftrightarrow>
     valid_uuid (EventID env) \<and> valid_uuid (TenantID env) \<and> TenantID env = to_lower (TenantID env) \<and>
     EventSchemaVersion env = SchemaVersionV1 \<and> valid_id (AggregateID env) \<and>
     1 \<le> AggregateVersion env \<and> AggregateVersion env \<le> maxSafeInt \<and>
     valid_time (OccurredAt env) \<and> valid_time (RecordedAt env) \<and> Producer env = ProducerSyntheticERP \<and>
     valid_uuid (CorrelationID env) \<and> (case CausationID env of None \<Rightarrow> True | Some c \<Rightarrow> valid_uuid c) \<and>
     valid_utf8 (TraceID env) \<and> trim_space (TraceID env) \<noteq> [] \<and>
     (case Payload env of
        None \<Rightarrow> False
      | Some p \<Rightarrow> valid_payload p (EventType env) (AggregateID env) \<and> AggregateType env = payload_aggregate p)"

lemma quantity_arith:
  "\<lbrakk> 0 \<le> b; b \<le> maxSafeInt; 1 \<le> d; d \<le> maxSafeInt \<rbrakk> \<Longrightarrow> wrap64 (b - d) = a \<longleftrightarrow> b = a + d"
  by (subst wrap64_id) (auto simp: int64_def maxSafeInt_def)

lemma validateAgainst_iff [err_simps]:
  "validateAgainst p env = None \<longleftrightarrow> valid_payload p (EventType env) (AggregateID env)"
proof (cases p)
  case (QuantityDecremented q)
  then show ?thesis
    using quantity_arith [of "qd_QuantityBefore q" "qd_QuantityDecremented q" "qd_QuantityAfter q"]
    by (auto simp: validate_QuantityDecremented_def err_simps valid_id_def valid_uuid_def not_less)
qed (auto simp: validate_SupplierRegistered_def validate_IngredientLotReceived_def
    validate_ProductionBatchProduced_def validate_ShipmentDispatched_def err_simps valid_id_def valid_uuid_def)

lemma family_of_payload:
  "valid_payload p ety aid \<Longrightarrow>
   familyAggregateType ety sv = (if sv = SchemaVersionV1 then Inr (payload_aggregate p) else Inl ErrUnsupported)"
  by (cases p) (auto simp: familyAggregateType_def)

lemma event_type_utf8: "familyAggregateType ety sv = Inr a \<Longrightarrow> valid_utf8 ety \<and> valid_utf8 a"
  by (auto simp: familyAggregateType_def Let_def event_type_defs aggregate_type_defs valid_utf8_ascii
      split: if_splits)

lemma producer_utf8: "valid_utf8 ProducerSyntheticERP"
  by (simp add: ProducerSyntheticERP_def)

lemma Validate_iff [err_simps]: "Validate env = None \<longleftrightarrow> valid_envelope env"
proof (cases "Payload env")
  case None
  then show ?thesis
    by (auto simp: Validate_def valid_envelope_def validatePayload_def err_simps)
next
  case (Some p)
  show ?thesis
  proof (cases "valid_payload p (EventType env) (AggregateID env)")
    case True
    note fam = family_of_payload [OF True, of "EventSchemaVersion env"]
    have "EventSchemaVersion env = SchemaVersionV1 \<Longrightarrow> valid_utf8 (EventType env) \<and> valid_utf8 (payload_aggregate p)"
      using fam event_type_utf8 by simp
    with Some True fam show ?thesis
      by (auto simp: Validate_def valid_envelope_def validatePayload_def err_simps valid_time_def
          valid_uuid_def valid_id_def producer_utf8 not_less split: option.splits)
  next
    case False
    with Some show ?thesis
      by (auto simp: Validate_def valid_envelope_def validatePayload_def err_simps)
  qed
qed

section \<open>Evaluating the patterns\<close>

lemma uuid_shape:
  "uuidV4Regexp =
     [is_hex_any, is_hex_any, is_hex_any, is_hex_any, is_hex_any, is_hex_any, is_hex_any, is_hex_any,
      \<lambda>c. c = CHR ''-'', is_hex_any, is_hex_any, is_hex_any, is_hex_any, \<lambda>c. c = CHR ''-'',
      \<lambda>c. c = CHR ''4'', is_hex_any, is_hex_any, is_hex_any, \<lambda>c. c = CHR ''-'',
      is_variant_any, is_hex_any, is_hex_any, is_hex_any, \<lambda>c. c = CHR ''-'', is_hex_any, is_hex_any,
      is_hex_any, is_hex_any, is_hex_any, is_hex_any, is_hex_any, is_hex_any, is_hex_any, is_hex_any,
      is_hex_any, is_hex_any]"
  by (simp add: uuidV4Regexp_def numeral_eq_Suc)

lemmas shape_simps = match_shape_def uuid_shape is_hex_any_def is_digit_def is_variant_any_def

end
