(* ===== verification/Event_Json.thy ===== *)
theory Event_Json
  imports Event_Envelope
begin

text \<open>
  Package \<^verbatim>\<open>event\<close>: the strict JSON decoder (\<^verbatim>\<open>event/unicode.go\<close>, \<^verbatim>\<open>event/parse.go\<close>) and the
  payload constructors of \<^verbatim>\<open>event/families.go\<close>.

  The decoder works on the byte list. What \<^verbatim>\<open>encoding/json\<close> contributes (its string and number
  scanner, its string unquoting, its token order) is written out; every lexical error is the
  decoder's error and becomes \<open>ErrMalformed\<close>. A Go \<^verbatim>\<open>map[string]any\<close> is an association list
  whose keys are distinct because duplicates are rejected.
\<close>

section \<open>Surrogate escapes (unicode.go)\<close>

definition nibble :: "char \<Rightarrow> nat option" where
  "nibble b =
     (let n = byte_val b in
      if 0x30 \<le> n \<and> n \<le> 0x39 then Some (n - 0x30)
      else if 0x61 \<le> n \<and> n \<le> 0x66 then Some (n - 0x61 + 10)
      else if 0x41 \<le> n \<and> n \<le> 0x46 then Some (n - 0x41 + 10)
      else None)"

fun hex_fold :: "nat \<Rightarrow> string \<Rightarrow> nat option" where
  "hex_fold v [] = Some v"
| "hex_fold v (b # bs) = (case nibble b of None \<Rightarrow> None | Some n \<Rightarrow> hex_fold (v * 16 + n) bs)"

definition parseJSONUnicodeEscape :: "string \<Rightarrow> event_error + (nat \<times> string)" where
  "parseJSONUnicodeEscape raw =
     (if length raw < 6 then Inl ErrMalformed
      else if raw ! 0 \<noteq> CHR 0x5C \<or> (raw ! 1 \<noteq> CHR ''u'' \<and> raw ! 1 \<noteq> CHR ''U'') then Inl ErrMalformed
      else (case hex_fold 0 (take 4 (drop 2 raw)) of
              None \<Rightarrow> Inl ErrMalformed
            | Some v \<Rightarrow> Inr (v, drop 6 raw)))"

definition isHighSurrogate :: "nat \<Rightarrow> bool" where
  "isHighSurrogate u \<longleftrightarrow> u \<ge> 0xD800 \<and> u \<le> 0xDBFF"

definition isLowSurrogate :: "nat \<Rightarrow> bool" where
  "isLowSurrogate u \<longleftrightarrow> u \<ge> 0xDC00 \<and> u \<le> 0xDFFF"

lemma parse_escape_shorter:
  "parseJSONUnicodeEscape raw = Inr (u, next) \<Longrightarrow> length next + 6 = length raw"
  by (auto simp: parseJSONUnicodeEscape_def split: if_splits option.splits)

function rejectUnpaired :: "bool \<Rightarrow> string \<Rightarrow> event_error option" where
  "rejectUnpaired inString [] = None"
| "rejectUnpaired False (c # cs) = rejectUnpaired (c = CHR 0x22) cs"
| "rejectUnpaired True (c # cs) =
     (if c = CHR 0x5C then
        (case cs of
           [] \<Rightarrow> Some ErrMalformed
         | esc # rest \<Rightarrow>
             if esc = CHR ''u'' \<or> esc = CHR ''U'' then
               (case parseJSONUnicodeEscape (c # cs) of
                  Inl e \<Rightarrow> Some e
                | Inr (unit, next) \<Rightarrow>
                    if isHighSurrogate unit then
                      (if length next < 2 \<or> next ! 0 \<noteq> CHR 0x5C \<or> (next ! 1 \<noteq> CHR ''u'' \<and> next ! 1 \<noteq> CHR ''U'')
                       then Some ErrMalformed
                       else (case parseJSONUnicodeEscape next of
                               Inl e \<Rightarrow> Some e
                             | Inr (low, afterLow) \<Rightarrow>
                                 if \<not> isLowSurrogate low then Some ErrMalformed
                                 else rejectUnpaired True afterLow))
                    else if isLowSurrogate unit then Some ErrMalformed
                    else rejectUnpaired True next)
             else rejectUnpaired True rest)
      else rejectUnpaired (c \<noteq> CHR 0x22) cs)"
  by pat_completeness auto
termination
  by (relation "measure (length o snd)") (auto dest!: parse_escape_shorter)

definition rejectUnpairedSurrogateEscapes :: "string \<Rightarrow> event_error option" where
  "rejectUnpairedSurrogateEscapes raw = rejectUnpaired False raw"

definition ensureJCSCompatibleJSON :: "string \<Rightarrow> event_error option" where
  "ensureJCSCompatibleJSON raw =
     (if \<not> valid_utf8 raw then Some ErrMalformed else rejectUnpairedSurrogateEscapes raw)"

section \<open>The scanner of encoding/json\<close>

definition is_json_space :: "char \<Rightarrow> bool" where
  "is_json_space c \<longleftrightarrow> c = CHR '' '' \<or> c = CHR 0x09 \<or> c = CHR 0x0D \<or> c = CHR 0x0A"

definition skip_ws :: "string \<Rightarrow> string" where
  "skip_ws s = dropWhile is_json_space s"

lemma skip_ws_length: "length (skip_ws s) \<le> length s"
  by (simp add: skip_ws_def length_dropWhile_le)

definition simple_escape :: "char \<Rightarrow> char option" where
  "simple_escape e =
     (if e = CHR 0x22 then Some (CHR 0x22) else if e = CHR 0x5C then Some (CHR 0x5C)
      else if e = CHR ''/'' then Some (CHR ''/'') else if e = CHR ''b'' then Some (CHR 0x08)
      else if e = CHR ''f'' then Some (CHR 0x0C) else if e = CHR ''n'' then Some (CHR 0x0A)
      else if e = CHR ''r'' then Some (CHR 0x0D) else if e = CHR ''t'' then Some (CHR 0x09)
      else None)"

text \<open>The scanner's pass over a string literal, from after its opening quote: the body and what
  follows the closing quote.\<close>

fun scan_string :: "string \<Rightarrow> (string \<times> string) option" where
  "scan_string [] = None"
| "scan_string (c # cs) =
     (if c = CHR 0x22 then Some ([], cs)
      else if c = CHR 0x5C then
        (case cs of
           [] \<Rightarrow> None
         | e # es \<Rightarrow>
             if simple_escape e \<noteq> None then map_option (\<lambda>(b, r). (c # e # b, r)) (scan_string es)
             else if e = CHR ''u'' then
               (case es of
                  h1 # h2 # h3 # h4 # es' \<Rightarrow>
                    if list_all is_hex_any [h1, h2, h3, h4]
                    then map_option (\<lambda>(b, r). (c # e # h1 # h2 # h3 # h4 # b, r)) (scan_string es')
                    else None
                | _ \<Rightarrow> None)
             else None)
      else if byte_val c < 0x20 then None
      else map_option (\<lambda>(b, r). (c # b, r)) (scan_string cs))"

lemma scan_string_shorter: "scan_string s = Some (b, r) \<Longrightarrow> length r < length s"
  by (induction s arbitrary: b rule: scan_string.induct)
    (fastforce split: if_splits list.splits simp: less_Suc_eq)+

text \<open>\<^verbatim>\<open>unquoteBytes\<close>: the value of a scanned body. A surrogate escape that is not followed by
  its partner, and an invalid byte, become U+FFFD.\<close>

definition getu4 :: "string \<Rightarrow> nat option" where
  "getu4 s = (case s of
     c # u # _ \<Rightarrow> if length s < 6 \<or> c \<noteq> CHR 0x5C \<or> u \<noteq> CHR ''u'' then None
                  else hex_fold 0 (take 4 (drop 2 s))
   | _ \<Rightarrow> None)"

function unquote :: "string \<Rightarrow> string" where
  "unquote [] = []"
| "unquote (c # cs) =
     (if c = CHR 0x5C then
        (case getu4 (c # cs) of
           Some rr \<Rightarrow>
             if isHighSurrogate rr \<or> isLowSurrogate rr then
               (case getu4 (drop 6 (c # cs)) of
                  Some rr1 \<Rightarrow>
                    if isHighSurrogate rr \<and> isLowSurrogate rr1
                    then encode_rune ((rr - 0xD800) * 0x400 + (rr1 - 0xDC00) + 0x10000) @ unquote (drop 12 (c # cs))
                    else encode_rune rune_error @ unquote (drop 6 (c # cs))
                | None \<Rightarrow> encode_rune rune_error @ unquote (drop 6 (c # cs)))
             else encode_rune rr @ unquote (drop 6 (c # cs))
         | None \<Rightarrow>
             (case cs of
                [] \<Rightarrow> []
              | e # es \<Rightarrow> (case simple_escape e of Some x \<Rightarrow> x # unquote es | None \<Rightarrow> [])))
      else if byte_val c < 0x80 then c # unquote cs
      else (let (r, n) = decode_rune (c # cs) in encode_rune r @ unquote (drop (n - 1) cs)))"
  by pat_completeness auto
termination
  by (relation "measure length") (auto simp: less_Suc_eq_le)

declare unquote.simps(2) [simp del]

text \<open>A number literal of the JSON grammar and what follows it.\<close>

definition scan_int_part :: "string \<Rightarrow> (string \<times> string) option" where
  "scan_int_part s =
     (case s of
        [] \<Rightarrow> None
      | c # cs \<Rightarrow> if c = CHR ''0'' then Some ([c], cs)
                  else if is_digit c then Some (takeWhile is_digit s, dropWhile is_digit s)
                  else None)"

definition scan_frac :: "string \<Rightarrow> (string \<times> string) option" where
  "scan_frac s =
     (case s of
        c # cs \<Rightarrow> if c = CHR ''.'' then
                    (if takeWhile is_digit cs = [] then None
                     else Some (c # takeWhile is_digit cs, dropWhile is_digit cs))
                  else Some ([], s)
      | [] \<Rightarrow> Some ([], []))"

definition scan_exp :: "string \<Rightarrow> (string \<times> string) option" where
  "scan_exp s =
     (case s of
        c # cs \<Rightarrow> if c = CHR ''e'' \<or> c = CHR ''E'' then
                    (let (sg, ds) = (case cs of x # xs \<Rightarrow> if x = CHR ''+'' \<or> x = CHR ''-'' then ([x], xs) else ([], cs)
                                     | [] \<Rightarrow> ([], []))
                     in if takeWhile is_digit ds = [] then None
                        else Some (c # sg @ takeWhile is_digit ds, dropWhile is_digit ds))
                  else Some ([], s)
      | [] \<Rightarrow> Some ([], []))"

definition scan_number :: "string \<Rightarrow> (string \<times> string) option" where
  "scan_number s =
     (let (sg, r0) = (case s of c # cs \<Rightarrow> if c = CHR ''-'' then ([c], cs) else ([], s) | [] \<Rightarrow> ([], []))
      in case scan_int_part r0 of
           None \<Rightarrow> None
         | Some (ip, r1) \<Rightarrow>
             (case scan_frac r1 of
                None \<Rightarrow> None
              | Some (fp, r2) \<Rightarrow>
                  (case scan_exp r2 of
                     None \<Rightarrow> None
                   | Some (ep, r3) \<Rightarrow> Some (sg @ ip @ fp @ ep, r3))))"

section \<open>The strict decoder (parse.go)\<close>

datatype jval = JNull | JString string | JInt int | JObj "(string \<times> jval) list"

definition parseIntegerNumber :: "string \<Rightarrow> int option" where
  "parseIntegerNumber s =
     (if list_ex (\<lambda>c. c = CHR ''.'' \<or> c = CHR ''e'' \<or> c = CHR ''E'') s then None
      else if length s > 1 \<and> (s ! 0 = CHR ''0'' \<or> (s ! 0 = CHR ''-'' \<and> length s > 2 \<and> s ! 1 = CHR ''0'')) then None
      else (case parse_int s of
              None \<Rightarrow> None
            | Some v \<Rightarrow> if v < 0 \<or> v > maxSafeInt then None else Some v))"

lemma skip_ws_Cons: "skip_ws s = c # cs \<Longrightarrow> length cs < length s"
  using skip_ws_length [of s] by auto

lemma decode_key_shorter:
  assumes "skip_ws s = c # cs"
    and "(if start then c # cs else if c = CHR '','' then skip_ws cs else []) = q # ks"
    and "scan_string ks = Some (b, r)" "skip_ws r = d # r'"
  shows "length r' < length s"
proof -
  have "length ks < length s"
    using assms(1,2) skip_ws_Cons [of s c cs] skip_ws_Cons [of cs q ks] by (auto split: if_splits)
  moreover have "length r < length ks" "length r' < length r"
    using assms scan_string_shorter skip_ws_Cons by auto
  ultimately show ?thesis by simp
qed

text \<open>\<open>decodeValue\<close> and \<open>decodeObject\<close> return the value and the unread input, or \<open>None\<close> for any
  error. \<open>decodeObject\<close> is the loop of the source with the members read so far; \<open>start\<close> says
  whether a comma is due. Its test that a member consumed input never fails
  (\<open>decode_progress\<close>); it is what makes the recursion evidently terminating.\<close>

function decodeValue :: "string \<Rightarrow> (jval \<times> string) option"
  and decodeObject :: "bool \<Rightarrow> (string \<times> jval) list \<Rightarrow> string \<Rightarrow> (jval \<times> string) option" where
  "decodeValue s =
     (case skip_ws s of
        [] \<Rightarrow> None
      | c # cs \<Rightarrow>
          if c = CHR ''{'' then decodeObject True [] cs
          else if c = CHR 0x22 then map_option (\<lambda>(b, r). (JString (unquote b), r)) (scan_string cs)
          else if c = CHR ''-'' \<or> is_digit c then
            (case scan_number (c # cs) of
               None \<Rightarrow> None
             | Some (lit, r) \<Rightarrow> map_option (\<lambda>v. (JInt v, r)) (parseIntegerNumber lit))
          else if take 4 (c # cs) = ''null'' then Some (JNull, drop 4 (c # cs))
          else None)"
| "decodeObject start out s =
     (case skip_ws s of
        [] \<Rightarrow> None
      | c # cs \<Rightarrow>
          if c = CHR ''}'' then Some (JObj out, cs)
          else
            (case (if start then c # cs else if c = CHR '','' then skip_ws cs else []) of
               [] \<Rightarrow> None
             | q # ks \<Rightarrow>
                 if q \<noteq> CHR 0x22 then None
                 else
                   (case scan_string ks of
                      None \<Rightarrow> None
                    | Some (b, r) \<Rightarrow>
                        if unquote b \<in> set (map fst out) then None
                        else
                          (case skip_ws r of
                             [] \<Rightarrow> None
                           | d # r' \<Rightarrow>
                               if d \<noteq> CHR '':'' then None
                               else
                                 (case decodeValue r' of
                                    None \<Rightarrow> None
                                  | Some (v, r'') \<Rightarrow>
                                      if length r'' < length s
                                      then decodeObject False (out @ [(unquote b, v)]) r''
                                      else None)))))"
  by pat_completeness auto

termination
  by (relation "measure (\<lambda>x. case x of Inl s \<Rightarrow> length s | Inr (_, _, s) \<Rightarrow> length s)")
    (auto dest: skip_ws_Cons intro: decode_key_shorter)

declare decodeValue.simps [simp del] decodeObject.simps [simp del]

definition decodeStrict :: "string \<Rightarrow> event_error + jval" where
  "decodeStrict raw =
     (case ensureJCSCompatibleJSON raw of
        Some e \<Rightarrow> Inl e
      | None \<Rightarrow>
          (case decodeValue raw of
             None \<Rightarrow> Inl ErrMalformed
           | Some (v, rest) \<Rightarrow> if skip_ws rest \<noteq> [] then Inl ErrMalformed else Inr v))"

section \<open>Progress of the decoder\<close>

lemma takeWhile_dropWhile_length: "length (dropWhile P xs) + length (takeWhile P xs) = length xs"
  by (metis add.commute length_append takeWhile_dropWhile_id)

lemma scan_int_part_shorter: "scan_int_part s = Some (l, r) \<Longrightarrow> length r < length s"
  using takeWhile_dropWhile_length [of is_digit s]
  by (auto simp: scan_int_part_def length_dropWhile_le less_Suc_eq_le split: list.splits if_splits)

lemma scan_frac_le: "scan_frac s = Some (l, r) \<Longrightarrow> length r \<le> length s"
  by (auto simp: scan_frac_def split: list.splits if_splits intro: le_SucI length_dropWhile_le)

lemma scan_exp_le: "scan_exp s = Some (l, r) \<Longrightarrow> length r \<le> length s"
  by (auto simp: scan_exp_def Let_def split: list.splits if_splits prod.splits
      intro: le_SucI length_dropWhile_le)

lemma scan_number_shorter:
  assumes "scan_number s = Some (l, r)" shows "length r < length s"
proof -
  obtain sg r0 where sg: "(case s of c # cs \<Rightarrow> if c = CHR ''-'' then ([c], cs) else ([], s) | [] \<Rightarrow> ([], [])) = (sg, r0)"
    by fastforce
  then have "length r0 \<le> length s" by (auto split: list.splits if_splits)
  moreover obtain ip r1 fp r2 ep where "scan_int_part r0 = Some (ip, r1)" "scan_frac r1 = Some (fp, r2)"
    "scan_exp r2 = Some (ep, r)"
    using assms sg by (auto simp: scan_number_def split: option.splits)
  ultimately show ?thesis
    by (fastforce dest!: scan_int_part_shorter scan_frac_le scan_exp_le)
qed

lemma decode_progress:
  "decodeValue s = Some (v, r) \<Longrightarrow> length r < length s"
  "decodeObject start out s = Some (v, r) \<Longrightarrow> length r < length s"
proof (induction s and start out s arbitrary: v r and v r rule: decodeValue_decodeObject.induct)
  case (1 s)
  from "1.prems" obtain c cs where sk: "skip_ws s = c # cs"
    by (auto simp: decodeValue.simps [of s] split: list.splits)
  have len: "length cs < length s" using sk by (rule skip_ws_Cons)
  show ?case
    using "1.prems" "1.IH" [OF sk] len sk scan_string_shorter [of cs] scan_number_shorter [of "c # cs"]
    by (fastforce simp: decodeValue.simps [of s] split: if_splits option.splits)
next
  case (2 start out s)
  from "2.prems" obtain c cs where sk: "skip_ws s = c # cs"
    by (auto simp: decodeObject.simps [of start out s] split: list.splits)
  show ?case
  proof (cases "c = CHR ''}''")
    case True
    with "2.prems" sk show ?thesis
      using skip_ws_Cons [OF sk] by (simp add: decodeObject.simps [of start out s])
  next
    case False
    with "2.prems" sk obtain q ks b r1 d r' v' r2 where *:
      "(if start then c # cs else if c = CHR '','' then skip_ws cs else []) = q # ks"
      "\<not> q \<noteq> CHR 0x22" "scan_string ks = Some (b, r1)" "unquote b \<notin> set (map fst out)"
      "skip_ws r1 = d # r'" "\<not> d \<noteq> CHR '':''" "decodeValue r' = Some (v', r2)" "length r2 < length s"
      "decodeObject False (out @ [(unquote b, v')]) r2 = Some (v, r)"
      by (auto simp: decodeObject.simps [of start out s] split: if_splits option.splits list.splits)
    have "length r < length r2"
      by (rule "2.IH"(2) [OF sk False *(1,2,3) refl *(4,5,6,7) refl *(8,9)])
    with *(8) show ?thesis by simp
  qed
qed

section \<open>From objects to envelopes\<close>

fun asString :: "jval option \<Rightarrow> event_error + string" where
  "asString (Some (JString s)) = Inr s"
| "asString _ = Inl ErrMalformed"

fun asNullableString :: "jval option \<Rightarrow> event_error + string option" where
  "asNullableString None = Inr None"
| "asNullableString (Some JNull) = Inr None"
| "asNullableString (Some (JString s)) = Inr (Some s)"
| "asNullableString _ = Inl ErrMalformed"

fun asInt :: "jval option \<Rightarrow> event_error + int" where
  "asInt (Some (JInt n)) = Inr n"
| "asInt _ = Inl ErrMalformed"

definition requirePayloadKeys :: "(string \<times> jval) list \<Rightarrow> string list \<Rightarrow> event_error option" where
  "requirePayloadKeys obj keys = first_error
     (map (\<lambda>k. check (map_of obj k \<noteq> None)) keys @ map (\<lambda>(k, _). check (k \<in> set keys)) obj)"

definition when_ok :: "'e option \<Rightarrow> 'e + 'a \<Rightarrow> 'e + 'a" where
  "when_ok e r = (case e of Some x \<Rightarrow> Inl x | None \<Rightarrow> r)"

lemma when_ok_simps [simp]: "when_ok None r = r" "when_ok (Some e) r = Inl e"
  by (simp_all add: when_ok_def)

lemma when_ok_Inr [err_simps]: "when_ok e r = Inr x \<longleftrightarrow> e = None \<and> r = Inr x"
  by (cases e) auto

definition quantityDecrementedFromObject :: "(string \<times> jval) list \<Rightarrow> event_error + payload" where
  "quantityDecrementedFromObject obj =
     when_ok (requirePayloadKeys obj
       [''order_id'', ''item_id'', ''quantity_decremented'', ''quantity_before'', ''quantity_after''])
     (bind_err (asString (map_of obj ''order_id'')) (\<lambda>oid.
      bind_err (asString (map_of obj ''item_id'')) (\<lambda>iid.
      bind_err (asInt (map_of obj ''quantity_decremented'')) (\<lambda>qd.
      bind_err (asInt (map_of obj ''quantity_before'')) (\<lambda>qb.
      bind_err (asInt (map_of obj ''quantity_after'')) (\<lambda>qa.
      Inr (QuantityDecremented
        \<lparr>qd_OrderID = oid, qd_ItemID = iid, qd_QuantityDecremented = qd, qd_QuantityBefore = qb,
         qd_QuantityAfter = qa\<rparr>)))))))"

definition supplierRegisteredFromObject :: "(string \<times> jval) list \<Rightarrow> event_error + payload" where
  "supplierRegisteredFromObject obj =
     when_ok (requirePayloadKeys obj [''supplier_id''])
     (bind_err (asString (map_of obj ''supplier_id'')) (\<lambda>sid.
      Inr (SupplierRegistered \<lparr>sr_SupplierID = sid\<rparr>)))"

definition ingredientLotReceivedFromObject :: "(string \<times> jval) list \<Rightarrow> event_error + payload" where
  "ingredientLotReceivedFromObject obj =
     when_ok (requirePayloadKeys obj [''lot_id'', ''supplier_id'', ''item_id''])
     (bind_err (asString (map_of obj ''lot_id'')) (\<lambda>lid.
      bind_err (asString (map_of obj ''supplier_id'')) (\<lambda>sid.
      bind_err (asString (map_of obj ''item_id'')) (\<lambda>iid.
      Inr (IngredientLotReceived \<lparr>il_LotID = lid, il_SupplierID = sid, il_ItemID = iid\<rparr>)))))"

definition productionBatchProducedFromObject :: "(string \<times> jval) list \<Rightarrow> event_error + payload" where
  "productionBatchProducedFromObject obj =
     when_ok (requirePayloadKeys obj [''batch_id'', ''lot_id''])
     (bind_err (asString (map_of obj ''batch_id'')) (\<lambda>bid.
      bind_err (asString (map_of obj ''lot_id'')) (\<lambda>lid.
      Inr (ProductionBatchProduced \<lparr>pb_BatchID = bid, pb_LotID = lid\<rparr>))))"

definition shipmentDispatchedFromObject :: "(string \<times> jval) list \<Rightarrow> event_error + payload" where
  "shipmentDispatchedFromObject obj =
     when_ok (requirePayloadKeys obj [''shipment_id'', ''batch_id'', ''order_id''])
     (bind_err (asString (map_of obj ''shipment_id'')) (\<lambda>sid.
      bind_err (asString (map_of obj ''batch_id'')) (\<lambda>bid.
      bind_err (asString (map_of obj ''order_id'')) (\<lambda>oid.
      Inr (ShipmentDispatched \<lparr>sd_ShipmentID = sid, sd_BatchID = bid, sd_OrderID = oid\<rparr>)))))"

definition payloadFromObject :: "string \<Rightarrow> int \<Rightarrow> (string \<times> jval) list \<Rightarrow> event_error + payload" where
  "payloadFromObject eventType schema obj =
     bind_err (familyAggregateType eventType schema) (\<lambda>_.
       if eventType = EventTypeQuantityDecremented then quantityDecrementedFromObject obj
       else if eventType = EventTypeSupplierRegistered then supplierRegisteredFromObject obj
       else if eventType = EventTypeIngredientLotReceived then ingredientLotReceivedFromObject obj
       else if eventType = EventTypeProductionBatchProduced then productionBatchProducedFromObject obj
       else if eventType = EventTypeShipmentDispatched then shipmentDispatchedFromObject obj
       else Inl ErrUnsupported)"

definition required_fields :: "string list" where
  "required_fields =
     [''event_id'', ''tenant_id'', ''event_type'', ''event_schema_version'', ''aggregate_type'',
      ''aggregate_id'', ''aggregate_version'', ''occurred_at'', ''recorded_at'', ''producer'',
      ''correlation_id'', ''causation_id'', ''trace_id'', ''payload'']"

definition envelopeFromObject :: "(string \<times> jval) list \<Rightarrow> event_error + envelope" where
  "envelopeFromObject obj =
     when_ok (first_error (map (\<lambda>k. check (map_of obj k \<noteq> None)) required_fields))
     (when_ok (first_error (map (\<lambda>(k, _). check (k \<in> set required_fields)) obj))
     (bind_err (asString (map_of obj ''event_id'')) (\<lambda>eid.
      bind_err (asString (map_of obj ''tenant_id'')) (\<lambda>tid.
      bind_err (asString (map_of obj ''event_type'')) (\<lambda>ety.
      bind_err (asInt (map_of obj ''event_schema_version'')) (\<lambda>esv.
      bind_err (asString (map_of obj ''aggregate_type'')) (\<lambda>aty.
      bind_err (asString (map_of obj ''aggregate_id'')) (\<lambda>aid.
      bind_err (asInt (map_of obj ''aggregate_version'')) (\<lambda>av.
      bind_err (asString (map_of obj ''occurred_at'')) (\<lambda>oat.
      bind_err (asString (map_of obj ''recorded_at'')) (\<lambda>rat.
      bind_err (asString (map_of obj ''producer'')) (\<lambda>prd.
      bind_err (asString (map_of obj ''correlation_id'')) (\<lambda>cid.
      bind_err (asNullableString (map_of obj ''causation_id'')) (\<lambda>caus.
      bind_err (asString (map_of obj ''trace_id'')) (\<lambda>trc.
      (case map_of obj ''payload'' of
         Some (JObj pobj) \<Rightarrow>
           bind_err (payloadFromObject ety esv pobj) (\<lambda>pl.
           Inr \<lparr>EventID = eid, TenantID = tid, EventType = ety, EventSchemaVersion = esv,
                AggregateType = aty, AggregateID = aid, AggregateVersion = av, OccurredAt = oat,
                RecordedAt = rat, Producer = prd, CorrelationID = cid, CausationID = caus,
                TraceID = trc, Payload = Some pl\<rparr>)
       | _ \<Rightarrow> Inl ErrMalformed))))))))))))))))"

definition Parse :: "string \<Rightarrow> event_error + envelope" where
  "Parse raw =
     bind_err (decodeStrict raw) (\<lambda>root.
       (case root of
          JObj obj \<Rightarrow> bind_err (envelopeFromObject obj) (\<lambda>env. when_ok (Validate env) (Inr env))
        | _ \<Rightarrow> Inl ErrMalformed))"

end
