(* ===== verification/Event_Canon.thy ===== *)
theory Event_Canon
  imports Event_Json Sha256
begin

text \<open>
  Package \<^verbatim>\<open>event\<close>: the RFC 8785 canonical form, the content hash and the identity check
  (\<^verbatim>\<open>event/content_hash.go\<close>), and the properties that tie them to \<open>Parse\<close>: what
  \<open>CanonicalBytes\<close> writes, the strict decoder reads back as the same envelope.
\<close>

section \<open>Definitions\<close>

fun utf16_units :: "nat \<Rightarrow> nat list" where
  "utf16_units v =
     (if v < 0xD800 \<or> (0xE000 \<le> v \<and> v < 0x10000) then [v]
      else if 0x10000 \<le> v \<and> v \<le> 0x10FFFF
      then [0xD800 + (v - 0x10000) div 0x400, 0xDC00 + (v - 0x10000) mod 0x400]
      else [rune_error])"

declare utf16_units.simps [simp del]

definition utf16_encode :: "nat list \<Rightarrow> nat list" where
  "utf16_encode rs = concat (map utf16_units rs)"

fun less_units :: "nat list \<Rightarrow> nat list \<Rightarrow> bool" where
  "less_units [] [] = False"
| "less_units [] (y # ys) = True"
| "less_units (x # xs) [] = False"
| "less_units (x # xs) (y # ys) = (if x \<noteq> y then x < y else less_units xs ys)"

definition lessUTF16 :: "string \<Rightarrow> string \<Rightarrow> bool" where
  "lessUTF16 a b = less_units (utf16_encode (runes a)) (utf16_encode (runes b))"

definition hex4 :: "nat \<Rightarrow> string" where
  "hex4 r = [hex_digit (r div 4096 mod 16), hex_digit (r div 256 mod 16), hex_digit (r div 16 mod 16),
     hex_digit (r mod 16)]"

definition jcs_rune :: "nat \<Rightarrow> string" where
  "jcs_rune r =
     (if r = 0x22 \<or> r = 0x5C then CHR 0x5C # encode_rune r
      else if r = 0x08 then [CHR 0x5C, CHR ''b'']
      else if r = 0x0C then [CHR 0x5C, CHR ''f'']
      else if r = 0x0A then [CHR 0x5C, CHR ''n'']
      else if r = 0x0D then [CHR 0x5C, CHR ''r'']
      else if r = 0x09 then [CHR 0x5C, CHR ''t'']
      else if r < 0x20 then [CHR 0x5C, CHR ''u''] @ hex4 r
      else encode_rune r)"

definition jcsString :: "string \<Rightarrow> event_error + string" where
  "jcsString s =
     (if \<not> valid_utf8 s then Inl ErrMalformed
      else Inr (CHR 0x22 # concat (map jcs_rune (runes s)) @ [CHR 0x22]))"

text \<open>The members of an object with their serialised values, in key order; \<open>first\<close> says
  whether a comma is due.\<close>

fun jcs_members :: "bool \<Rightarrow> (string \<times> (event_error + string)) list \<Rightarrow> event_error + string" where
  "jcs_members first [] = Inr []"
| "jcs_members first ((k, rv) # ms) =
     bind_err (jcsString k) (\<lambda>ks. bind_err rv (\<lambda>vs. bind_err (jcs_members False ms) (\<lambda>rest.
       Inr ((if first then [] else '','') @ ks @ '':'' @ vs @ rest))))"

definition by_key :: "string \<times> 'a \<Rightarrow> string \<times> 'a \<Rightarrow> bool" where
  "by_key a b = lessUTF16 (fst a) (fst b)"

fun jcsValue :: "jval \<Rightarrow> event_error + string" where
  "jcsValue JNull = Inr ''null''"
| "jcsValue (JString s) = jcsString s"
| "jcsValue (JInt n) = Inr (format_int n)"
| "jcsValue (JObj obj) =
     bind_err (jcs_members True (isort by_key (map (\<lambda>(k, v). (k, jcsValue v)) obj)))
       (\<lambda>body. Inr (''{'' @ body @ ''}''))"

fun payloadMap :: "payload \<Rightarrow> (string \<times> jval) list" where
  "payloadMap (QuantityDecremented p) =
     [(''order_id'', JString (qd_OrderID p)), (''item_id'', JString (qd_ItemID p)),
      (''quantity_decremented'', JInt (qd_QuantityDecremented p)),
      (''quantity_before'', JInt (qd_QuantityBefore p)),
      (''quantity_after'', JInt (qd_QuantityAfter p))]"
| "payloadMap (SupplierRegistered p) = [(''supplier_id'', JString (sr_SupplierID p))]"
| "payloadMap (IngredientLotReceived p) =
     [(''lot_id'', JString (il_LotID p)), (''supplier_id'', JString (il_SupplierID p)),
      (''item_id'', JString (il_ItemID p))]"
| "payloadMap (ProductionBatchProduced p) =
     [(''batch_id'', JString (pb_BatchID p)), (''lot_id'', JString (pb_LotID p))]"
| "payloadMap (ShipmentDispatched p) =
     [(''shipment_id'', JString (sd_ShipmentID p)), (''batch_id'', JString (sd_BatchID p)),
      (''order_id'', JString (sd_OrderID p))]"

text \<open>\<open>envelopeMap\<close> is called after \<open>Validate\<close>, so its payload is present.\<close>

definition envelopeMap :: "envelope \<Rightarrow> payload \<Rightarrow> (string \<times> jval) list" where
  "envelopeMap env p =
     [(''event_id'', JString (EventID env)), (''tenant_id'', JString (TenantID env)),
      (''event_type'', JString (EventType env)),
      (''event_schema_version'', JInt (EventSchemaVersion env)),
      (''aggregate_type'', JString (AggregateType env)),
      (''aggregate_id'', JString (AggregateID env)),
      (''aggregate_version'', JInt (AggregateVersion env)),
      (''occurred_at'', JString (OccurredAt env)), (''recorded_at'', JString (RecordedAt env)),
      (''producer'', JString (Producer env)), (''correlation_id'', JString (CorrelationID env)),
      (''causation_id'', (case CausationID env of None \<Rightarrow> JNull | Some c \<Rightarrow> JString c)),
      (''trace_id'', JString (TraceID env)), (''payload'', JObj (payloadMap p))]"

definition CanonicalBytes :: "envelope \<Rightarrow> event_error + string" where
  "CanonicalBytes env =
     when_ok (Validate env)
       (case Payload env of
          None \<Rightarrow> Inl ErrMalformed
        | Some p \<Rightarrow> jcsValue (JObj (envelopeMap env p)))"

definition ContentHash :: "envelope \<Rightarrow> event_error + string" where
  "ContentHash env = bind_err (CanonicalBytes env) (\<lambda>b. Inr (sha256_hex b))"

definition CheckIdentityConflict :: "envelope \<Rightarrow> envelope \<Rightarrow> event_error option" where
  "CheckIdentityConflict a b =
     (if EventID a \<noteq> EventID b then None
      else (case ContentHash a of
              Inl e \<Rightarrow> Some e
            | Inr ha \<Rightarrow>
                (case ContentHash b of
                   Inl e \<Rightarrow> Some e
                 | Inr hb \<Rightarrow> if ha \<noteq> hb then Some ErrIdentityConflict else None)))"

section \<open>Canonical strings are read back\<close>

lemma encode_rune_high:
  assumes "0x80 \<le> r" "r \<le> 0x10FFFF" shows "list_all (\<lambda>c. 0x80 \<le> byte_val c) (encode_rune r)"
proof -
  have "r div 262144 < 8" "r div 4096 < 0x110" using assms by (simp_all add: div_less_iff_less_mult)
  then show ?thesis using assms by (auto simp: encode_rune_def)
qed

lemma scan_string_plain:
  assumes "c \<noteq> CHR 0x22" "c \<noteq> CHR 0x5C" "0x20 \<le> byte_val c"
  shows "scan_string (c # t) = map_option (\<lambda>(b, r). (c # b, r)) (scan_string t)"
  using assms by simp

lemma scan_string_high:
  "list_all (\<lambda>c. 0x80 \<le> byte_val c) cs \<Longrightarrow>
   scan_string (cs @ t) = map_option (\<lambda>(b, r). (cs @ b, r)) (scan_string t)"
proof (induction cs)
  case Nil
  then show ?case by (simp add: case_prod_beta option.map_ident)
next
  case (Cons c cs)
  then have "c \<noteq> CHR 0x22" "c \<noteq> CHR 0x5C" "0x20 \<le> byte_val c" by auto
  with Cons show ?case by (simp add: option.map_comp o_def case_prod_beta del: scan_string.simps flip: append_Cons)
      (simp add: scan_string_plain option.map_comp o_def case_prod_beta)
qed

lemma byte_eq_iff: "n < 256 \<Longrightarrow> byte n = c \<longleftrightarrow> n = byte_val c" "n < 256 \<Longrightarrow> c = byte n \<longleftrightarrow> byte_val c = n"
  by (auto simp: byte_val_byte)

lemma nibble_hex_digit [simp]: "n < 16 \<Longrightarrow> nibble (hex_digit n) = Some n"
  by (auto simp: nibble_def hex_digit_def Let_def)

lemma hex_digit_any [simp]: "n < 16 \<Longrightarrow> is_hex_any (hex_digit n)"
  using hex_digit_range [of n] by (auto simp: is_hex_any_def is_digit_def)

lemma hex_fold_hex4: "r < 0x20 \<Longrightarrow> hex_fold 0 (hex4 r) = Some r"
  by (simp add: hex4_def)

lemma length_hex4 [simp]: "length (hex4 r) = 4" by (simp add: hex4_def)

lemma hex_ascii: "n < 16 \<Longrightarrow> byte_val (hex_digit n) < 0x80"
  using hex_digit_range [of n] by auto

lemma hex4_ascii: "ascii (hex4 r)"
  by (simp add: hex4_def hex_ascii)

lemma getu4_hex4: "r < 0x20 \<Longrightarrow> getu4 (CHR 0x5C # CHR ''u'' # hex4 r @ t) = Some r"
  by (simp add: getu4_def hex_fold_hex4)

lemma parse_escape_hex4:
  "r < 0x20 \<Longrightarrow> parseJSONUnicodeEscape (CHR 0x5C # CHR ''u'' # hex4 r @ t) = Inr (r, t)"
  by (simp add: parseJSONUnicodeEscape_def hex_fold_hex4)

lemma no_surrogate_ascii: "r < 0x80 \<Longrightarrow> \<not> isHighSurrogate r \<and> \<not> isLowSurrogate r"
  by (simp add: isHighSurrogate_def isLowSurrogate_def)

lemma getu4_simple: "simple_escape e \<noteq> None \<Longrightarrow> getu4 (CHR 0x5C # e # t) = None"
  by (auto simp: getu4_def simple_escape_def split: if_splits)

lemma simple_escape_laws:
  assumes "simple_escape e = Some x"
  shows "scan_string (CHR 0x5C # e # t) = map_option (\<lambda>(b, r). (CHR 0x5C # e # b, r)) (scan_string t)"
    and "unquote (CHR 0x5C # e # t) = x # unquote t"
    and "rejectUnpaired True (CHR 0x5C # e # t) = rejectUnpaired True t"
    and "valid_utf8 (CHR 0x5C # e # t) = valid_utf8 t"
proof -
  have "e \<noteq> CHR ''u''" "e \<noteq> CHR ''U''" "byte_val e < 0x80"
    using assms by (auto simp: simple_escape_def split: if_splits)
  then show "rejectUnpaired True (CHR 0x5C # e # t) = rejectUnpaired True t"
    and "valid_utf8 (CHR 0x5C # e # t) = valid_utf8 t" by simp_all
qed (use assms in \<open>simp_all add: unquote.simps(2) getu4_simple\<close>)

lemma u_escape_laws:
  assumes "r < 0x20"
  shows "scan_string (CHR 0x5C # CHR ''u'' # hex4 r @ t) =
      map_option (\<lambda>(b, s). (CHR 0x5C # CHR ''u'' # hex4 r @ b, s)) (scan_string t)"
    and "unquote (CHR 0x5C # CHR ''u'' # hex4 r @ t) = encode_rune r @ unquote t"
    and "rejectUnpaired True (CHR 0x5C # CHR ''u'' # hex4 r @ t) = rejectUnpaired True t"
    and "valid_utf8 (CHR 0x5C # CHR ''u'' # hex4 r @ t) = valid_utf8 t"
  using assms no_surrogate_ascii [of r]
  by (simp_all add: unquote.simps(2) getu4_hex4 parse_escape_hex4 valid_utf8_append hex4_ascii
      valid_utf8_ascii) (simp add: hex4_def simple_escape_def)

lemma plain_laws:
  assumes "0x20 \<le> byte_val c" "byte_val c < 0x80" "c \<noteq> CHR 0x22" "c \<noteq> CHR 0x5C"
  shows "unquote (c # t) = c # unquote t" and "rejectUnpaired True (c # t) = rejectUnpaired True t"
  using assms by (simp_all add: unquote.simps(2))

lemma reject_high:
  "list_all (\<lambda>c. 0x80 \<le> byte_val c) cs \<Longrightarrow> rejectUnpaired True (cs @ t) = rejectUnpaired True t"
proof (induction cs)
  case (Cons c cs)
  then have "c \<noteq> CHR 0x22" "c \<noteq> CHR 0x5C" by auto
  with Cons show ?case by simp
qed simp

lemma unquote_high:
  assumes "scalar r" "0x80 \<le> r" shows "unquote (encode_rune r @ t) = encode_rune r @ unquote t"
proof -
  obtain c cs where enc: "encode_rune r = c # cs" by (cases "encode_rune r") auto
  have "list_all (\<lambda>c. 0x80 \<le> byte_val c) (encode_rune r)"
    using assms by (intro encode_rune_high) (auto simp: scalar_def)
  then have c: "c \<noteq> CHR 0x5C" "\<not> byte_val c < 0x80" using enc by auto
  have "decode_rune (c # cs @ t) = (r, Suc (length cs))"
    using decode_encode [OF assms(1), of t] enc by simp
  with c show ?thesis by (simp add: enc unquote.simps(2))
qed

lemma byte_quote: "byte 0x22 = CHR 0x22" "byte 0x5C = CHR 0x5C"
  by (simp_all add: byte_eq_iff)

lemma jcs_rune_escaped:
  assumes "r \<in> {0x22, 0x5C, 0x08, 0x0C, 0x0A, 0x0D, 0x09}"
  shows "\<exists>e x. jcs_rune r = [CHR 0x5C, e] \<and> simple_escape e = Some x \<and> encode_rune r = [x]"
proof -
  have "r = 0x22 \<or> r = 0x5C \<Longrightarrow> jcs_rune r = [CHR 0x5C, byte r]"
    and "r = 0x22 \<or> r = 0x5C \<Longrightarrow> encode_rune r = [byte r]"
    by (auto simp: jcs_rune_def encode_rune_def)
  moreover have "simple_escape (CHR 0x22) = Some (CHR 0x22)" "simple_escape (CHR 0x5C) = Some (CHR 0x5C)"
    by (simp_all add: simple_escape_def)
  ultimately have "r = 0x22 \<or> r = 0x5C \<Longrightarrow> ?thesis"
    by (elim disjE) (simp_all add: byte_quote)
  moreover have "r \<in> {0x08, 0x0C, 0x0A, 0x0D, 0x09} \<Longrightarrow> ?thesis"
    by (elim insertE emptyE) (simp_all add: jcs_rune_def encode_rune_def simple_escape_def byte_eq_iff)
  ultimately show ?thesis using assms by blast
qed

lemma jcs_rune_laws:
  assumes "scalar r"
  shows "scan_string (jcs_rune r @ t) = map_option (\<lambda>(b, s). (jcs_rune r @ b, s)) (scan_string t)"
    and "unquote (jcs_rune r @ t) = encode_rune r @ unquote t"
    and "rejectUnpaired True (jcs_rune r @ t) = rejectUnpaired True t"
    and "valid_utf8 (jcs_rune r @ t) = valid_utf8 t"
proof -
  consider (escaped) e x where "jcs_rune r = [CHR 0x5C, e]" "simple_escape e = Some x" "encode_rune r = [x]"
    | (u) "r < 0x20" "jcs_rune r = CHR 0x5C # CHR ''u'' # hex4 r"
    | (plain) c where "jcs_rune r = [c]" "encode_rune r = [c]" "0x20 \<le> byte_val c" "byte_val c < 0x80"
        "c \<noteq> CHR 0x22" "c \<noteq> CHR 0x5C"
    | (high) "0x80 \<le> r" "jcs_rune r = encode_rune r"
  proof (cases "r < 0x20 \<or> r = 0x22 \<or> r = 0x5C")
    case True
    show ?thesis
    proof (cases "r \<in> {0x22, 0x5C, 0x08, 0x0C, 0x0A, 0x0D, 0x09}")
      case True
      then show ?thesis using jcs_rune_escaped that(1) by blast
    next
      case False
      with \<open>r < 0x20 \<or> r = 0x22 \<or> r = 0x5C\<close> show ?thesis by (intro that(2)) (auto simp: jcs_rune_def)
    qed
  next
    case False
    then have "jcs_rune r = encode_rune r" by (auto simp: jcs_rune_def)
    moreover have "r < 0x80 \<Longrightarrow> byte r \<noteq> CHR 0x22 \<and> byte r \<noteq> CHR 0x5C"
      using False by (simp add: byte_eq_iff)
    ultimately show ?thesis
      using False that(3) [of "byte r"] that(4) by (cases "r < 0x80") (simp_all add: encode_rune_def)
  qed
  then have "scan_string (jcs_rune r @ t) = map_option (\<lambda>(b, s). (jcs_rune r @ b, s)) (scan_string t) \<and>
    unquote (jcs_rune r @ t) = encode_rune r @ unquote t \<and>
    rejectUnpaired True (jcs_rune r @ t) = rejectUnpaired True t \<and>
    valid_utf8 (jcs_rune r @ t) = valid_utf8 t"
  proof cases
    case (escaped e x)
    then show ?thesis using simple_escape_laws [of e x t] by (simp del: scan_string.simps)
  next
    case u
    then show ?thesis using u_escape_laws [of r t] by (simp del: scan_string.simps)
  next
    case (plain c)
    then show ?thesis
      using plain_laws [of c t] scan_string_plain [of c t] by (simp del: scan_string.simps)
  next
    case high
    then have "list_all (\<lambda>c. 0x80 \<le> byte_val c) (encode_rune r)"
      using assms by (intro encode_rune_high) (auto simp: scalar_def)
    with high assms show ?thesis
      by (simp add: scan_string_high unquote_high reject_high del: scan_string.simps)
  qed
  then show "scan_string (jcs_rune r @ t) = map_option (\<lambda>(b, s). (jcs_rune r @ b, s)) (scan_string t)"
    "unquote (jcs_rune r @ t) = encode_rune r @ unquote t"
    "rejectUnpaired True (jcs_rune r @ t) = rejectUnpaired True t"
    "valid_utf8 (jcs_rune r @ t) = valid_utf8 t"
    by blast+
qed

lemma scan_jcs_text:
  "list_all scalar rs \<Longrightarrow>
   scan_string (concat (map jcs_rune rs) @ CHR 0x22 # t) = Some (concat (map jcs_rune rs), t)"
proof (induction rs)
  case (Cons r rs)
  then show ?case by (simp add: jcs_rune_laws(1) del: scan_string.simps)
qed simp

lemma unquote_jcs_text: "list_all scalar rs \<Longrightarrow> unquote (concat (map jcs_rune rs)) = utf8 rs"
  by (induction rs) (simp_all add: jcs_rune_laws(2))

lemma reject_jcs_text:
  "list_all scalar rs \<Longrightarrow> rejectUnpaired True (concat (map jcs_rune rs) @ t) = rejectUnpaired True t"
proof (induction rs)
  case (Cons r rs)
  then show ?case by (simp add: jcs_rune_laws(3) del: rejectUnpaired.simps)
qed simp

lemma valid_jcs_text:
  "list_all scalar rs \<Longrightarrow> valid_utf8 (concat (map jcs_rune rs) @ t) = valid_utf8 t"
  by (induction rs) (simp_all add: jcs_rune_laws(4))

lemmas jcs_text_laws = scan_jcs_text unquote_jcs_text reject_jcs_text valid_jcs_text

lemma jcsString_laws:
  assumes "jcsString s = Inr t"
  shows "\<exists>body. t = CHR 0x22 # body @ [CHR 0x22] \<and> unquote body = s \<and>
      (\<forall>rest. scan_string (body @ CHR 0x22 # rest) = Some (body, rest))"
    and "rejectUnpaired False (t @ rest) = rejectUnpaired False rest"
    and "valid_utf8 (t @ rest) = valid_utf8 rest"
proof -
  define body where "body = concat (map jcs_rune (runes s))"
  from assms have s: "valid_utf8 s" and t: "t = CHR 0x22 # body @ [CHR 0x22]"
    by (auto simp: jcsString_def body_def split: if_splits)
  have "list_all scalar (runes s)" using valid_utf8_runes [OF s] by simp
  note laws = jcs_text_laws [OF this, folded body_def]
  show "\<exists>body. t = CHR 0x22 # body @ [CHR 0x22] \<and> unquote body = s \<and>
      (\<forall>rest. scan_string (body @ CHR 0x22 # rest) = Some (body, rest))"
    using t laws(1,2) valid_utf8_runes [OF s] by auto
  show "rejectUnpaired False (t @ rest) = rejectUnpaired False rest"
    "valid_utf8 (t @ rest) = valid_utf8 rest"
    using t laws(3,4) by simp_all
qed

lemma jcsString_valid: "valid_utf8 s \<Longrightarrow> \<exists>t. jcsString s = Inr t"
  by (simp add: jcsString_def)

section \<open>Canonical numbers are read back\<close>

definition stops :: "string \<Rightarrow> bool" where
  "stops rest = (case rest of [] \<Rightarrow> True | c # _ \<Rightarrow> c = CHR '','' \<or> c = CHR ''}'')"

lemma stops_simps [simp]: "stops []" "stops (c # cs) = (c = CHR '','' \<or> c = CHR ''}'')"
  by (simp_all add: stops_def)

lemma takeWhile_digits:
  assumes "list_all is_digit ds" "stops rest"
  shows "takeWhile is_digit (ds @ rest) = ds" "dropWhile is_digit (ds @ rest) = rest"
proof -
  have "takeWhile is_digit rest = []" "dropWhile is_digit rest = rest"
    using assms(2) by (cases rest; auto simp: is_digit_def)+
  with assms(1) show "takeWhile is_digit (ds @ rest) = ds" "dropWhile is_digit (ds @ rest) = rest"
    by (induction ds) auto
qed

lemma format_int_nat: "0 \<le> n \<Longrightarrow> format_int n = nat_digits (nat n)"
  by (simp add: format_int_def)

lemma digit_facts:
  "is_digit c \<Longrightarrow> c \<noteq> CHR ''-'' \<and> c \<noteq> CHR ''{'' \<and> c \<noteq> CHR 0x22 \<and> \<not> is_json_space c \<and>
     c \<noteq> CHR ''.'' \<and> c \<noteq> CHR ''e'' \<and> c \<noteq> CHR ''E'' \<and> c \<noteq> CHR 0x5C \<and> byte_val c < 0x80"
  by (auto simp: is_digit_def is_json_space_def)

lemma scan_number_format:
  assumes "0 \<le> n" "stops rest" shows "scan_number (format_int n @ rest) = Some (format_int n, rest)"
proof -
  obtain c cs where d: "nat_digits (nat n) = c # cs"
    using nat_digits_digits [of "nat n"] by (cases "nat_digits (nat n)") auto
  have digits: "list_all is_digit (c # cs)" using nat_digits_digits [of "nat n"] d by simp
  have zero: "c = CHR ''0'' \<Longrightarrow> cs = []" using nat_digits_head [OF d] by auto
  have "scan_int_part (c # cs @ rest) = Some (c # cs, rest)"
    using digits zero takeWhile_digits [OF digits assms(2)] by (auto simp: scan_int_part_def)
  moreover have "scan_frac rest = Some ([], rest)" "scan_exp rest = Some ([], rest)"
    using assms(2) by (cases rest; auto simp: scan_frac_def scan_exp_def)+
  ultimately show ?thesis
    using digits digit_facts [of c] d by (simp add: format_int_nat assms(1) scan_number_def)
qed

lemma parseIntegerNumber_format:
  assumes "0 \<le> n" "n \<le> maxSafeInt" shows "parseIntegerNumber (format_int n) = Some n"
proof -
  obtain c cs where d: "format_int n = c # cs"
    using nat_digits_digits [of "nat n"] assms by (cases "nat_digits (nat n)") (auto simp: format_int_nat)
  have digits: "list_all is_digit (c # cs)"
    using nat_digits_digits [of "nat n"] d assms by (simp add: format_int_nat)
  have zero: "c = CHR ''0'' \<Longrightarrow> cs = []"
    using nat_digits_head [of "nat n" c cs] d assms by (auto simp: format_int_nat)
  have "parse_int (c # cs) = Some n"
    using parse_format_int [of n] d assms by (simp add: int64_def maxSafeInt_def)
  moreover have "\<not> list_ex (\<lambda>c. c = CHR ''.'' \<or> c = CHR ''e'' \<or> c = CHR ''E'') (c # cs)"
    using digits digit_facts by (force simp: list_all_iff list_ex_iff)
  moreover have "\<not> (length (c # cs) > 1 \<and> ((c # cs) ! 0 = CHR ''0'' \<or>
      ((c # cs) ! 0 = CHR ''-'' \<and> length (c # cs) > 2 \<and> (c # cs) ! 1 = CHR ''0'')))"
  proof (cases "c = CHR ''0''")
    case True
    then show ?thesis by (simp add: zero)
  next
    case False
    moreover have "c \<noteq> CHR ''-''" using digits digit_facts [of c] by simp
    ultimately show ?thesis by simp
  qed
  ultimately show ?thesis
    using assms by (simp only: d parseIntegerNumber_def if_False option.case) simp
qed

section \<open>Canonical values are read back\<close>

fun jwf :: "jval \<Rightarrow> bool" where
  "jwf JNull = True"
| "jwf (JString s) = valid_utf8 s"
| "jwf (JInt n) = (0 \<le> n \<and> n \<le> maxSafeInt)"
| "jwf (JObj obj) = (distinct (map fst obj) \<and> (\<forall>(k, v) \<in> set obj. valid_utf8 k \<and> jwf v))"

text \<open>A value as the decoder returns it: members in canonical key order, at every level.\<close>

fun jnorm :: "jval \<Rightarrow> jval" where
  "jnorm (JObj obj) = JObj (isort by_key (map (\<lambda>(k, v). (k, jnorm v)) obj))"
| "jnorm v = v"

definition reads :: "string \<Rightarrow> jval \<Rightarrow> bool" where
  "reads t v \<longleftrightarrow>
     (\<forall>rest. stops rest \<longrightarrow> decodeValue (t @ rest) = Some (v, rest)) \<and>
     (\<forall>rest. rejectUnpaired False (t @ rest) = rejectUnpaired False rest) \<and>
     (\<forall>rest. valid_utf8 (t @ rest) = valid_utf8 rest)"

lemma skip_ws_id [simp]: "\<not> is_json_space c \<Longrightarrow> skip_ws (c # cs) = c # cs"
  by (simp add: skip_ws_def)

lemma not_json_space [simp]:
  "\<not> is_json_space (CHR ''{'')" "\<not> is_json_space (CHR ''}'')" "\<not> is_json_space (CHR 0x22)"
  "\<not> is_json_space (CHR '','')" "\<not> is_json_space (CHR '':'')" "\<not> is_json_space (CHR ''n'')"
  by (simp_all add: is_json_space_def)

lemma reads_null: "reads ''null'' JNull"
  by (simp add: reads_def decodeValue.simps is_digit_def)

lemma reads_string: "jcsString s = Inr t \<Longrightarrow> reads t (JString s)"
  using jcsString_laws [of s t] by (fastforce simp: reads_def decodeValue.simps)

lemma reads_int:
  assumes "0 \<le> n" "n \<le> maxSafeInt" shows "reads (format_int n) (JInt n)"
proof -
  obtain c cs where d: "format_int n = c # cs"
    using nat_digits_digits [of "nat n"] assms by (cases "nat_digits (nat n)") (auto simp: format_int_nat)
  have digits: "list_all is_digit (c # cs)"
    using nat_digits_digits [of "nat n"] d assms by (simp add: format_int_nat)
  have "decodeValue (format_int n @ rest) = Some (JInt n, rest)" if "stops rest" for rest
    using digits digit_facts [of c] scan_number_format [OF assms(1) that]
      parseIntegerNumber_format [OF assms]
    by (simp add: decodeValue.simps d)
  moreover have "list_all is_digit ds \<Longrightarrow> rejectUnpaired False (ds @ rest) = rejectUnpaired False rest" for ds rest
    by (induction ds) (auto dest: digit_facts)
  moreover have "list_all is_digit ds \<Longrightarrow> valid_utf8 (ds @ rest) = valid_utf8 rest" for ds rest
    by (induction ds) (auto dest: digit_facts)
  ultimately show ?thesis using digits unfolding reads_def d by blast
qed

text \<open>The loop of \<open>decodeObject\<close> on the members that \<open>jcs_members\<close> writes.\<close>

definition member_reads :: "string \<times> (event_error + string) \<Rightarrow> string \<times> jval \<Rightarrow> bool" where
  "member_reads m kv \<longleftrightarrow> fst m = fst kv \<and> valid_utf8 (fst m) \<and> (\<exists>t. snd m = Inr t \<and> reads t (snd kv))"

lemma decodeObject_member:
  assumes k: "jcsString k = Inr ks" and t: "reads t v" and fresh: "k \<notin> set (map fst out)"
    and stop: "stops rest" and rest: "rest \<noteq> []"
  shows "decodeObject first out ((if first then [] else '','') @ ks @ '':'' @ t @ rest) =
    decodeObject False (out @ [(k, v)]) rest"
proof -
  obtain body where ks: "ks = CHR 0x22 # body @ [CHR 0x22]" and u: "unquote body = k"
    and scan: "\<And>rest. scan_string (body @ CHR 0x22 # rest) = Some (body, rest)"
    using jcsString_laws(1) [OF k] by blast
  have "decodeValue (t @ rest) = Some (v, rest)" using t stop by (simp add: reads_def)
  with ks u scan fresh show ?thesis
    by (cases first) (simp_all add: decodeObject.simps [of _ out])
qed

lemma jcs_members_reads:
  assumes "list_all2 member_reads ms kvs" "distinct (map fst (out @ kvs))"
  shows "\<exists>body. jcs_members first ms = Inr body \<and>
    (\<forall>rest. decodeObject first out (body @ ''}'' @ rest) = Some (JObj (out @ kvs), rest)) \<and>
    (\<forall>rest. rejectUnpaired False (body @ rest) = rejectUnpaired False rest) \<and>
    (\<forall>rest. valid_utf8 (body @ rest) = valid_utf8 rest) \<and> (body = [] \<or> first \<or> stops body)"
  using assms
proof (induction ms kvs arbitrary: first out rule: list_all2_induct)
  case Nil
  then show ?case by (simp add: decodeObject.simps)
next
  case (Cons m ms kv kvs)
  obtain k v where kv: "kv = (k, v)" by fastforce
  from Cons.hyps(1) kv obtain t where m: "m = (k, Inr t)" and k: "valid_utf8 k" and t: "reads t v"
    by (cases m) (auto simp: member_reads_def)
  obtain ks where ks: "jcsString k = Inr ks" using jcsString_valid [OF k] by blast
  have "distinct (map fst ((out @ [(k, v)]) @ kvs))" using Cons.prems kv by simp
  from Cons.IH [OF this, of False] obtain body where
    body: "jcs_members False ms = Inr body" "body = [] \<or> stops body"
    and dec: "\<And>rest. decodeObject False (out @ [(k, v)]) (body @ ''}'' @ rest) = Some (JObj (out @ kv # kvs), rest)"
    and rej: "\<And>rest. rejectUnpaired False (body @ rest) = rejectUnpaired False rest"
    and val: "\<And>rest. valid_utf8 (body @ rest) = valid_utf8 rest"
    using kv by auto
  define w where "w = (if first then [] else '','') @ ks @ '':'' @ t @ body"
  have stop: "stops (body @ ''}'' @ rest)" for rest using body(2) by (cases body) auto
  have "decodeObject first out (w @ ''}'' @ rest) = Some (JObj (out @ kv # kvs), rest)" for rest
    using decodeObject_member [OF ks t _ stop, of out rest first] dec Cons.prems kv
    by (simp add: w_def)
  moreover have "rejectUnpaired False (w @ rest) = rejectUnpaired False rest"
      "valid_utf8 (w @ rest) = valid_utf8 rest" for rest
    using t rej val jcsString_laws(2,3) [OF ks] by (simp_all add: w_def reads_def)
  moreover have "first \<or> stops w" by (simp add: w_def)
  moreover have "jcs_members first (m # ms) = Inr w" using m ks body by (simp add: w_def)
  ultimately show ?case by blast
qed

lemma isort_by_key_map:
  "isort by_key (map (\<lambda>(k, v). (k, f v)) obj) = map (\<lambda>(k, v). (k, f v)) (isort by_key obj)"
proof -
  let ?g = "\<lambda>(k, v). (k, f v)"
  have "by_key = (\<lambda>a b. by_key (?g a) (?g b))" by (auto simp: by_key_def fun_eq_iff)
  then show ?thesis using map_isort [of ?g by_key obj] by simp
qed

lemma jcsValue_reads: "jwf v \<Longrightarrow> \<exists>t. jcsValue v = Inr t \<and> reads t (jnorm v)"
proof (induction v)
  case (JString s)
  then show ?case using jcsString_valid reads_string by (auto simp: jcsString_def)
next
  case (JObj obj)
  let ?ms = "isort by_key (map (\<lambda>(k, v). (k, jcsValue v)) obj)"
  let ?os = "isort by_key (map (\<lambda>(k, v). (k, jnorm v)) obj)"
  have "member_reads (k, jcsValue v) (k, jnorm v)" if "(k, v) \<in> set obj" for k v
    using JObj.IH [of "(k, v)" v] JObj.prems that by (fastforce simp: member_reads_def)
  then have "list_all2 member_reads ?ms ?os"
    by (auto simp: isort_by_key_map list_all2_map1 list_all2_map2 list_all2_same)
  moreover have "distinct (map fst ([] @ ?os))"
    using JObj.prems map_isort [of fst lessUTF16 "map (\<lambda>(k, v). (k, jnorm v)) obj"]
    by (simp add: by_key_def [abs_def] comp_def case_prod_beta)
  ultimately obtain body where body: "jcs_members True ?ms = Inr body"
    "\<And>rest. decodeObject True [] (body @ ''}'' @ rest) = Some (JObj ?os, rest)"
    "\<And>rest. rejectUnpaired False (body @ rest) = rejectUnpaired False rest"
    "\<And>rest. valid_utf8 (body @ rest) = valid_utf8 rest"
    using jcs_members_reads [of ?ms ?os "[]" True] by auto
  then have "reads (''{'' @ body @ ''}'') (JObj ?os)"
    by (simp add: reads_def decodeValue.simps)
  with body(1) show ?case by simp
qed (simp_all add: reads_null reads_int)

section \<open>Envelopes are read back\<close>

lemma jwf_payloadMap: "valid_payload p ety aid \<Longrightarrow> jwf (JObj (payloadMap p))"
  by (cases p) (auto simp: valid_id_def valid_uuid_def valid_utf8_ascii)

lemma jwf_envelopeMap:
  assumes "valid_envelope env" "Payload env = Some p" shows "jwf (JObj (envelopeMap env p))"
proof -
  have p: "valid_payload p (EventType env) (AggregateID env)" "EventSchemaVersion env = SchemaVersionV1"
    and agg: "AggregateType env = payload_aggregate p"
    using assms by (auto simp: valid_envelope_def)
  have "valid_utf8 (EventType env)" "valid_utf8 (AggregateType env)"
    using family_of_payload [OF p(1), of SchemaVersionV1] event_type_utf8 agg by auto
  with assms jwf_payloadMap [OF p(1)] p(2) show ?thesis
    by (auto simp: envelopeMap_def valid_envelope_def valid_id_def valid_uuid_def valid_time_def
        valid_utf8_ascii producer_utf8 SchemaVersionV1_def maxSafeInt_def split: option.splits)
qed

lemma map_of_sorted:
  "distinct (map fst obj) \<Longrightarrow> map_of (isort by_key obj) = map_of obj"
  by (rule map_of_perm) simp_all

lemma first_error_check:
  "list_all (\<lambda>x. x = None \<or> x = Some ErrMalformed) xs \<Longrightarrow>
   first_error xs = (if \<forall>x \<in> set xs. x = None then None else Some ErrMalformed)"
  by (induction xs rule: first_error.induct) auto

lemma requirePayloadKeys_eq:
  "requirePayloadKeys obj ks = (if set ks = fst ` set obj then None else Some ErrMalformed)"
proof -
  let ?xs = "map (\<lambda>k. check (map_of obj k \<noteq> None)) ks @ map (\<lambda>(k, _). check (k \<in> set ks)) obj"
  have "list_all (\<lambda>x. x = None \<or> x = Some ErrMalformed) ?xs"
    by (auto simp: list_all_iff check_def split: if_splits)
  moreover have "(\<forall>x \<in> set ?xs. x = None) \<longleftrightarrow> set ks \<subseteq> fst ` set obj \<and> fst ` set obj \<subseteq> set ks"
    by (simp add: ball_Un err_simps map_of_eq_None_iff subset_iff case_prod_beta) blast
  ultimately show ?thesis
    unfolding requirePayloadKeys_def by (simp only: first_error_check set_eq_subset)
qed

lemma payloadFromObject_payloadMap:
  assumes "valid_payload p ety aid" "map_of obj = map_of (payloadMap p)" "set obj = set (payloadMap p)"
  shows "payloadFromObject ety SchemaVersionV1 obj = Inr p"
proof -
  have "fst ` set obj = fst ` set (payloadMap p)" using assms(3) by simp
  then show ?thesis
    using assms(1,2) family_of_payload [OF assms(1), of SchemaVersionV1]
    by (cases p) (simp_all add: payloadFromObject_def quantityDecrementedFromObject_def
        supplierRegisteredFromObject_def ingredientLotReceivedFromObject_def
        productionBatchProducedFromObject_def shipmentDispatchedFromObject_def requirePayloadKeys_eq)
qed

lemma jnorm_scalar [simp]: "jnorm (case c of None \<Rightarrow> JNull | Some s \<Rightarrow> JString s) =
    (case c of None \<Rightarrow> JNull | Some s \<Rightarrow> JString s)"
  by (cases c) auto

definition envelope_obj :: "envelope \<Rightarrow> payload \<Rightarrow> (string \<times> jval) list" where
  "envelope_obj env p = map (\<lambda>(k, v). (k, jnorm v)) (envelopeMap env p)"

lemma fst_envelope_obj: "map fst (envelope_obj env p) = required_fields"
  by (simp add: envelope_obj_def envelopeMap_def required_fields_def)

lemma distinct_required: "distinct required_fields"
  by (simp add: required_fields_def)

lemma map_of_payload_obj:
  "map_of (isort by_key (map (\<lambda>(k, v). (k, jnorm v)) (payloadMap p))) = map_of (payloadMap p)"
  "set (isort by_key (map (\<lambda>(k, v). (k, jnorm v)) (payloadMap p))) = set (payloadMap p)"
proof -
  have eq: "map (\<lambda>(k, v). (k, jnorm v)) (payloadMap p) = payloadMap p" by (cases p) auto
  have "distinct (map fst (payloadMap p))" by (cases p) auto
  then show "map_of (isort by_key (map (\<lambda>(k, v). (k, jnorm v)) (payloadMap p))) = map_of (payloadMap p)"
    "set (isort by_key (map (\<lambda>(k, v). (k, jnorm v)) (payloadMap p))) = set (payloadMap p)"
    by (simp_all only: eq map_of_sorted set_isort)
qed

lemma envelope_obj_lookup:
  "map_of (envelope_obj env p) ''event_id'' = Some (JString (EventID env))"
  "map_of (envelope_obj env p) ''tenant_id'' = Some (JString (TenantID env))"
  "map_of (envelope_obj env p) ''event_type'' = Some (JString (EventType env))"
  "map_of (envelope_obj env p) ''event_schema_version'' = Some (JInt (EventSchemaVersion env))"
  "map_of (envelope_obj env p) ''aggregate_type'' = Some (JString (AggregateType env))"
  "map_of (envelope_obj env p) ''aggregate_id'' = Some (JString (AggregateID env))"
  "map_of (envelope_obj env p) ''aggregate_version'' = Some (JInt (AggregateVersion env))"
  "map_of (envelope_obj env p) ''occurred_at'' = Some (JString (OccurredAt env))"
  "map_of (envelope_obj env p) ''recorded_at'' = Some (JString (RecordedAt env))"
  "map_of (envelope_obj env p) ''producer'' = Some (JString (Producer env))"
  "map_of (envelope_obj env p) ''correlation_id'' = Some (JString (CorrelationID env))"
  "map_of (envelope_obj env p) ''causation_id'' =
     Some (case CausationID env of None \<Rightarrow> JNull | Some c \<Rightarrow> JString c)"
  "map_of (envelope_obj env p) ''trace_id'' = Some (JString (TraceID env))"
  "map_of (envelope_obj env p) ''payload'' =
     Some (JObj (isort by_key (map (\<lambda>(k, v). (k, jnorm v)) (payloadMap p))))"
  by (simp_all add: envelope_obj_def envelopeMap_def)

lemma asNullable_causation:
  "asNullableString (Some (case c of None \<Rightarrow> JNull | Some s \<Rightarrow> JString s)) = Inr c"
  by (cases c) auto

lemma envelopeFromObject_envelopeMap:
  assumes env: "valid_envelope env" and p: "Payload env = Some p"
    and obj: "map_of obj = map_of (envelope_obj env p)" "set obj = set (envelope_obj env p)"
  shows "envelopeFromObject obj = Inr env"
proof -
  have vp: "valid_payload p (EventType env) (AggregateID env)"
    using env p by (simp add: valid_envelope_def)
  have keys: "fst ` set obj = set required_fields"
    using obj(2) arg_cong [OF fst_envelope_obj [of env p], of set] by simp
  have "first_error (map (\<lambda>k. check (map_of obj k \<noteq> None)) required_fields) = None"
    using keys by (auto simp: err_simps map_of_eq_None_iff)
  moreover have "first_error (map (\<lambda>(k, _). check (k \<in> set required_fields)) obj) = None"
    using keys by (force simp: err_simps)
  moreover have "payloadFromObject (EventType env) SchemaVersionV1
      (isort by_key (map (\<lambda>(k, v). (k, jnorm v)) (payloadMap p))) = Inr p"
    by (rule payloadFromObject_payloadMap [OF vp map_of_payload_obj])
  moreover have "EventSchemaVersion env = SchemaVersionV1" using env by (simp add: valid_envelope_def)
  ultimately show ?thesis
    using p unfolding envelopeFromObject_def obj(1)
    by (simp add: envelope_obj_lookup asNullable_causation)
qed


lemma CanonicalBytes_valid:
  assumes "valid_envelope env" "Payload env = Some p"
  shows "\<exists>b. CanonicalBytes env = Inr b \<and> reads b (JObj (isort by_key (envelope_obj env p)))"
  using jcsValue_reads [OF jwf_envelopeMap [OF assms]] assms
  by (auto simp: CanonicalBytes_def Validate_iff [THEN iffD2] envelope_obj_def)

lemma CanonicalBytes_Inr:
  "CanonicalBytes env = Inr b \<Longrightarrow> valid_envelope env \<and> (\<exists>p. Payload env = Some p)"
  by (auto simp: CanonicalBytes_def err_simps split: option.splits)

lemma reads_decodeStrict: "reads b v \<Longrightarrow> decodeStrict b = Inr v"
proof -
  assume r: "reads b v"
  then have "decodeValue (b @ []) = Some (v, [])" "valid_utf8 (b @ []) = valid_utf8 []"
    "rejectUnpaired False (b @ []) = rejectUnpaired False []"
    unfolding reads_def by (meson stops_simps(1))+
  then show ?thesis
    by (simp add: decodeStrict_def ensureJCSCompatibleJSON_def rejectUnpairedSurrogateEscapes_def skip_ws_def)
qed

lemma Parse_canonical: "CanonicalBytes env = Inr b \<Longrightarrow> Parse b = Inr env"
proof -
  assume b: "CanonicalBytes env = Inr b"
  then obtain p where v: "valid_envelope env" and p: "Payload env = Some p"
    using CanonicalBytes_Inr by blast
  with b CanonicalBytes_valid [OF v p] have r: "reads b (JObj (isort by_key (envelope_obj env p)))" by auto
  have "distinct (map fst (envelope_obj env p))" by (simp add: fst_envelope_obj distinct_required)
  then have "envelopeFromObject (isort by_key (envelope_obj env p)) = Inr env"
    by (intro envelopeFromObject_envelopeMap [OF v p]) (simp_all add: map_of_sorted)
  with r v show ?thesis
    by (simp add: Parse_def reads_decodeStrict Validate_iff [THEN iffD2])
qed

lemma Parse_valid: "Parse raw = Inr env \<Longrightarrow> valid_envelope env"
proof -
  assume "Parse raw = Inr env"
  then obtain root where "decodeStrict raw = Inr root"
    "(case root of JObj obj \<Rightarrow> bind_err (envelopeFromObject obj) (\<lambda>env. when_ok (Validate env) (Inr env))
      | _ \<Rightarrow> Inl ErrMalformed) = Inr env"
    by (auto simp: Parse_def bind_err_Inr)
  then show ?thesis by (cases root) (auto simp: err_simps)
qed

section \<open>Key order\<close>

lemma scalar_units_inject:
  assumes "scalar r" "scalar r'" "utf16_units r @ xs = utf16_units r' @ ys"
  shows "r = r' \<and> xs = ys"
proof -
  have single: "v < 0x10000 \<Longrightarrow> scalar v \<Longrightarrow> utf16_units v = [v]" for v
    by (auto simp: utf16_units.simps scalar_def)
  have pair: "0x10000 \<le> v \<Longrightarrow> scalar v \<Longrightarrow>
      utf16_units v = [0xD800 + (v - 0x10000) div 0x400, 0xDC00 + (v - 0x10000) mod 0x400] \<and>
      (v - 0x10000) div 0x400 < 0x400" for v
    by (simp add: utf16_units.simps scalar_def div_less_iff_less_mult)
  have not_high: "scalar v \<Longrightarrow> n < 0x400 \<Longrightarrow> v \<noteq> 0xD800 + n" for v n
    by (auto simp: scalar_def)
  consider "r < 0x10000" "r' < 0x10000" | "r < 0x10000" "0x10000 \<le> r'"
    | "0x10000 \<le> r" "r' < 0x10000" | "0x10000 \<le> r" "0x10000 \<le> r'" by linarith
  then show ?thesis
  proof cases
    case 4
    then have "(r - 0x10000) div 0x400 = (r' - 0x10000) div 0x400" "(r - 0x10000) mod 0x400 = (r' - 0x10000) mod 0x400"
      "xs = ys"
      using pair assms by auto
    then have "r - 0x10000 = r' - 0x10000" by (metis div_mult_mod_eq)
    with 4 \<open>xs = ys\<close> show ?thesis by auto
  qed (use assms single pair not_high in \<open>force+\<close>)
qed

lemma utf16_encode_inject:
  "\<lbrakk> list_all scalar rs; list_all scalar rs'; utf16_encode rs = utf16_encode rs' \<rbrakk> \<Longrightarrow> rs = rs'"
proof (induction rs arbitrary: rs')
  case Nil
  then show ?case by (cases rs') (auto simp: utf16_encode_def utf16_units.simps split: if_splits)
next
  case (Cons r rs)
  then obtain r' rt where rs': "rs' = r' # rt"
    by (cases rs') (auto simp: utf16_encode_def utf16_units.simps split: if_splits)
  have eq: "utf16_units r @ utf16_encode rs = utf16_units r' @ utf16_encode rt"
    using Cons.prems(3) rs' by (simp add: utf16_encode_def)
  have "r = r' \<and> utf16_encode rs = utf16_encode rt"
    using Cons.prems(1,2) rs' by (intro scalar_units_inject [OF _ _ eq]) auto
  then show ?case using Cons.IH [of rt] Cons.prems(1,2) rs' by auto
qed

lemma less_units_irrefl: "\<not> less_units xs xs"
  by (induction xs) auto

lemma less_units_trans: "less_units xs ys \<Longrightarrow> less_units ys zs \<Longrightarrow> less_units xs zs"
  by (induction xs ys arbitrary: zs rule: less_units.induct) (case_tac zs; auto split: if_splits)+

lemma less_units_total: "less_units xs ys \<or> xs = ys \<or> less_units ys xs"
  by (induction xs ys rule: less_units.induct) auto

interpretation utf16: go_less lessUTF16 "{s. valid_utf8 s}"
proof
  show "\<not> lessUTF16 x x" for x by (simp add: lessUTF16_def less_units_irrefl)
  show "lessUTF16 x z" if "lessUTF16 x y" "lessUTF16 y z" for x y z
    using that less_units_trans by (auto simp: lessUTF16_def)
  show "lessUTF16 x y \<or> x = y \<or> lessUTF16 y x" if "x \<in> {s. valid_utf8 s}" "y \<in> {s. valid_utf8 s}" for x y
    using that less_units_total utf16_encode_inject valid_utf8_runes
    unfolding lessUTF16_def by (metis mem_Collect_eq)
qed

lemma isort_by_key_lookup:
  "distinct (map fst obj) \<Longrightarrow>
   isort by_key obj = map (\<lambda>k. (k, the (map_of obj k))) (isort lessUTF16 (map fst obj))"
proof -
  assume d: "distinct (map fst obj)"
  let ?f = "\<lambda>k. (k, the (map_of obj k))"
  have "obj = map ?f (map fst obj)"
    using d by (simp add: comp_def) (intro map_idI [symmetric]; auto)
  moreover have "isort by_key (map ?f ks) = map ?f (isort lessUTF16 ks)" for ks
    using map_isort [of ?f by_key ks] by (simp add: by_key_def [abs_def])
  ultimately show ?thesis by metis
qed

lemma jcs_object_order:
  assumes "distinct (map fst obj)" "\<forall>k \<in> fst ` set obj. valid_utf8 k" "mset obj' = mset obj"
  shows "jcsValue (JObj obj') = jcsValue (JObj obj)"
proof -
  have d': "distinct (map fst obj')" using assms(1,3) by (metis mset_map mset_eq_imp_distinct_iff)
  have keys: "isort lessUTF16 (map fst obj') = isort lessUTF16 (map fst obj)"
    using assms by (intro utf16.isort_mset_cong) (auto simp: mset_map)
  have "isort by_key obj' = isort by_key obj"
    using isort_by_key_lookup [OF assms(1)] isort_by_key_lookup [OF d'] keys
      map_of_perm [OF assms(1,3)] by simp
  then show ?thesis by (simp add: isort_by_key_map)
qed


section \<open>What the strict decoder returns\<close>

lemma nibble_less: "nibble b = Some n \<Longrightarrow> n < 16"
  by (auto simp: nibble_def Let_def split: if_splits)

lemma hex_fold_less: "hex_fold v bs = Some r \<Longrightarrow> r < (v + 1) * 16 ^ length bs"
proof (induction bs arbitrary: v)
  case (Cons b bs)
  then obtain n where n: "nibble b = Some n" "hex_fold (v * 16 + n) bs = Some r"
    by (auto split: option.splits)
  have "r < (v * 16 + n + 1) * 16 ^ length bs" using Cons.IH [OF n(2)] .
  also have "\<dots> \<le> ((v + 1) * 16) * 16 ^ length bs" using nibble_less [OF n(1)] by (intro mult_le_mono1) simp
  finally show ?case by (simp add: algebra_simps)
qed simp

lemma getu4_less: "getu4 s = Some r \<Longrightarrow> r < 0x10000"
  by (auto simp: getu4_def split: list.splits if_splits dest!: hex_fold_less)

lemma scalar_unit:
  "\<lbrakk> getu4 s = Some r; \<not> isHighSurrogate r; \<not> isLowSurrogate r \<rbrakk> \<Longrightarrow> scalar r"
  using getu4_less [of s r] by (auto simp: isHighSurrogate_def isLowSurrogate_def scalar_def)

lemma scalar_rune_error: "scalar rune_error" by (simp add: scalar_def rune_error_def)

lemma scalar_pair:
  "\<lbrakk> isHighSurrogate a; isLowSurrogate b \<rbrakk> \<Longrightarrow> scalar ((a - 0xD800) * 0x400 + (b - 0xDC00) + 0x10000)"
  by (auto simp: isHighSurrogate_def isLowSurrogate_def scalar_def)

lemma scalar_decode: "scalar (fst (decode_rune s))"
proof (cases "s = [] \<or> decode_rune s = (rune_error, 1)")
  case True
  then show ?thesis by (auto simp: scalar_rune_error decode_rune_def)
next
  case False
  then show ?thesis using decode_valid [of s "fst (decode_rune s)" "snd (decode_rune s)"] by (cases "decode_rune s") auto
qed

lemma simple_escape_ascii: "simple_escape e = Some x \<Longrightarrow> byte_val x < 0x80"
  by (auto simp: simple_escape_def split: if_splits)

lemma valid_utf8_unquote: "valid_utf8 (unquote s)"
proof (induction s rule: unquote.induct)
  case (2 c cs)
  show ?case
  proof (cases "c = CHR 0x5C")
    case True
    show ?thesis
    proof (cases "getu4 (c # cs)")
      case None
      with "2.IH"(1) [OF True None] True show ?thesis
        by (auto simp: unquote.simps(2) simple_escape_ascii split: option.split list.split)
    next
      case (Some rr)
      then show ?thesis
        using "2.IH"(2-5) [OF True Some] True scalar_unit [OF Some]
        by (auto simp: unquote.simps(2) scalar_rune_error scalar_pair split: option.split)
    qed
  next
    case False
    then show ?thesis
      using "2.IH"(6,7) [OF False] scalar_decode [of "c # cs"]
      by (auto simp: unquote.simps(2) split: prod.split)
  qed
qed simp

lemma parseIntegerNumber_range: "parseIntegerNumber s = Some v \<Longrightarrow> 0 \<le> v \<and> v \<le> maxSafeInt"
  by (auto simp: parseIntegerNumber_def split: if_splits option.splits)

lemma decode_wf:
  "decodeValue s = Some (v, r) \<Longrightarrow> jwf v"
  "\<lbrakk> decodeObject start out s = Some (v, r); jwf (JObj out) \<rbrakk> \<Longrightarrow> jwf v"
proof (induction s and start out s arbitrary: v r and v r rule: decodeValue_decodeObject.induct)
  case (1 s)
  from "1.prems" obtain c cs where sk: "skip_ws s = c # cs"
    by (auto simp: decodeValue.simps [of s] split: list.splits)
  show ?case
    using "1.prems" "1.IH" [OF sk] sk
    by (auto simp: decodeValue.simps [of s] valid_utf8_unquote split: if_splits option.splits
        dest: parseIntegerNumber_range)
next
  case (2 start out s)
  from "2.prems" obtain c cs where sk: "skip_ws s = c # cs"
    by (auto simp: decodeObject.simps [of start out s] split: list.splits)
  show ?case
  proof (cases "c = CHR ''}''")
    case True
    with "2.prems" sk show ?thesis by (simp add: decodeObject.simps [of start out s])
  next
    case False
    with "2.prems"(1) sk obtain q ks b r1 d r' v' r2 where *:
      "(if start then c # cs else if c = CHR '','' then skip_ws cs else []) = q # ks"
      "\<not> q \<noteq> CHR 0x22" "scan_string ks = Some (b, r1)" "unquote b \<notin> set (map fst out)"
      "skip_ws r1 = d # r'" "\<not> d \<noteq> CHR '':''" "decodeValue r' = Some (v', r2)" "length r2 < length s"
      "decodeObject False (out @ [(unquote b, v')]) r2 = Some (v, r)"
      by (auto simp: decodeObject.simps [of start out s] split: if_splits option.splits list.splits)
    have "jwf v'" by (rule "2.IH"(1) [OF sk False *(1,2,3) refl *(4,5,6,7)])
    then have "jwf (JObj (out @ [(unquote b, v')]))" using "2.prems"(2) *(4) by (auto simp: valid_utf8_unquote)
    then show ?thesis by (rule "2.IH"(2) [OF sk False *(1,2,3) refl *(4,5,6,7) refl *(8,9)])
  qed
qed

lemma decodeStrict_wf: "decodeStrict raw = Inr v \<Longrightarrow> jwf v"
  by (auto simp: decodeStrict_def decode_wf(1) split: option.splits if_splits)


section \<open>An example envelope\<close>

definition sample_decremented :: envelope where
  "sample_decremented =
     \<lparr>EventID = ''11111111-1111-4111-8111-111111111111'',
      TenantID = ''22222222-2222-4222-9222-2222222222ab'',
      EventType = EventTypeQuantityDecremented, EventSchemaVersion = 1,
      AggregateType = AggregateTypeInventoryItem, AggregateID = ''item-1'', AggregateVersion = 1,
      OccurredAt = ''2026-01-02T03:04:05Z'', RecordedAt = ''2026-01-02T03:04:05.25Z'',
      Producer = ProducerSyntheticERP, CorrelationID = ''33333333-3333-4333-a333-333333333333'',
      CausationID = None, TraceID = ''trace-1'',
      Payload = Some (QuantityDecremented
        \<lparr>qd_OrderID = ''44444444-4444-4444-B444-444444444444'', qd_ItemID = ''item-1'',
         qd_QuantityDecremented = 3, qd_QuantityBefore = 10, qd_QuantityAfter = 7\<rparr>)\<rparr>"

lemma sample_times:
  "valid_time ''2026-01-02T03:04:05Z''" "valid_time ''2026-01-02T03:04:05.25Z''"
proof -
  show "valid_time ''2026-01-02T03:04:05Z''"
    unfolding valid_time_def by (intro conjI; (simp; fail)?; code_simp)
  show "valid_time ''2026-01-02T03:04:05.25Z''"
    unfolding valid_time_def by (intro conjI; (simp; fail)?; code_simp)
qed

lemma sample_uuids:
  "valid_uuid ''11111111-1111-4111-8111-111111111111''" "valid_uuid ''22222222-2222-4222-9222-2222222222ab''"
  "valid_uuid ''33333333-3333-4333-a333-333333333333''" "valid_uuid ''44444444-4444-4444-B444-444444444444''"
  by (simp_all add: valid_uuid_def shape_simps)

lemma sample_tenant: "to_lower ''22222222-2222-4222-9222-2222222222ab'' = ''22222222-2222-4222-9222-2222222222ab''"
  by (rule ascii_lower_id) simp

lemma sample_item: "valid_id ''item-1''"
  by (simp add: valid_id_def requireCanonicalID_def ascii_lower_id is_space_def)

lemma sample_valid: "valid_envelope sample_decremented"
  by (simp add: valid_envelope_def sample_decremented_def sample_times sample_uuids sample_tenant sample_item
    trim_space_head is_space_def SchemaVersionV1_def maxSafeInt_def)

lemma CanonicalBytes_total: "valid_envelope env \<Longrightarrow> \<exists>b. CanonicalBytes env = Inr b"
proof -
  assume v: "valid_envelope env"
  then obtain p where "Payload env = Some p" by (auto simp: valid_envelope_def split: option.splits)
  with v show ?thesis using CanonicalBytes_valid by blast
qed

section \<open>Properties\<close>

text \<open>C1. Every envelope that validates has a canonical serialisation, and the strict parser
  reads that serialisation back as exactly the same envelope.\<close>

theorem canonical_roundtrip:
  assumes "Validate env = None"
  shows "\<exists>b. CanonicalBytes env = Inr b \<and> Parse b = Inr env"
  using assms CanonicalBytes_total Parse_canonical unfolding Validate_iff by blast

theorem canonical_roundtrip_witness:
  "\<exists>b. CanonicalBytes sample_decremented = Inr b \<and> Parse b = Inr sample_decremented"
  by (rule canonical_roundtrip) (simp add: Validate_iff sample_valid)

text \<open>C2. Whatever bytes the parser accepts, the envelope it returns validates, has a canonical
  form, and that form parses to the same envelope again: parsing and serialising normalise.\<close>

theorem parse_normalises:
  assumes "Parse raw = Inr env"
  shows "Validate env = None \<and> (\<exists>b. CanonicalBytes env = Inr b \<and> Parse b = Inr env)"
  using Parse_valid [OF assms] CanonicalBytes_total Parse_canonical unfolding Validate_iff by blast

theorem parse_normalises_witness:
  "\<exists>raw. Parse raw = Inr sample_decremented \<and> Validate sample_decremented = None \<and>
     (\<exists>b. CanonicalBytes sample_decremented = Inr b \<and> Parse b = Inr sample_decremented)"
proof -
  obtain raw where "CanonicalBytes sample_decremented = Inr raw"
    using CanonicalBytes_total [OF sample_valid] by blast
  then have "Parse raw = Inr sample_decremented" by (rule Parse_canonical)
  with parse_normalises [OF this] show ?thesis by blast
qed

text \<open>C3. The identity check is exact: two valid envelopes with the same event id conflict if and
  only if they differ, as long as SHA-256 does not collide on their two canonical forms.\<close>

theorem identity_conflict_exact:
  assumes "Validate a = None" "Validate b = None" "EventID a = EventID b"
    and "\<And>x y. \<lbrakk> CanonicalBytes a = Inr x; CanonicalBytes b = Inr y; sha256_hex x = sha256_hex y \<rbrakk> \<Longrightarrow> x = y"
  shows "CheckIdentityConflict a b = (if a = b then None else Some ErrIdentityConflict)"
proof -
  obtain x y where x: "CanonicalBytes a = Inr x" and y: "CanonicalBytes b = Inr y"
    using assms(1,2) CanonicalBytes_total unfolding Validate_iff by blast
  then have "x = y \<longleftrightarrow> a = b" using Parse_canonical by (metis sum.inject(2))
  with x y assms(3,4) show ?thesis by (auto simp: CheckIdentityConflict_def ContentHash_def)
qed

theorem identity_conflict_exact_witness:
  "CheckIdentityConflict sample_decremented sample_decremented = None"
  using identity_conflict_exact [of sample_decremented sample_decremented]
  by (simp add: Validate_iff sample_valid)

text \<open>C4. The canonical form of an object does not depend on the order in which Go's map
  iteration yields its members.\<close>

theorem jcs_order_independent:
  assumes "distinct (map fst obj)" "\<forall>k \<in> fst ` set obj. valid_utf8 k" "mset obj' = mset obj"
  shows "jcsValue (JObj obj') = jcsValue (JObj obj)"
  using assms by (rule jcs_object_order)

theorem jcs_order_independent_witness:
  "jcsValue (JObj [(''b'', JInt 2), (''a'', JInt 1)]) = jcsValue (JObj [(''a'', JInt 1), (''b'', JInt 2)])"
  by (rule jcs_order_independent) (auto simp: valid_utf8_ascii)

text \<open>C5. The strict decoder only returns well-formed values: valid UTF-8 strings, integers
  from 0 to the largest safe integer, and objects without duplicate members, at every depth; and
  each such value has a canonical form that decodes to it with its members in key order.\<close>

theorem decode_strict_wellformed:
  assumes "decodeStrict raw = Inr v"
  shows "jwf v \<and> (\<exists>t. jcsValue v = Inr t \<and> decodeStrict t = Inr (jnorm v))"
  using decodeStrict_wf [OF assms] jcsValue_reads reads_decodeStrict by blast

lemma sample_object: "decodeStrict ''{ }'' = Inr (JObj [])"
  by (simp add: decodeStrict_def ensureJCSCompatibleJSON_def rejectUnpairedSurrogateEscapes_def
      decodeValue.simps decodeObject.simps skip_ws_def is_json_space_def)

theorem decode_strict_wellformed_witness:
  "decodeStrict ''{ }'' = Inr (JObj []) \<and> jwf (JObj []) \<and>
   (\<exists>t. jcsValue (JObj []) = Inr t \<and> decodeStrict t = Inr (jnorm (JObj [])))"
  using decode_strict_wellformed [OF sample_object] sample_object by blast

end
