(* ===== verification/Erp_Schema.thy ===== *)
theory Erp_Schema
  imports Sql Event_Canon
begin

text \<open>
  Package \<^verbatim>\<open>erp\<close>: the tables of \<^verbatim>\<open>erp/migrate.sql\<close>, the sentinel errors, the commands and their
  field checks (\<^verbatim>\<open>erp/errors.go\<close>, the second half of \<^verbatim>\<open>erp/accept.go\<close>, \<^verbatim>\<open>erp/outbox.go\<close>).

  Keys, \<^verbatim>\<open>UNIQUE\<close>, \<^verbatim>\<open>CHECK\<close> and foreign-key constraints are part of the statements that could
  violate them. Times are stored in microseconds. Any database error that is not a unique
  violation is \<open>ErpDB\<close>; a missing argument is \<open>ErpArgument\<close>.
\<close>

section \<open>Errors\<close>

datatype erp_error =
    ErrInvalidQuantity | ErrUnknownItem | ErrUnknownSource | ErrTenantMismatch | ErrInvalidTransition
  | ErrDuplicateOrder | ErrDuplicateSource | ErrDuplicateEvent | ErrInvalidFixture
  | ErpEvent event_error | ErpDB | ErpArgument

section \<open>Tables\<close>

record inventory_item =
  ii_tenant :: string
  ii_item :: string
  ii_quantity :: int
  ii_version :: int

record order_row =
  or_order :: string
  or_tenant :: string
  or_item :: string
  or_quantity :: int
  or_occurred :: int
  or_correlation :: string
  or_trace :: string
  or_accepted :: int

record supplier_row =
  su_tenant :: string
  su_supplier :: string
  su_version :: int
  su_registered :: int
  su_correlation :: string
  su_trace :: string

record lot_row =
  lo_tenant :: string
  lo_lot :: string
  lo_supplier :: string
  lo_item :: string
  lo_version :: int
  lo_received :: int
  lo_correlation :: string
  lo_trace :: string

record batch_row =
  ba_tenant :: string
  ba_batch :: string
  ba_lot :: string
  ba_version :: int
  ba_produced :: int
  ba_correlation :: string
  ba_trace :: string

record shipment_row =
  sh_tenant :: string
  sh_shipment :: string
  sh_batch :: string
  sh_order :: string
  sh_version :: int
  sh_dispatched :: int
  sh_correlation :: string
  sh_trace :: string

datatype outbox_status = Pending | Publishing | Published | Quarantined

record outbox_row =
  ob_event :: string
  ob_tenant :: string
  ob_atype :: string
  ob_aid :: string
  ob_version :: int
  ob_hash :: string
  ob_bytes :: string
  ob_status :: outbox_status
  ob_recorded :: int
  ob_owner :: "string option"
  ob_expires :: "int option"
  ob_attempts :: int
  ob_error :: "string option"
  ob_created :: int

record erp_db =
  items :: "inventory_item list"
  orders :: "order_row list"
  suppliers :: "supplier_row list"
  lots :: "lot_row list"
  batches :: "batch_row list"
  shipments :: "shipment_row list"
  outbox :: "outbox_row list"

definition empty_erp :: erp_db where
  "empty_erp = \<lparr>items = [], orders = [], suppliers = [], lots = [], batches = [], shipments = [], outbox = []\<rparr>"

definition find_item :: "erp_db \<Rightarrow> string \<Rightarrow> string \<Rightarrow> inventory_item option" where
  "find_item db t i = find (\<lambda>r. ii_tenant r = t \<and> ii_item r = i) (items db)"

section \<open>Commands\<close>

record OrderCommand =
  oc_EventID :: string
  oc_TenantID :: string
  oc_OrderID :: string
  oc_ItemID :: string
  oc_Quantity :: int
  oc_OccurredAt :: string
  oc_RecordedAt :: string
  oc_CorrelationID :: string
  oc_CausationID :: "string option"
  oc_TraceID :: string

record AcceptResult =
  ar_OrderID :: string
  ar_TenantID :: string
  ar_ItemID :: string
  ar_QuantityBefore :: int
  ar_QuantityAfter :: int
  ar_AggregateVersion :: int
  ar_EventID :: string
  ar_ContentHash :: string
  ar_EventBytes :: string
  ar_OutboxStatus :: outbox_status

section \<open>Field checks\<close>

definition isHex :: "nat \<Rightarrow> bool" where
  "isHex r \<longleftrightarrow> (0x30 \<le> r \<and> r \<le> 0x39) \<or> (0x61 \<le> r \<and> r \<le> 0x66)"

text \<open>The byte offset and the rune of each step of a \<^verbatim>\<open>range\<close> loop over a string.\<close>

fun rune_offsets :: "nat \<Rightarrow> string list \<Rightarrow> (nat \<times> nat) list" where
  "rune_offsets i [] = []"
| "rune_offsets i (c # cs) = (i, chunk_rune c) # rune_offsets (i + length c) cs"

text \<open>A check that returns an error the caller replaces is a boolean; \<open>True\<close> is \<^verbatim>\<open>nil\<close>. The
  index expressions are in range whenever they are reached (\<open>erp_requireUUID_iff\<close>).\<close>

definition erp_requireUUID :: "string \<Rightarrow> bool" where
  "erp_requireUUID v \<longleftrightarrow>
     valid_utf8 v \<and> length v = 36 \<and>
     (let lower = to_lower v in
      list_all (\<lambda>(i, c). if i \<in> {8, 13, 18, 23} then c = 0x2D else isHex c) (rune_offsets 0 (rune_chunks lower)) \<and>
      lower ! 14 = CHR ''4'' \<and>
      (lower ! 19 = CHR ''8'' \<or> lower ! 19 = CHR ''9'' \<or> lower ! 19 = CHR ''a'' \<or> lower ! 19 = CHR ''b''))"

definition erp_requireLowerUUID :: "string \<Rightarrow> bool" where
  "erp_requireLowerUUID v \<longleftrightarrow> erp_requireUUID v \<and> v = to_lower v"

definition erp_requireCanonicalID :: "string \<Rightarrow> bool" where
  "erp_requireCanonicalID v \<longleftrightarrow>
     \<not> (v = [] \<or> \<not> valid_utf8 v) \<and> v = to_lower v \<and> \<not> list_ex is_space (runes v)"

definition requireOptionalUUID :: "string option \<Rightarrow> bool" where
  "requireOptionalUUID v = (case v of None \<Rightarrow> True | Some u \<Rightarrow> erp_requireUUID u)"

definition parseTimeZ :: "string \<Rightarrow> gotime option" where
  "parseTimeZ v =
     (if \<not> valid_utf8 v then None
      else (case parse_rfc3339 v of
              None \<Rightarrow> None
            | Some t \<Rightarrow> if v = [] \<or> last v \<noteq> CHR ''Z'' then None else Some t))"

definition checks :: "(bool \<times> erp_error) list \<Rightarrow> erp_error option" where
  "checks cs = first_error (map (\<lambda>(ok, e). if ok then None else Some e) cs)"

lemma checks_None [err_simps]: "checks cs = None \<longleftrightarrow> (\<forall>(ok, e) \<in> set cs. ok)"
  by (induction cs) (auto simp: checks_def split: if_splits)

definition validateCommand :: "OrderCommand \<Rightarrow> erp_error option" where
  "validateCommand cmd = checks
     [(\<not> (oc_Quantity cmd < 1 \<or> oc_Quantity cmd > maxSafeInt), ErrInvalidQuantity),
      (erp_requireLowerUUID (oc_TenantID cmd), ErrTenantMismatch),
      (erp_requireUUID (oc_OrderID cmd), ErrTenantMismatch),
      (erp_requireUUID (oc_EventID cmd), ErrTenantMismatch),
      (erp_requireUUID (oc_CorrelationID cmd), ErrTenantMismatch),
      (erp_requireCanonicalID (oc_ItemID cmd), ErrTenantMismatch),
      (\<not> (trim_space (oc_TraceID cmd) = [] \<or> \<not> valid_utf8 (oc_TraceID cmd)), ErrTenantMismatch),
      (parseTimeZ (oc_OccurredAt cmd) \<noteq> None, ErrTenantMismatch),
      (parseTimeZ (oc_RecordedAt cmd) \<noteq> None, ErrTenantMismatch),
      (requireOptionalUUID (oc_CausationID cmd), ErrTenantMismatch)]"

section \<open>Outbox\<close>

definition requireCausation :: "string option \<Rightarrow> string \<Rightarrow> erp_error option" where
  "requireCausation got want = (if got = None \<or> the got \<noteq> want then Some ErrInvalidTransition else None)"

text \<open>\<^verbatim>\<open>ORDER BY aggregate_version LIMIT 1\<close>; versions are unique within an aggregate.\<close>

definition first_by_version :: "outbox_row list \<Rightarrow> outbox_row option" where
  "first_by_version rs = (case isort (\<lambda>a b. ob_version a < ob_version b) rs of [] \<Rightarrow> None | r # _ \<Rightarrow> Some r)"

definition aggregate_rows :: "erp_db \<Rightarrow> string \<Rightarrow> string \<Rightarrow> string \<Rightarrow> outbox_row list" where
  "aggregate_rows db t ty i = filter (\<lambda>r. ob_tenant r = t \<and> ob_atype r = ty \<and> ob_aid r = i) (outbox db)"

definition parentOutboxEventID :: "string \<Rightarrow> string \<Rightarrow> string \<Rightarrow> (erp_db, erp_error, string) tx" where
  "parentOutboxEventID tenantID aggregateType aggregateID =
     tx_bind (tx_query ErpDB [tenantID, aggregateType, aggregateID]
                (\<lambda>db. first_by_version (aggregate_rows db tenantID aggregateType aggregateID)))
       (\<lambda>row. case row of None \<Rightarrow> tx_fail ErrUnknownSource | Some r \<Rightarrow> tx_return (ob_event r))"

definition new_outbox_row :: "envelope \<Rightarrow> string \<Rightarrow> string \<Rightarrow> gotime \<Rightarrow> int \<Rightarrow> outbox_row" where
  "new_outbox_row env bytes hash recordedAt now =
     \<lparr>ob_event = EventID env, ob_tenant = TenantID env, ob_atype = AggregateType env, ob_aid = AggregateID env,
      ob_version = AggregateVersion env, ob_hash = hash, ob_bytes = bytes, ob_status = Pending,
      ob_recorded = pg_time recordedAt, ob_owner = None, ob_expires = None, ob_attempts = 0,
      ob_error = None, ob_created = now\<rparr>"

definition insert_outbox :: "outbox_row \<Rightarrow> erp_db \<Rightarrow> erp_error + (unit \<times> erp_db)" where
  "insert_outbox r db =
     (if \<not> ob_version r \<ge> 1 then Inl ErpDB
      else if list_ex (\<lambda>x. ob_event x = ob_event r) (outbox db) \<or>
              list_ex (\<lambda>x. ob_tenant x = ob_tenant r \<and> ob_atype x = ob_atype r \<and> ob_aid x = ob_aid r \<and>
                           ob_version x = ob_version r) (outbox db)
      then Inl ErrDuplicateEvent
      else Inr ((), db\<lparr>outbox := outbox db @ [r]\<rparr>))"

definition insertPendingOutbox ::
  "int \<Rightarrow> envelope \<Rightarrow> gotime \<Rightarrow> (erp_db, erp_error, string \<times> string) tx" where
  "insertPendingOutbox now env recordedAt =
     (case Validate env of
        Some e \<Rightarrow> tx_fail (ErpEvent e)
      | None \<Rightarrow>
          (case CanonicalBytes env of
             Inl e \<Rightarrow> tx_fail (ErpEvent e)
           | Inr eventBytes \<Rightarrow>
               (case ContentHash env of
                  Inl e \<Rightarrow> tx_fail (ErpEvent e)
                | Inr contentHash \<Rightarrow>
                    tx_bind (tx_stmt ErpDB [EventID env, TenantID env, AggregateType env, AggregateID env, contentHash]
                               (insert_outbox (new_outbox_row env eventBytes contentHash recordedAt now)))
                      (\<lambda>_. tx_return (eventBytes, contentHash)))))"

lemma insertPendingOutbox_Inr [sql_simps]:
  "insertPendingOutbox now env rec db fs = (Inr y, db', fs') \<longleftrightarrow>
   Validate env = None \<and> CanonicalBytes env = Inr (fst y) \<and> snd y = sha256_hex (fst y) \<and>
   list_all pg_text_ok [EventID env, TenantID env, AggregateType env, AggregateID env, snd y] \<and>
   insert_outbox (new_outbox_row env (fst y) (snd y) rec now) db = Inr ((), db') \<and>
   \<not> fst (pop False fs) \<and> fs' = snd (pop False fs)"
  by (cases y; cases "Validate env"; cases "CanonicalBytes env")
    (auto simp: insertPendingOutbox_def ContentHash_def sql_simps)

lemma insert_outbox_Inr [sql_simps]:
  "insert_outbox r db = Inr (u, db') \<longleftrightarrow>
   1 \<le> ob_version r \<and> ob_event r \<notin> ob_event ` set (outbox db) \<and>
   (\<forall>x \<in> set (outbox db). \<not> (ob_tenant x = ob_tenant r \<and> ob_atype x = ob_atype r \<and> ob_aid x = ob_aid r \<and>
      ob_version x = ob_version r)) \<and> db' = db\<lparr>outbox := outbox db @ [r]\<rparr>"
  by (auto simp: insert_outbox_def list_ex_iff image_iff) metis

section \<open>The ERP's identifier checks agree with the event contract\<close>

lemma lower_table_ascii:
  "list_all (\<lambda>(lo, hi, st, d). 0x80 \<le> int lo + d \<or> (lo = hi \<and> (int lo + d = 0x69 \<or> int lo + d = 0x6B))) lower_table"
  by (simp add: lower_table_def)

lemma lower_lookup_cases:
  "lower_lookup rows r = r \<or>
   (\<exists>(lo, hi, st, d) \<in> set rows. lo \<le> r \<and> r \<le> hi \<and> lower_lookup rows r = nat (int r + d))"
  by (induction rows r rule: lower_lookup.induct) auto

text \<open>Only the dotted capital I and the Kelvin sign have an ASCII lower case.\<close>

lemma lower_rune_high:
  assumes "0x80 \<le> r" shows "0x80 \<le> lower_rune r \<or> lower_rune r = 0x69 \<or> lower_rune r = 0x6B"
proof (cases "lower_rune r = r")
  case False
  then obtain lo hi st d where row: "(lo, hi, st, d) \<in> set lower_table" "lo \<le> r" "r \<le> hi"
    "lower_rune r = nat (int r + d)"
    using lower_lookup_cases [of lower_table r] assms by (auto simp: lower_rune_def)
  then have "0x80 \<le> int lo + d \<or> (lo = hi \<and> (int lo + d = 0x69 \<or> int lo + d = 0x6B))"
    using lower_table_ascii by (auto simp: list_all_iff)
  with row(2-4) show ?thesis by auto
qed (use assms in simp)

lemma rune_chunks_ascii: "ascii s \<Longrightarrow> rune_chunks s = map (\<lambda>c. [c]) s"
proof (induction s)
  case (Cons c s)
  then have "decode_rune (c # s) = (byte_val c, 1)"
    using decode_encode [of "byte_val c" s] by (simp add: encode_ascii scalar_ascii)
  with Cons show ?case by (simp add: rune_chunks.simps(2))
qed simp

lemma chunk_rune_ascii: "byte_val c < 0x80 \<Longrightarrow> chunk_rune [c] = byte_val c"
  using decode_encode [of "byte_val c" "[]"] by (simp add: chunk_rune_def encode_ascii scalar_ascii)

lemma rune_offsets_ascii:
  "ascii s \<Longrightarrow> rune_offsets i (map (\<lambda>c. [c]) s) = enumerate i (map byte_val s)"
  by (induction s arbitrary: i) (auto simp: chunk_rune_ascii)

lemma snd_rune_offsets: "map snd (rune_offsets i cs) = map chunk_rune cs"
  by (induction cs arbitrary: i) auto

lemma runes_chunks: "runes s = map chunk_rune (rune_chunks s)"
proof (induction s rule: runes.induct)
  case (2 b bs)
  have "decode_rune (take n (b # bs)) = decode_rune (b # bs)" if "decode_rune (b # bs) = (r, n)" for r n
  proof (cases "r = rune_error \<and> n = 1")
    case True
    then show ?thesis using that
      by (auto simp: decode_rune_def Let_def rune_error_def split: list.splits if_splits)
  next
    case False
    with decode_valid [OF that] have "b # bs = encode_rune r @ drop n (b # bs)" "n = length (encode_rune r)" "scalar r"
      by auto
    then have "take n (b # bs) = encode_rune r" by (metis append_eq_conv_conj)
    with \<open>scalar r\<close> \<open>n = length (encode_rune r)\<close> that show ?thesis using decode_encode [of r "[]"] by simp
  qed
  then have "fst (decode_rune (take (snd (decode_rune (b # bs))) (b # bs))) = fst (decode_rune (b # bs))"
    by (metis prod.collapse)
  with 2 show ?case by (simp add: runes.simps(2) rune_chunks.simps(2) Let_def chunk_rune_def)
qed simp

lemma lower_byte_val:
  "byte_val (lower_byte c) = (if 0x41 \<le> byte_val c \<and> byte_val c \<le> 0x5A then byte_val c + 32 else byte_val c)"
  by (simp add: lower_byte_def)

lemma char_eq_byte_val: "c = d \<longleftrightarrow> byte_val c = byte_val d"
  by (metis char_of_char)

lemma lower_byte_hex: "isHex (byte_val (lower_byte c)) \<longleftrightarrow> is_hex_any c"
  by (auto simp: isHex_def is_hex_any_def is_digit_def lower_byte_val)

lemma lower_byte_eq:
  "byte_val (lower_byte c) = 0x2D \<longleftrightarrow> c = CHR ''-''"
  "lower_byte c = CHR ''4'' \<longleftrightarrow> c = CHR ''4''" "lower_byte c = CHR ''8'' \<longleftrightarrow> c = CHR ''8''"
  "lower_byte c = CHR ''9'' \<longleftrightarrow> c = CHR ''9''"
  "lower_byte c = CHR ''a'' \<longleftrightarrow> c = CHR ''a'' \<or> c = CHR ''A''"
  "lower_byte c = CHR ''b'' \<longleftrightarrow> c = CHR ''b'' \<or> c = CHR ''B''"
  by (auto simp: char_eq_byte_val [of "lower_byte c"] char_eq_byte_val [of c] lower_byte_val split: if_splits)

lemma is_variant_hex: "is_variant_any c \<Longrightarrow> is_hex_any c"
  by (auto simp: is_variant_any_def is_hex_any_def is_digit_def)

lemma match_shape_nth:
  "match_shape ps v \<longleftrightarrow> length v = length ps \<and> (\<forall>i < length ps. (ps ! i) (v ! i))"
  by (auto simp: match_shape_def list_all2_conv_all_nth)

lemma uuid_length: "length uuidV4Regexp = 36"
  by (simp add: uuid_shape)

definition uuid_class :: "nat \<Rightarrow> char \<Rightarrow> bool" where
  "uuid_class i c \<longleftrightarrow>
     (if i \<in> {8, 13, 18, 23} then c = CHR ''-''
      else if i = 14 then c = CHR ''4'' else if i = 19 then is_variant_any c else is_hex_any c)"

lemma all_less_36: "(\<forall>i < 36. P i) \<longleftrightarrow> list_all P [0..<36]"
  by (auto simp: list_all_iff)

lemma upt_36: "[0..<36] = [0,1,2,3,4,5,6,7,8,9,10,11,12,13,14,15,16,17,18,19,20,21,22,23,24,25,26,27,28,29,30,31,32,33,34,35]"
  by (simp add: upt_rec)

lemma uuid_class_nth: "\<forall>i < 36. \<forall>c. (uuidV4Regexp ! i) c \<longleftrightarrow> uuid_class i c"
  unfolding all_less_36 upt_36 list.pred_inject uuid_shape uuid_class_def
  by (intro conjI allI) simp_all

lemma uuid_ascii: "uuid_class i c \<Longrightarrow> byte_val c < 0x80"
  by (auto simp: uuid_class_def is_hex_any_def is_digit_def is_variant_any_def split: if_splits)

lemma match_uuid: "match_shape uuidV4Regexp v \<longleftrightarrow> length v = 36 \<and> (\<forall>i < 36. uuid_class i (v ! i))"
  using uuid_class_nth by (auto simp: match_shape_nth uuid_length)

lemma match_uuid_ascii: "match_shape uuidV4Regexp v \<Longrightarrow> ascii v"
  by (auto simp: match_uuid ascii_def list_all_length dest: uuid_ascii)

lemma list_all_enumerate: "list_all P (enumerate 0 xs) \<longleftrightarrow> (\<forall>i < length xs. P (i, xs ! i))"
  by (auto simp: list_all_length nth_enumerate_eq)

lemma uuid_class_iff:
  "uuid_class i c \<longleftrightarrow> (if i \<in> {8, 13, 18, 23} then c = CHR ''-'' else is_hex_any c) \<and>
     (i = 14 \<longrightarrow> c = CHR ''4'') \<and> (i = 19 \<longrightarrow> is_variant_any c)"
  using is_variant_hex [of c] by (auto simp: uuid_class_def is_hex_any_def is_digit_def)

lemma erp_uuid_ascii_iff:
  assumes "ascii v" "length v = 36" shows "erp_requireUUID v \<longleftrightarrow> match_shape uuidV4Regexp v"
proof -
  have low: "to_lower v = map lower_byte v" using assms(1) by (rule to_lower_ascii)
  have asc: "ascii (map lower_byte v)"
    using assms(1) by (auto simp: ascii_def list_all_iff lower_byte_val)
  have loop: "list_all (\<lambda>(i, c). if i \<in> {8, 13, 18, 23} then c = 0x2D else isHex c)
      (rune_offsets 0 (rune_chunks (to_lower v))) \<longleftrightarrow>
    (\<forall>i < 36. if i \<in> {8, 13, 18, 23} then v ! i = CHR ''-'' else is_hex_any (v ! i))"
    unfolding low rune_chunks_ascii [OF asc] rune_offsets_ascii [OF asc] list_all_enumerate
    using assms(2) by (simp add: lower_byte_hex lower_byte_eq(1) cong: if_cong)
  have "to_lower v ! 14 = lower_byte (v ! 14)" "to_lower v ! 19 = lower_byte (v ! 19)"
    using assms(2) by (simp_all add: low)
  then have "erp_requireUUID v \<longleftrightarrow>
      (\<forall>i < 36. if i \<in> {8, 13, 18, 23} then v ! i = CHR ''-'' else is_hex_any (v ! i)) \<and>
      v ! 14 = CHR ''4'' \<and> is_variant_any (v ! 19)"
    unfolding erp_requireUUID_def Let_def loop
    using assms valid_utf8_ascii [OF assms(1)] by (simp add: lower_byte_eq is_variant_any_def) blast
  moreover have "(\<forall>i < 36. uuid_class i (v ! i)) \<longleftrightarrow>
      (\<forall>i < 36. if i \<in> {8, 13, 18, 23} then v ! i = CHR ''-'' else is_hex_any (v ! i)) \<and>
      v ! 14 = CHR ''4'' \<and> is_variant_any (v ! 19)"
    unfolding uuid_class_iff by (simp only: imp_conjR all_conj_distrib) simp
  ultimately show ?thesis using assms(2) by (simp add: match_uuid)
qed

lemma lower_table_scalar:
  "list_all (\<lambda>(lo, hi, st, d). 0 \<le> int lo + d \<and>
     (int hi + d < 0xD800 \<or> (0xE000 \<le> int lo + d \<and> int hi + d \<le> 0x10FFFF))) lower_table"
  by (simp add: lower_table_def)

lemma lower_rune_scalar: assumes "scalar r" shows "scalar (lower_rune r)"
proof (cases "lower_rune r = r \<or> r < 0x80")
  case True
  then show ?thesis using assms by (auto simp: lower_rune_def scalar_def)
next
  case False
  then obtain lo hi st d where row: "(lo, hi, st, d) \<in> set lower_table" "lo \<le> r" "r \<le> hi"
    "lower_rune r = nat (int r + d)"
    using lower_lookup_cases [of lower_table r] by (auto simp: lower_rune_def)
  then have "0 \<le> int lo + d \<and> (int hi + d < 0xD800 \<or> (0xE000 \<le> int lo + d \<and> int hi + d \<le> 0x10FFFF))"
    using lower_table_scalar by (auto simp: list_all_iff)
  with row(2-4) show ?thesis by (auto simp: scalar_def)
qed

lemma erp_uuid_ascii:
  assumes "erp_requireUUID v" shows "ascii v"
proof -
  have v: "valid_utf8 v" using assms by (simp add: erp_requireUUID_def)
  define rs where "rs = runes v"
  have utf: "v = utf8 rs" "list_all scalar rs" using valid_utf8_runes [OF v] by (simp_all add: rs_def)
  have low_sc: "list_all scalar (map lower_rune rs)"
    using utf(2) lower_rune_scalar by (auto simp: list_all_iff)
  have low: "to_lower v = utf8 (map lower_rune rs)"
    by (simp add: to_lower_def utf8_def rs_def comp_def)
  have "\<forall>c \<in> set (map snd (rune_offsets 0 (rune_chunks (to_lower v)))). c = 0x2D \<or> isHex c"
    using assms by (fastforce simp: erp_requireUUID_def Let_def list_all_iff split: if_splits)
  then have "\<forall>c \<in> set (runes (to_lower v)). c = 0x2D \<or> isHex c"
    by (simp only: snd_rune_offsets runes_chunks)
  then have "\<forall>r \<in> set rs. lower_rune r = 0x2D \<or> isHex (lower_rune r)"
    using low low_sc by simp
  then have low_hex: "lower_rune r = 0x2D \<or> isHex (lower_rune r)" if "r \<in> set rs" for r using that by blast
  have small: "r < 0x80" if "r \<in> set rs" for r
    using lower_rune_high [of r] low_hex [OF that] by (cases "r < 0x80") (auto simp: isHex_def)
  have "list_all (\<lambda>r. r < 0x80) rs \<Longrightarrow> ascii (utf8 rs)"
    by (induction rs) (auto simp: encode_rune_def)
  with small utf(1) show ?thesis by (simp add: list_all_iff)
qed

lemma erp_requireUUID_iff: "erp_requireUUID v \<longleftrightarrow> match_shape uuidV4Regexp v"
proof
  assume "erp_requireUUID v"
  then show "match_shape uuidV4Regexp v"
    using erp_uuid_ascii erp_uuid_ascii_iff by (auto simp: erp_requireUUID_def)
next
  assume m: "match_shape uuidV4Regexp v"
  then have "length v = 36" by (simp add: match_uuid)
  with m show "erp_requireUUID v" using match_uuid_ascii erp_uuid_ascii_iff by blast
qed

end
