(* ===== verification/Erp_Source.thy ===== *)
theory Erp_Source
  imports Erp_Schema
begin

text \<open>
  Package \<^verbatim>\<open>erp\<close>: the source transactions (\<^verbatim>\<open>erp/accept.go\<close>, \<^verbatim>\<open>erp/lineage.go\<close>, the reset and the
  inventory seed of \<^verbatim>\<open>erp/seed.go\<close>), and what each of them does to the database when it
  succeeds.

  A transaction is a body run by \<open>transact\<close>; \<^verbatim>\<open>commitSource\<close> is the commit of \<open>transact\<close>, whose
  test hook is one more way for a commit to fail. \<^verbatim>\<open>FOR UPDATE\<close> takes locks only.
\<close>

section \<open>AcceptOrder\<close>

definition requireOrderShipmentCausation :: "OrderCommand \<Rightarrow> (erp_db, erp_error, unit) tx" where
  "requireOrderShipmentCausation cmd =
     tx_bind (tx_query ErpDB [oc_TenantID cmd, oc_OrderID cmd]
       (\<lambda>db. find (\<lambda>r. sh_tenant r = oc_TenantID cmd \<and> sh_order r = oc_OrderID cmd) (shipments db)))
     (\<lambda>row. case row of
        None \<Rightarrow> if oc_CausationID cmd \<noteq> None then tx_fail ErrInvalidTransition else tx_return ()
      | Some r \<Rightarrow>
          tx_bind (parentOutboxEventID (oc_TenantID cmd) AggregateTypeShipment (sh_shipment r)) (\<lambda>parentID.
          (case requireCausation (oc_CausationID cmd) parentID of
             Some e \<Rightarrow> tx_fail e
           | None \<Rightarrow> tx_return ())))"

definition update_inventory ::
  "string \<Rightarrow> string \<Rightarrow> int \<Rightarrow> int \<Rightarrow> erp_db \<Rightarrow> erp_error + (unit \<times> erp_db)" where
  "update_inventory t i q v db =
     (if list_ex (\<lambda>r. ii_tenant r = t \<and> ii_item r = i) (items db) \<and> \<not> (q \<ge> 0 \<and> v \<ge> 0) then Inl ErpDB
      else Inr ((), db\<lparr>items := map (\<lambda>r. if ii_tenant r = t \<and> ii_item r = i
                                         then r\<lparr>ii_quantity := q, ii_version := v\<rparr> else r) (items db)\<rparr>))"

definition insert_order :: "order_row \<Rightarrow> erp_db \<Rightarrow> erp_error + (unit \<times> erp_db)" where
  "insert_order r db =
     (if \<not> or_quantity r \<ge> 1 then Inl ErpDB
      else if list_ex (\<lambda>x. or_order x = or_order r) (orders db) then Inl ErrDuplicateOrder
      else Inr ((), db\<lparr>orders := orders db @ [r]\<rparr>))"

definition order_envelope :: "OrderCommand \<Rightarrow> int \<Rightarrow> int \<Rightarrow> int \<Rightarrow> envelope" where
  "order_envelope cmd quantityOnHand quantityAfter nextVersion =
     \<lparr>EventID = oc_EventID cmd, TenantID = oc_TenantID cmd, EventType = EventTypeQuantityDecremented,
      EventSchemaVersion = SchemaVersionV1, AggregateType = AggregateTypeInventoryItem,
      AggregateID = oc_ItemID cmd, AggregateVersion = nextVersion, OccurredAt = oc_OccurredAt cmd,
      RecordedAt = oc_RecordedAt cmd, Producer = ProducerSyntheticERP, CorrelationID = oc_CorrelationID cmd,
      CausationID = oc_CausationID cmd, TraceID = oc_TraceID cmd,
      Payload = Some (QuantityDecremented
        \<lparr>qd_OrderID = oc_OrderID cmd, qd_ItemID = oc_ItemID cmd, qd_QuantityDecremented = oc_Quantity cmd,
         qd_QuantityBefore = quantityOnHand, qd_QuantityAfter = quantityAfter\<rparr>)\<rparr>"

definition new_order :: "OrderCommand \<Rightarrow> gotime \<Rightarrow> int \<Rightarrow> order_row" where
  "new_order cmd occurredAt now =
     \<lparr>or_order = oc_OrderID cmd, or_tenant = oc_TenantID cmd, or_item = oc_ItemID cmd,
      or_quantity = oc_Quantity cmd, or_occurred = pg_time occurredAt,
      or_correlation = oc_CorrelationID cmd, or_trace = oc_TraceID cmd, or_accepted = now\<rparr>"

definition time_or_mismatch :: "string \<Rightarrow> (erp_db, erp_error, gotime) tx" where
  "time_or_mismatch v = (case parseTimeZ v of None \<Rightarrow> tx_fail ErrTenantMismatch | Some t \<Rightarrow> tx_return t)"

definition AcceptOrder_tx :: "OrderCommand \<Rightarrow> int \<Rightarrow> (erp_db, erp_error, AcceptResult) tx" where
  "AcceptOrder_tx cmd now =
     tx_bind (tx_query ErpDB [oc_TenantID cmd, oc_ItemID cmd] (\<lambda>db. find_item db (oc_TenantID cmd) (oc_ItemID cmd)))
     (\<lambda>row. case row of
        None \<Rightarrow> tx_fail ErrUnknownItem
      | Some it \<Rightarrow>
          if ii_tenant it \<noteq> oc_TenantID cmd then tx_fail ErrTenantMismatch
          else if ii_quantity it < oc_Quantity cmd then tx_fail ErrInvalidTransition
          else
            (let quantityOnHand = ii_quantity it;
                 quantityAfter = wrap64 (quantityOnHand - oc_Quantity cmd);
                 nextVersion = wrap64 (ii_version it + 1)
             in if nextVersion < 1 \<or> nextVersion > maxSafeInt then tx_fail ErrInvalidTransition
                else
                  tx_bind (requireOrderShipmentCausation cmd) (\<lambda>_.
                  tx_bind (tx_stmt ErpDB [oc_TenantID cmd, oc_ItemID cmd]
                    (update_inventory (oc_TenantID cmd) (oc_ItemID cmd) quantityAfter nextVersion)) (\<lambda>_.
                  tx_bind (time_or_mismatch (oc_OccurredAt cmd)) (\<lambda>occurredAt.
                  tx_bind (time_or_mismatch (oc_RecordedAt cmd)) (\<lambda>recordedAt.
                  tx_bind (tx_stmt ErpDB [oc_OrderID cmd, oc_TenantID cmd, oc_ItemID cmd, oc_CorrelationID cmd, oc_TraceID cmd]
                    (insert_order (new_order cmd occurredAt now))) (\<lambda>_.
                  tx_bind (insertPendingOutbox now (order_envelope cmd quantityOnHand quantityAfter nextVersion) recordedAt)
                    (\<lambda>(eventBytes, contentHash).
                  tx_return
                    \<lparr>ar_OrderID = oc_OrderID cmd, ar_TenantID = oc_TenantID cmd, ar_ItemID = oc_ItemID cmd,
                     ar_QuantityBefore = quantityOnHand, ar_QuantityAfter = quantityAfter,
                     ar_AggregateVersion = nextVersion, ar_EventID = oc_EventID cmd,
                     ar_ContentHash = contentHash, ar_EventBytes = eventBytes,
                     ar_OutboxStatus = Pending\<rparr>))))))))"

definition AcceptOrder :: "OrderCommand \<Rightarrow> erp_db world \<Rightarrow> (erp_error + AcceptResult) \<times> erp_db world" where
  "AcceptOrder cmd = lift_world (validateCommand cmd) (transact ErpDB ErpDB (AcceptOrder_tx cmd))"

section \<open>Lineage hops\<close>

record SourceAcceptResult =
  sa_AggregateID :: string
  sa_AggregateType :: string
  sa_AggregateVersion :: int
  sa_EventID :: string
  sa_ContentHash :: string
  sa_EventBytes :: string
  sa_OutboxStatus :: outbox_status

record SupplierCommand =
  sc_EventID :: string
  sc_TenantID :: string
  sc_SupplierID :: string
  sc_OccurredAt :: string
  sc_RecordedAt :: string
  sc_CorrelationID :: string
  sc_CausationID :: "string option"
  sc_TraceID :: string

record IngredientLotCommand =
  lc_EventID :: string
  lc_TenantID :: string
  lc_LotID :: string
  lc_SupplierID :: string
  lc_ItemID :: string
  lc_OccurredAt :: string
  lc_RecordedAt :: string
  lc_CorrelationID :: string
  lc_CausationID :: "string option"
  lc_TraceID :: string

record ProductionBatchCommand =
  bc_EventID :: string
  bc_TenantID :: string
  bc_BatchID :: string
  bc_LotID :: string
  bc_OccurredAt :: string
  bc_RecordedAt :: string
  bc_CorrelationID :: string
  bc_CausationID :: "string option"
  bc_TraceID :: string

record ShipmentCommand =
  hc_EventID :: string
  hc_TenantID :: string
  hc_ShipmentID :: string
  hc_BatchID :: string
  hc_OrderID :: string
  hc_OccurredAt :: string
  hc_RecordedAt :: string
  hc_CorrelationID :: string
  hc_CausationID :: "string option"
  hc_TraceID :: string

definition firstAggregateVersion :: int where "firstAggregateVersion = 1"

definition validateHopIdentity ::
  "string \<Rightarrow> string \<Rightarrow> string \<Rightarrow> string \<Rightarrow> string \<Rightarrow> string \<Rightarrow> erp_error option" where
  "validateHopIdentity eventID tenantID correlationID traceID occurredAt recordedAt = checks
     [(erp_requireLowerUUID tenantID, ErrTenantMismatch),
      (erp_requireUUID eventID, ErrTenantMismatch),
      (erp_requireUUID correlationID, ErrTenantMismatch),
      (\<not> (trim_space traceID = [] \<or> \<not> valid_utf8 traceID), ErrTenantMismatch),
      (parseTimeZ occurredAt \<noteq> None, ErrTenantMismatch),
      (parseTimeZ recordedAt \<noteq> None, ErrTenantMismatch)]"

definition requireRequiredCausation :: "string option \<Rightarrow> erp_error option" where
  "requireRequiredCausation cid =
     (case cid of
        None \<Rightarrow> Some ErrInvalidTransition
      | Some u \<Rightarrow> if \<not> erp_requireUUID u then Some ErrTenantMismatch else None)"

definition validateSupplierCommand :: "SupplierCommand \<Rightarrow> erp_error option" where
  "validateSupplierCommand cmd = first_error
     [validateHopIdentity (sc_EventID cmd) (sc_TenantID cmd) (sc_CorrelationID cmd) (sc_TraceID cmd)
        (sc_OccurredAt cmd) (sc_RecordedAt cmd),
      checks [(erp_requireCanonicalID (sc_SupplierID cmd), ErrTenantMismatch)],
      (case sc_CausationID cmd of
         None \<Rightarrow> None
       | Some u \<Rightarrow> if \<not> erp_requireUUID u then Some ErrTenantMismatch else Some ErrInvalidTransition)]"

definition validateIngredientLotCommand :: "IngredientLotCommand \<Rightarrow> erp_error option" where
  "validateIngredientLotCommand cmd = first_error
     [validateHopIdentity (lc_EventID cmd) (lc_TenantID cmd) (lc_CorrelationID cmd) (lc_TraceID cmd)
        (lc_OccurredAt cmd) (lc_RecordedAt cmd),
      checks [(erp_requireCanonicalID (lc_LotID cmd), ErrTenantMismatch),
              (erp_requireCanonicalID (lc_SupplierID cmd), ErrTenantMismatch),
              (erp_requireCanonicalID (lc_ItemID cmd), ErrTenantMismatch)],
      requireRequiredCausation (lc_CausationID cmd)]"

definition validateProductionBatchCommand :: "ProductionBatchCommand \<Rightarrow> erp_error option" where
  "validateProductionBatchCommand cmd = first_error
     [validateHopIdentity (bc_EventID cmd) (bc_TenantID cmd) (bc_CorrelationID cmd) (bc_TraceID cmd)
        (bc_OccurredAt cmd) (bc_RecordedAt cmd),
      checks [(erp_requireCanonicalID (bc_BatchID cmd), ErrTenantMismatch),
              (erp_requireCanonicalID (bc_LotID cmd), ErrTenantMismatch)],
      requireRequiredCausation (bc_CausationID cmd)]"

definition validateShipmentCommand :: "ShipmentCommand \<Rightarrow> erp_error option" where
  "validateShipmentCommand cmd = first_error
     [validateHopIdentity (hc_EventID cmd) (hc_TenantID cmd) (hc_CorrelationID cmd) (hc_TraceID cmd)
        (hc_OccurredAt cmd) (hc_RecordedAt cmd),
      checks [(erp_requireCanonicalID (hc_ShipmentID cmd), ErrTenantMismatch),
              (erp_requireCanonicalID (hc_BatchID cmd), ErrTenantMismatch),
              (erp_requireUUID (hc_OrderID cmd), ErrTenantMismatch)],
      requireRequiredCausation (hc_CausationID cmd)]"

text \<open>\<^verbatim>\<open>lockTenantRow\<close>: \<open>q\<close> is the tenant of the row the query finds.\<close>

definition lockTenantRow ::
  "(erp_db \<Rightarrow> string option) \<Rightarrow> string \<Rightarrow> string \<Rightarrow> erp_error \<Rightarrow> (erp_db, erp_error, unit) tx" where
  "lockTenantRow q tenantID rid missing =
     tx_bind (tx_query ErpDB [tenantID, rid] q)
     (\<lambda>row. case row of
        None \<Rightarrow> tx_fail missing
      | Some rowTenant \<Rightarrow> if rowTenant \<noteq> tenantID then tx_fail ErrTenantMismatch else tx_return ())"

definition requireCausation_tx :: "string option \<Rightarrow> string \<Rightarrow> (erp_db, erp_error, unit) tx" where
  "requireCausation_tx got want =
     (case requireCausation got want of Some e \<Rightarrow> tx_fail e | None \<Rightarrow> tx_return ())"

definition finishSourceHop :: "int \<Rightarrow> envelope \<Rightarrow> gotime \<Rightarrow> (erp_db, erp_error, SourceAcceptResult) tx" where
  "finishSourceHop now env recordedAt =
     tx_bind (insertPendingOutbox now env recordedAt) (\<lambda>(eventBytes, contentHash).
     tx_return
       \<lparr>sa_AggregateID = AggregateID env, sa_AggregateType = AggregateType env,
        sa_AggregateVersion = AggregateVersion env, sa_EventID = EventID env,
        sa_ContentHash = contentHash, sa_EventBytes = eventBytes, sa_OutboxStatus = Pending\<rparr>)"

definition supplier_tenant :: "string \<Rightarrow> string \<Rightarrow> erp_db \<Rightarrow> string option" where
  "supplier_tenant t i db = map_option su_tenant (find (\<lambda>r. su_tenant r = t \<and> su_supplier r = i) (suppliers db))"

definition item_tenant :: "string \<Rightarrow> string \<Rightarrow> erp_db \<Rightarrow> string option" where
  "item_tenant t i db = map_option ii_tenant (find_item db t i)"

definition lot_tenant :: "string \<Rightarrow> string \<Rightarrow> erp_db \<Rightarrow> string option" where
  "lot_tenant t i db = map_option lo_tenant (find (\<lambda>r. lo_tenant r = t \<and> lo_lot r = i) (lots db))"

definition batch_tenant :: "string \<Rightarrow> string \<Rightarrow> erp_db \<Rightarrow> string option" where
  "batch_tenant t i db = map_option ba_tenant (find (\<lambda>r. ba_tenant r = t \<and> ba_batch r = i) (batches db))"

definition insert_supplier :: "supplier_row \<Rightarrow> erp_db \<Rightarrow> erp_error + (unit \<times> erp_db)" where
  "insert_supplier r db =
     (if list_ex (\<lambda>x. su_tenant x = su_tenant r \<and> su_supplier x = su_supplier r) (suppliers db)
      then Inl ErrDuplicateSource
      else Inr ((), db\<lparr>suppliers := suppliers db @ [r]\<rparr>))"

definition insert_lot :: "lot_row \<Rightarrow> erp_db \<Rightarrow> erp_error + (unit \<times> erp_db)" where
  "insert_lot r db =
     (if list_ex (\<lambda>x. lo_tenant x = lo_tenant r \<and> lo_lot x = lo_lot r) (lots db) \<or>
         list_ex (\<lambda>x. lo_tenant x = lo_tenant r \<and> lo_supplier x = lo_supplier r) (lots db)
      then Inl ErrDuplicateSource
      else if supplier_tenant (lo_tenant r) (lo_supplier r) db = None \<or> item_tenant (lo_tenant r) (lo_item r) db = None
      then Inl ErpDB
      else Inr ((), db\<lparr>lots := lots db @ [r]\<rparr>))"

definition insert_batch :: "batch_row \<Rightarrow> erp_db \<Rightarrow> erp_error + (unit \<times> erp_db)" where
  "insert_batch r db =
     (if list_ex (\<lambda>x. ba_tenant x = ba_tenant r \<and> ba_batch x = ba_batch r) (batches db) \<or>
         list_ex (\<lambda>x. ba_tenant x = ba_tenant r \<and> ba_lot x = ba_lot r) (batches db)
      then Inl ErrDuplicateSource
      else if lot_tenant (ba_tenant r) (ba_lot r) db = None then Inl ErpDB
      else Inr ((), db\<lparr>batches := batches db @ [r]\<rparr>))"

definition insert_shipment :: "shipment_row \<Rightarrow> erp_db \<Rightarrow> erp_error + (unit \<times> erp_db)" where
  "insert_shipment r db =
     (if list_ex (\<lambda>x. sh_tenant x = sh_tenant r \<and> sh_shipment x = sh_shipment r) (shipments db) \<or>
         list_ex (\<lambda>x. sh_tenant x = sh_tenant r \<and> sh_batch x = sh_batch r) (shipments db) \<or>
         list_ex (\<lambda>x. sh_tenant x = sh_tenant r \<and> sh_order x = sh_order r) (shipments db)
      then Inl ErrDuplicateSource
      else if batch_tenant (sh_tenant r) (sh_batch r) db = None then Inl ErpDB
      else Inr ((), db\<lparr>shipments := shipments db @ [r]\<rparr>))"

definition supplier_envelope :: "SupplierCommand \<Rightarrow> envelope" where
  "supplier_envelope cmd =
     \<lparr>EventID = sc_EventID cmd, TenantID = sc_TenantID cmd, EventType = EventTypeSupplierRegistered,
      EventSchemaVersion = SchemaVersionV1, AggregateType = AggregateTypeSupplier,
      AggregateID = sc_SupplierID cmd, AggregateVersion = firstAggregateVersion,
      OccurredAt = sc_OccurredAt cmd, RecordedAt = sc_RecordedAt cmd, Producer = ProducerSyntheticERP,
      CorrelationID = sc_CorrelationID cmd, CausationID = None, TraceID = sc_TraceID cmd,
      Payload = Some (SupplierRegistered \<lparr>sr_SupplierID = sc_SupplierID cmd\<rparr>)\<rparr>"

definition lot_envelope :: "IngredientLotCommand \<Rightarrow> envelope" where
  "lot_envelope cmd =
     \<lparr>EventID = lc_EventID cmd, TenantID = lc_TenantID cmd, EventType = EventTypeIngredientLotReceived,
      EventSchemaVersion = SchemaVersionV1, AggregateType = AggregateTypeIngredientLot,
      AggregateID = lc_LotID cmd, AggregateVersion = firstAggregateVersion,
      OccurredAt = lc_OccurredAt cmd, RecordedAt = lc_RecordedAt cmd, Producer = ProducerSyntheticERP,
      CorrelationID = lc_CorrelationID cmd, CausationID = lc_CausationID cmd, TraceID = lc_TraceID cmd,
      Payload = Some (IngredientLotReceived
        \<lparr>il_LotID = lc_LotID cmd, il_SupplierID = lc_SupplierID cmd, il_ItemID = lc_ItemID cmd\<rparr>)\<rparr>"

definition batch_envelope :: "ProductionBatchCommand \<Rightarrow> envelope" where
  "batch_envelope cmd =
     \<lparr>EventID = bc_EventID cmd, TenantID = bc_TenantID cmd, EventType = EventTypeProductionBatchProduced,
      EventSchemaVersion = SchemaVersionV1, AggregateType = AggregateTypeProductionBatch,
      AggregateID = bc_BatchID cmd, AggregateVersion = firstAggregateVersion,
      OccurredAt = bc_OccurredAt cmd, RecordedAt = bc_RecordedAt cmd, Producer = ProducerSyntheticERP,
      CorrelationID = bc_CorrelationID cmd, CausationID = bc_CausationID cmd, TraceID = bc_TraceID cmd,
      Payload = Some (ProductionBatchProduced \<lparr>pb_BatchID = bc_BatchID cmd, pb_LotID = bc_LotID cmd\<rparr>)\<rparr>"

definition shipment_envelope :: "ShipmentCommand \<Rightarrow> envelope" where
  "shipment_envelope cmd =
     \<lparr>EventID = hc_EventID cmd, TenantID = hc_TenantID cmd, EventType = EventTypeShipmentDispatched,
      EventSchemaVersion = SchemaVersionV1, AggregateType = AggregateTypeShipment,
      AggregateID = hc_ShipmentID cmd, AggregateVersion = firstAggregateVersion,
      OccurredAt = hc_OccurredAt cmd, RecordedAt = hc_RecordedAt cmd, Producer = ProducerSyntheticERP,
      CorrelationID = hc_CorrelationID cmd, CausationID = hc_CausationID cmd, TraceID = hc_TraceID cmd,
      Payload = Some (ShipmentDispatched
        \<lparr>sd_ShipmentID = hc_ShipmentID cmd, sd_BatchID = hc_BatchID cmd, sd_OrderID = hc_OrderID cmd\<rparr>)\<rparr>"

definition new_supplier :: "SupplierCommand \<Rightarrow> gotime \<Rightarrow> supplier_row" where
  "new_supplier cmd registeredAt =
     \<lparr>su_tenant = sc_TenantID cmd, su_supplier = sc_SupplierID cmd, su_version = firstAggregateVersion,
      su_registered = pg_time registeredAt, su_correlation = sc_CorrelationID cmd,
      su_trace = sc_TraceID cmd\<rparr>"

definition new_lot :: "IngredientLotCommand \<Rightarrow> gotime \<Rightarrow> lot_row" where
  "new_lot cmd receivedAt =
     \<lparr>lo_tenant = lc_TenantID cmd, lo_lot = lc_LotID cmd, lo_supplier = lc_SupplierID cmd,
      lo_item = lc_ItemID cmd, lo_version = firstAggregateVersion, lo_received = pg_time receivedAt,
      lo_correlation = lc_CorrelationID cmd, lo_trace = lc_TraceID cmd\<rparr>"

definition new_batch :: "ProductionBatchCommand \<Rightarrow> gotime \<Rightarrow> batch_row" where
  "new_batch cmd producedAt =
     \<lparr>ba_tenant = bc_TenantID cmd, ba_batch = bc_BatchID cmd, ba_lot = bc_LotID cmd,
      ba_version = firstAggregateVersion, ba_produced = pg_time producedAt,
      ba_correlation = bc_CorrelationID cmd, ba_trace = bc_TraceID cmd\<rparr>"

definition new_shipment :: "ShipmentCommand \<Rightarrow> gotime \<Rightarrow> shipment_row" where
  "new_shipment cmd dispatchedAt =
     \<lparr>sh_tenant = hc_TenantID cmd, sh_shipment = hc_ShipmentID cmd, sh_batch = hc_BatchID cmd,
      sh_order = hc_OrderID cmd, sh_version = firstAggregateVersion, sh_dispatched = pg_time dispatchedAt,
      sh_correlation = hc_CorrelationID cmd, sh_trace = hc_TraceID cmd\<rparr>"

definition RegisterSupplier_tx :: "SupplierCommand \<Rightarrow> int \<Rightarrow> (erp_db, erp_error, SourceAcceptResult) tx" where
  "RegisterSupplier_tx cmd now =
     tx_bind (time_or_mismatch (sc_OccurredAt cmd)) (\<lambda>registeredAt.
     tx_bind (time_or_mismatch (sc_RecordedAt cmd)) (\<lambda>recordedAt.
     tx_bind (tx_stmt ErpDB [sc_TenantID cmd, sc_SupplierID cmd, sc_CorrelationID cmd, sc_TraceID cmd]
       (insert_supplier (new_supplier cmd registeredAt))) (\<lambda>_.
     finishSourceHop now (supplier_envelope cmd) recordedAt)))"

definition RegisterSupplier ::
  "SupplierCommand \<Rightarrow> erp_db world \<Rightarrow> (erp_error + SourceAcceptResult) \<times> erp_db world" where
  "RegisterSupplier cmd = lift_world (validateSupplierCommand cmd) (transact ErpDB ErpDB (RegisterSupplier_tx cmd))"

definition ReceiveIngredientLot_tx :: "IngredientLotCommand \<Rightarrow> int \<Rightarrow> (erp_db, erp_error, SourceAcceptResult) tx" where
  "ReceiveIngredientLot_tx cmd now =
     tx_bind (lockTenantRow (supplier_tenant (lc_TenantID cmd) (lc_SupplierID cmd))
       (lc_TenantID cmd) (lc_SupplierID cmd) ErrUnknownSource) (\<lambda>_.
     tx_bind (lockTenantRow (item_tenant (lc_TenantID cmd) (lc_ItemID cmd))
       (lc_TenantID cmd) (lc_ItemID cmd) ErrUnknownItem) (\<lambda>_.
     tx_bind (parentOutboxEventID (lc_TenantID cmd) AggregateTypeSupplier (lc_SupplierID cmd)) (\<lambda>parentID.
     tx_bind (requireCausation_tx (lc_CausationID cmd) parentID) (\<lambda>_.
     tx_bind (time_or_mismatch (lc_OccurredAt cmd)) (\<lambda>receivedAt.
     tx_bind (time_or_mismatch (lc_RecordedAt cmd)) (\<lambda>recordedAt.
     tx_bind (tx_stmt ErpDB [lc_TenantID cmd, lc_LotID cmd, lc_SupplierID cmd, lc_ItemID cmd,
         lc_CorrelationID cmd, lc_TraceID cmd]
       (insert_lot (new_lot cmd receivedAt))) (\<lambda>_.
     finishSourceHop now (lot_envelope cmd) recordedAt)))))))"

definition ReceiveIngredientLot ::
  "IngredientLotCommand \<Rightarrow> erp_db world \<Rightarrow> (erp_error + SourceAcceptResult) \<times> erp_db world" where
  "ReceiveIngredientLot cmd =
     lift_world (validateIngredientLotCommand cmd) (transact ErpDB ErpDB (ReceiveIngredientLot_tx cmd))"

definition ProduceProductionBatch_tx :: "ProductionBatchCommand \<Rightarrow> int \<Rightarrow> (erp_db, erp_error, SourceAcceptResult) tx" where
  "ProduceProductionBatch_tx cmd now =
     tx_bind (lockTenantRow (lot_tenant (bc_TenantID cmd) (bc_LotID cmd))
       (bc_TenantID cmd) (bc_LotID cmd) ErrUnknownSource) (\<lambda>_.
     tx_bind (parentOutboxEventID (bc_TenantID cmd) AggregateTypeIngredientLot (bc_LotID cmd)) (\<lambda>parentID.
     tx_bind (requireCausation_tx (bc_CausationID cmd) parentID) (\<lambda>_.
     tx_bind (time_or_mismatch (bc_OccurredAt cmd)) (\<lambda>producedAt.
     tx_bind (time_or_mismatch (bc_RecordedAt cmd)) (\<lambda>recordedAt.
     tx_bind (tx_stmt ErpDB [bc_TenantID cmd, bc_BatchID cmd, bc_LotID cmd, bc_CorrelationID cmd, bc_TraceID cmd]
       (insert_batch (new_batch cmd producedAt))) (\<lambda>_.
     finishSourceHop now (batch_envelope cmd) recordedAt))))))"

definition ProduceProductionBatch ::
  "ProductionBatchCommand \<Rightarrow> erp_db world \<Rightarrow> (erp_error + SourceAcceptResult) \<times> erp_db world" where
  "ProduceProductionBatch cmd =
     lift_world (validateProductionBatchCommand cmd) (transact ErpDB ErpDB (ProduceProductionBatch_tx cmd))"

definition DispatchShipment_tx :: "ShipmentCommand \<Rightarrow> int \<Rightarrow> (erp_db, erp_error, SourceAcceptResult) tx" where
  "DispatchShipment_tx cmd now =
     tx_bind (lockTenantRow (batch_tenant (hc_TenantID cmd) (hc_BatchID cmd))
       (hc_TenantID cmd) (hc_BatchID cmd) ErrUnknownSource) (\<lambda>_.
     tx_bind (parentOutboxEventID (hc_TenantID cmd) AggregateTypeProductionBatch (hc_BatchID cmd)) (\<lambda>parentID.
     tx_bind (requireCausation_tx (hc_CausationID cmd) parentID) (\<lambda>_.
     tx_bind (time_or_mismatch (hc_OccurredAt cmd)) (\<lambda>dispatchedAt.
     tx_bind (time_or_mismatch (hc_RecordedAt cmd)) (\<lambda>recordedAt.
     tx_bind (tx_stmt ErpDB [hc_TenantID cmd, hc_ShipmentID cmd, hc_BatchID cmd, hc_OrderID cmd,
         hc_CorrelationID cmd, hc_TraceID cmd]
       (insert_shipment (new_shipment cmd dispatchedAt))) (\<lambda>_.
     finishSourceHop now (shipment_envelope cmd) recordedAt))))))"

definition DispatchShipment ::
  "ShipmentCommand \<Rightarrow> erp_db world \<Rightarrow> (erp_error + SourceAcceptResult) \<times> erp_db world" where
  "DispatchShipment cmd = lift_world (validateShipmentCommand cmd) (transact ErpDB ErpDB (DispatchShipment_tx cmd))"

section \<open>Seed and reset\<close>

definition insert_item :: "inventory_item \<Rightarrow> erp_db \<Rightarrow> erp_error + (unit \<times> erp_db)" where
  "insert_item r db =
     (if \<not> (ii_quantity r \<ge> 0 \<and> ii_version r \<ge> 0) then Inl ErpDB
      else if list_ex (\<lambda>x. ii_tenant x = ii_tenant r \<and> ii_item x = ii_item r) (items db) then Inl ErpDB
      else Inr ((), db\<lparr>items := items db @ [r]\<rparr>))"

definition seed_inventory :: "string \<Rightarrow> string \<Rightarrow> int \<Rightarrow> erp_db world \<Rightarrow> (erp_error + unit) \<times> erp_db world" where
  "seed_inventory t i q =
     exec_auto ErpDB [t, i] (\<lambda>now. insert_item \<lparr>ii_tenant = t, ii_item = i, ii_quantity = q, ii_version = 0\<rparr>)"

text \<open>The deletes of \<^verbatim>\<open>ResetSourceForTenant\<close>, in its order; a delete that would leave a referencing row
  behind violates a foreign key.\<close>

definition delete_outbox :: "string \<Rightarrow> erp_db \<Rightarrow> erp_error + (unit \<times> erp_db)" where
  "delete_outbox t db = Inr ((), db\<lparr>outbox := filter (\<lambda>r. ob_tenant r \<noteq> t) (outbox db)\<rparr>)"

definition delete_shipments :: "string \<Rightarrow> erp_db \<Rightarrow> erp_error + (unit \<times> erp_db)" where
  "delete_shipments t db = Inr ((), db\<lparr>shipments := filter (\<lambda>r. sh_tenant r \<noteq> t) (shipments db)\<rparr>)"

definition delete_batches :: "string \<Rightarrow> erp_db \<Rightarrow> erp_error + (unit \<times> erp_db)" where
  "delete_batches t db =
     (if list_ex (\<lambda>b. ba_tenant b = t \<and> list_ex (\<lambda>s. sh_tenant s = t \<and> sh_batch s = ba_batch b) (shipments db)) (batches db)
      then Inl ErpDB
      else Inr ((), db\<lparr>batches := filter (\<lambda>r. ba_tenant r \<noteq> t) (batches db)\<rparr>))"

definition delete_lots :: "string \<Rightarrow> erp_db \<Rightarrow> erp_error + (unit \<times> erp_db)" where
  "delete_lots t db =
     (if list_ex (\<lambda>l. lo_tenant l = t \<and> list_ex (\<lambda>b. ba_tenant b = t \<and> ba_lot b = lo_lot l) (batches db)) (lots db)
      then Inl ErpDB
      else Inr ((), db\<lparr>lots := filter (\<lambda>r. lo_tenant r \<noteq> t) (lots db)\<rparr>))"

definition delete_orders :: "string \<Rightarrow> erp_db \<Rightarrow> erp_error + (unit \<times> erp_db)" where
  "delete_orders t db = Inr ((), db\<lparr>orders := filter (\<lambda>r. or_tenant r \<noteq> t) (orders db)\<rparr>)"

definition delete_suppliers :: "string \<Rightarrow> erp_db \<Rightarrow> erp_error + (unit \<times> erp_db)" where
  "delete_suppliers t db =
     (if list_ex (\<lambda>s. su_tenant s = t \<and> list_ex (\<lambda>l. lo_tenant l = t \<and> lo_supplier l = su_supplier s) (lots db)) (suppliers db)
      then Inl ErpDB
      else Inr ((), db\<lparr>suppliers := filter (\<lambda>r. su_tenant r \<noteq> t) (suppliers db)\<rparr>))"

definition delete_items :: "string \<Rightarrow> erp_db \<Rightarrow> erp_error + (unit \<times> erp_db)" where
  "delete_items t db =
     (if list_ex (\<lambda>i. ii_tenant i = t \<and> list_ex (\<lambda>l. lo_tenant l = t \<and> lo_item l = ii_item i) (lots db)) (items db)
      then Inl ErpDB
      else Inr ((), db\<lparr>items := filter (\<lambda>r. ii_tenant r \<noteq> t) (items db)\<rparr>))"

fun run_deletes :: "string \<Rightarrow> (string \<Rightarrow> erp_db \<Rightarrow> erp_error + (unit \<times> erp_db)) list \<Rightarrow> (erp_db, erp_error, unit) tx" where
  "run_deletes t [] = tx_return ()"
| "run_deletes t (d # ds) = tx_bind (tx_stmt ErpDB [t] (d t)) (\<lambda>_. run_deletes t ds)"

definition reset_order :: "(string \<Rightarrow> erp_db \<Rightarrow> erp_error + (unit \<times> erp_db)) list" where
  "reset_order = [delete_outbox, delete_shipments, delete_batches, delete_lots, delete_orders,
     delete_suppliers, delete_items]"

definition ResetSourceForTenant :: "string \<Rightarrow> erp_db world \<Rightarrow> (erp_error + unit) \<times> erp_db world" where
  "ResetSourceForTenant tenantID =
     lift_world (if tenantID = [] then Some ErpArgument else None)
       (transact ErpDB ErpDB (\<lambda>now. run_deletes tenantID reset_order))"

section \<open>What a successful transaction does\<close>

lemma time_or_mismatch_Inr [sql_simps]:
  "time_or_mismatch v db fs = (Inr t, db', fs') \<longleftrightarrow> parseTimeZ v = Some t \<and> db' = db \<and> fs' = fs"
  by (auto simp: time_or_mismatch_def sql_simps split: option.splits)

lemma lift_world_Inr [sql_simps]: "lift_world chk m w = (Inr x, w') \<longleftrightarrow> chk = None \<and> m w = (Inr x, w')"
  by (auto simp: lift_world_def split: option.splits)

lemma parent_Inr [sql_simps]:
  "parentOutboxEventID t ty i db fs = (Inr e, db', fs') \<longleftrightarrow>
   \<not> fst (pop False fs) \<and> fs' = snd (pop False fs) \<and> list_all pg_text_ok [t, ty, i] \<and> db' = db \<and>
   (\<exists>r. first_by_version (aggregate_rows db t ty i) = Some r \<and> e = ob_event r)"
  by (auto simp: parentOutboxEventID_def sql_simps split: option.splits)

lemma requireCausation_tx_Inr [sql_simps]:
  "requireCausation_tx got want db fs = (Inr u, db', fs') \<longleftrightarrow> got = Some want \<and> db' = db \<and> fs' = fs"
  by (auto simp: requireCausation_tx_def requireCausation_def sql_simps split: option.splits if_splits)

lemma lockTenantRow_Inr [sql_simps]:
  "lockTenantRow q t i e db fs = (Inr u, db', fs') \<longleftrightarrow>
   \<not> fst (pop False fs) \<and> fs' = snd (pop False fs) \<and> list_all pg_text_ok [t, i] \<and> db' = db \<and> q db = Some t"
  by (auto simp: lockTenantRow_def sql_simps split: option.splits if_splits)

lemma finishSourceHop_Inr [sql_simps]:
  "finishSourceHop now env rec db fs = (Inr res, db', fs') \<longleftrightarrow>
   (\<exists>b. Validate env = None \<and> CanonicalBytes env = Inr b \<and>
     list_all pg_text_ok [EventID env, TenantID env, AggregateType env, AggregateID env, sha256_hex b] \<and>
     insert_outbox (new_outbox_row env b (sha256_hex b) rec now) db = Inr ((), db') \<and>
     res = \<lparr>sa_AggregateID = AggregateID env, sa_AggregateType = AggregateType env,
        sa_AggregateVersion = AggregateVersion env, sa_EventID = EventID env,
        sa_ContentHash = sha256_hex b, sa_EventBytes = b, sa_OutboxStatus = Pending\<rparr>) \<and>
   \<not> fst (pop False fs) \<and> fs' = snd (pop False fs)"
  by (auto simp: finishSourceHop_def sql_simps)

end
