(* ===== verification/Erp_Ledger.thy ===== *)
theory Erp_Ledger
  imports Erp_Source
begin

text \<open>
  Package \<^verbatim>\<open>erp\<close>: what the source transactions guarantee.

  \<^item> Each operation meets the contract \<open>atomic_op\<close> with an explicit effect: the rows it adds
    and changes, and the one outbox row that records it.
  \<^item> \<open>erp_inv\<close> is the ledger invariant: the outbox rows of an item carry the versions
    1, 2, ... up to the item's version, without gaps, and replaying their quantities ends at
    the quantity on hand.
  \<^item> \<open>causal\<close> is the lineage invariant: every event names as its cause the event of its parent,
    which stands before it in the outbox.
\<close>

section \<open>Effects\<close>

definition parent_event :: "erp_db \<Rightarrow> string \<Rightarrow> string \<Rightarrow> string \<Rightarrow> string \<Rightarrow> bool" where
  "parent_event db t ty i e \<longleftrightarrow> (\<exists>r. first_by_version (aggregate_rows db t ty i) = Some r \<and> e = ob_event r)"

text \<open>The outbox row of an envelope, added to a database in which its identity is fresh.\<close>

definition outbox_added :: "envelope \<Rightarrow> string \<Rightarrow> erp_db \<Rightarrow> erp_db \<Rightarrow> bool" where
  "outbox_added env b db db' \<longleftrightarrow>
     Validate env = None \<and> CanonicalBytes env = Inr b \<and>
     (\<exists>rec now. insert_outbox (new_outbox_row env b (sha256_hex b) rec now) db = Inr ((), db'))"

definition order_caused :: "OrderCommand \<Rightarrow> erp_db \<Rightarrow> bool" where
  "order_caused cmd db \<longleftrightarrow>
     (case find (\<lambda>r. sh_tenant r = oc_TenantID cmd \<and> sh_order r = oc_OrderID cmd) (shipments db) of
        None \<Rightarrow> oc_CausationID cmd = None
      | Some s \<Rightarrow> (\<exists>e. oc_CausationID cmd = Some e \<and>
                     parent_event db (oc_TenantID cmd) AggregateTypeShipment (sh_shipment s) e))"

definition order_effect :: "OrderCommand \<Rightarrow> AcceptResult \<Rightarrow> erp_db \<Rightarrow> erp_db \<Rightarrow> bool" where
  "order_effect cmd res db db' \<longleftrightarrow>
     (\<exists>it b occ now db1. validateCommand cmd = None \<and>
        find_item db (oc_TenantID cmd) (oc_ItemID cmd) = Some it \<and> oc_Quantity cmd \<le> ii_quantity it \<and>
        order_caused cmd db \<and>
        oc_OrderID cmd \<notin> or_order ` set (orders db) \<and>
        db1 = db\<lparr>items := map (\<lambda>r. if ii_tenant r = oc_TenantID cmd \<and> ii_item r = oc_ItemID cmd
                     then r\<lparr>ii_quantity := wrap64 (ii_quantity it - oc_Quantity cmd),
                            ii_version := wrap64 (ii_version it + 1)\<rparr> else r) (items db),
                 orders := orders db @ [new_order cmd occ now]\<rparr> \<and>
        outbox_added (order_envelope cmd (ii_quantity it) (wrap64 (ii_quantity it - oc_Quantity cmd))
                        (wrap64 (ii_version it + 1))) b db1 db' \<and>
        res = \<lparr>ar_OrderID = oc_OrderID cmd, ar_TenantID = oc_TenantID cmd, ar_ItemID = oc_ItemID cmd,
               ar_QuantityBefore = ii_quantity it,
               ar_QuantityAfter = wrap64 (ii_quantity it - oc_Quantity cmd),
               ar_AggregateVersion = wrap64 (ii_version it + 1), ar_EventID = oc_EventID cmd,
               ar_ContentHash = sha256_hex b, ar_EventBytes = b, ar_OutboxStatus = Pending\<rparr>)"

definition hop_result :: "envelope \<Rightarrow> string \<Rightarrow> SourceAcceptResult" where
  "hop_result env b =
     \<lparr>sa_AggregateID = AggregateID env, sa_AggregateType = AggregateType env,
      sa_AggregateVersion = AggregateVersion env, sa_EventID = EventID env,
      sa_ContentHash = sha256_hex b, sa_EventBytes = b, sa_OutboxStatus = Pending\<rparr>"

definition supplier_effect :: "SupplierCommand \<Rightarrow> SourceAcceptResult \<Rightarrow> erp_db \<Rightarrow> erp_db \<Rightarrow> bool" where
  "supplier_effect cmd res db db' \<longleftrightarrow>
     (\<exists>r b at. r = new_supplier cmd at \<and>
        (\<forall>x \<in> set (suppliers db). \<not> (su_tenant x = su_tenant r \<and> su_supplier x = su_supplier r)) \<and>
        outbox_added (supplier_envelope cmd) b (db\<lparr>suppliers := suppliers db @ [r]\<rparr>) db' \<and>
        res = hop_result (supplier_envelope cmd) b)"

definition lot_effect :: "IngredientLotCommand \<Rightarrow> SourceAcceptResult \<Rightarrow> erp_db \<Rightarrow> erp_db \<Rightarrow> bool" where
  "lot_effect cmd res db db' \<longleftrightarrow>
     (\<exists>r b e at. r = new_lot cmd at \<and>
        (\<forall>x \<in> set (lots db). lo_tenant x = lo_tenant r \<longrightarrow> lo_lot x \<noteq> lo_lot r \<and> lo_supplier x \<noteq> lo_supplier r) \<and>
        lc_CausationID cmd = Some e \<and> parent_event db (lc_TenantID cmd) AggregateTypeSupplier (lc_SupplierID cmd) e \<and>
        outbox_added (lot_envelope cmd) b (db\<lparr>lots := lots db @ [r]\<rparr>) db' \<and>
        res = hop_result (lot_envelope cmd) b)"

definition batch_effect :: "ProductionBatchCommand \<Rightarrow> SourceAcceptResult \<Rightarrow> erp_db \<Rightarrow> erp_db \<Rightarrow> bool" where
  "batch_effect cmd res db db' \<longleftrightarrow>
     (\<exists>r b e at. r = new_batch cmd at \<and>
        (\<forall>x \<in> set (batches db). ba_tenant x = ba_tenant r \<longrightarrow> ba_batch x \<noteq> ba_batch r \<and> ba_lot x \<noteq> ba_lot r) \<and>
        bc_CausationID cmd = Some e \<and> parent_event db (bc_TenantID cmd) AggregateTypeIngredientLot (bc_LotID cmd) e \<and>
        outbox_added (batch_envelope cmd) b (db\<lparr>batches := batches db @ [r]\<rparr>) db' \<and>
        res = hop_result (batch_envelope cmd) b)"

definition shipment_effect :: "ShipmentCommand \<Rightarrow> SourceAcceptResult \<Rightarrow> erp_db \<Rightarrow> erp_db \<Rightarrow> bool" where
  "shipment_effect cmd res db db' \<longleftrightarrow>
     (\<exists>r b e at. r = new_shipment cmd at \<and>
        (\<forall>x \<in> set (shipments db). sh_tenant x = sh_tenant r \<longrightarrow>
           sh_shipment x \<noteq> sh_shipment r \<and> sh_batch x \<noteq> sh_batch r \<and> sh_order x \<noteq> sh_order r) \<and>
        hc_CausationID cmd = Some e \<and> parent_event db (hc_TenantID cmd) AggregateTypeProductionBatch (hc_BatchID cmd) e \<and>
        outbox_added (shipment_envelope cmd) b (db\<lparr>shipments := shipments db @ [r]\<rparr>) db' \<and>
        res = hop_result (shipment_envelope cmd) b)"

definition seed_effect :: "string \<times> string \<times> int \<Rightarrow> unit \<Rightarrow> erp_db \<Rightarrow> erp_db \<Rightarrow> bool" where
  "seed_effect c u db db' \<longleftrightarrow>
     (case c of (t, i, q) \<Rightarrow> 0 \<le> q \<and> (\<forall>x \<in> set (items db). \<not> (ii_tenant x = t \<and> ii_item x = i)) \<and>
        db' = db\<lparr>items := items db @ [\<lparr>ii_tenant = t, ii_item = i, ii_quantity = q, ii_version = 0\<rparr>]\<rparr>)"

definition keep_tenants :: "string \<Rightarrow> erp_db \<Rightarrow> erp_db" where
  "keep_tenants t db =
     \<lparr>items = filter (\<lambda>r. ii_tenant r \<noteq> t) (items db), orders = filter (\<lambda>r. or_tenant r \<noteq> t) (orders db),
      suppliers = filter (\<lambda>r. su_tenant r \<noteq> t) (suppliers db), lots = filter (\<lambda>r. lo_tenant r \<noteq> t) (lots db),
      batches = filter (\<lambda>r. ba_tenant r \<noteq> t) (batches db), shipments = filter (\<lambda>r. sh_tenant r \<noteq> t) (shipments db),
      outbox = filter (\<lambda>r. ob_tenant r \<noteq> t) (outbox db)\<rparr>"

definition reset_effect :: "string \<Rightarrow> unit \<Rightarrow> erp_db \<Rightarrow> erp_db \<Rightarrow> bool" where
  "reset_effect t u db db' \<longleftrightarrow> t \<noteq> [] \<and> db' = keep_tenants t db"

section \<open>The operations meet the contract\<close>

lemma requireOrderShipmentCausation_Inr:
  "requireOrderShipmentCausation cmd db fs = (Inr u, db', fs') \<Longrightarrow> order_caused cmd db \<and> db' = db"
  by (auto simp: requireOrderShipmentCausation_def order_caused_def parent_event_def requireCausation_def sql_simps
      split: option.splits if_splits)

lemma update_inventory_Inr:
  "update_inventory t i q v db = Inr (u, db') \<Longrightarrow>
   db' = db\<lparr>items := map (\<lambda>r. if ii_tenant r = t \<and> ii_item r = i
                              then r\<lparr>ii_quantity := q, ii_version := v\<rparr> else r) (items db)\<rparr>"
  by (auto simp: update_inventory_def split: if_splits)

lemma insert_order_Inr:
  "insert_order r db = Inr (u, db') \<Longrightarrow>
   or_order r \<notin> or_order ` set (orders db) \<and> db' = db\<lparr>orders := orders db @ [r]\<rparr>"
  by (auto simp: insert_order_def list_ex_iff split: if_splits)

lemma insertPendingOutbox_added:
  "insertPendingOutbox now env rec db fs = (Inr (b, h), db', fs') \<Longrightarrow> outbox_added env b db db' \<and> h = sha256_hex b"
  by (auto simp: insertPendingOutbox_Inr outbox_added_def)

lemma AcceptOrder_tx_effect:
  assumes "validateCommand cmd = None" "AcceptOrder_tx cmd now db fs = (Inr res, db', fs')"
  shows "order_effect cmd res db db'"
proof -
  let ?q = "\<lambda>it. wrap64 (ii_quantity it - oc_Quantity cmd)" and ?v = "\<lambda>it. wrap64 (ii_version it + 1)"
  from assms(2) obtain it where it: "find_item db (oc_TenantID cmd) (oc_ItemID cmd) = Some it"
    "oc_Quantity cmd \<le> ii_quantity it"
    by (auto simp: AcceptOrder_tx_def sql_simps Let_def not_less split: option.splits if_splits)
  with assms(2) obtain fs1 fs2 db1 db2 db3 occ rec b h fs3 fs4 fs5 where
    c: "requireOrderShipmentCausation cmd db fs1 = (Inr (), db1, fs2)"
    and u: "update_inventory (oc_TenantID cmd) (oc_ItemID cmd) (?q it) (?v it) db1 = Inr ((), db2)"
    and o: "insert_order (new_order cmd occ now) db2 = Inr ((), db3)"
    and b: "insertPendingOutbox now (order_envelope cmd (ii_quantity it) (?q it) (?v it)) rec db3 fs3 =
       (Inr (b, h), db', fs4)"
    and r: "res = \<lparr>ar_OrderID = oc_OrderID cmd, ar_TenantID = oc_TenantID cmd, ar_ItemID = oc_ItemID cmd,
       ar_QuantityBefore = ii_quantity it, ar_QuantityAfter = ?q it, ar_AggregateVersion = ?v it,
       ar_EventID = oc_EventID cmd, ar_ContentHash = h, ar_EventBytes = b, ar_OutboxStatus = Pending\<rparr>"
    by (auto simp: AcceptOrder_tx_def sql_simps Let_def simp del: insertPendingOutbox_Inr
        split: option.splits if_splits prod.splits)
  show ?thesis
    using assms(1) it requireOrderShipmentCausation_Inr [OF c] update_inventory_Inr [OF u]
      insert_order_Inr [OF o] insertPendingOutbox_added [OF b] r
    unfolding order_effect_def by (intro exI [of _ it] exI [of _ b] exI [of _ occ] exI [of _ now] exI [of _ db3])
      (simp add: new_order_def)
qed

lemma insert_rows_Inr:
  "insert_supplier r1 db = Inr (u, db') \<Longrightarrow> db' = db\<lparr>suppliers := suppliers db @ [r1]\<rparr> \<and>
     (\<forall>x \<in> set (suppliers db). \<not> (su_tenant x = su_tenant r1 \<and> su_supplier x = su_supplier r1))"
  "insert_lot r2 db = Inr (u, db') \<Longrightarrow> db' = db\<lparr>lots := lots db @ [r2]\<rparr> \<and>
     (\<forall>x \<in> set (lots db). lo_tenant x = lo_tenant r2 \<longrightarrow> lo_lot x \<noteq> lo_lot r2 \<and> lo_supplier x \<noteq> lo_supplier r2)"
  "insert_batch r3 db = Inr (u, db') \<Longrightarrow> db' = db\<lparr>batches := batches db @ [r3]\<rparr> \<and>
     (\<forall>x \<in> set (batches db). ba_tenant x = ba_tenant r3 \<longrightarrow> ba_batch x \<noteq> ba_batch r3 \<and> ba_lot x \<noteq> ba_lot r3)"
  "insert_shipment r4 db = Inr (u, db') \<Longrightarrow> db' = db\<lparr>shipments := shipments db @ [r4]\<rparr> \<and>
     (\<forall>x \<in> set (shipments db). sh_tenant x = sh_tenant r4 \<longrightarrow>
        sh_shipment x \<noteq> sh_shipment r4 \<and> sh_batch x \<noteq> sh_batch r4 \<and> sh_order x \<noteq> sh_order r4)"
  by (auto simp: insert_supplier_def insert_lot_def insert_batch_def insert_shipment_def list_ex_iff
      split: if_splits)

lemma finishSourceHop_added:
  "finishSourceHop now env rec db fs = (Inr res, db', fs') \<Longrightarrow>
   \<exists>b. outbox_added env b db db' \<and> res = hop_result env b"
  by (auto simp: finishSourceHop_Inr outbox_added_def hop_result_def)

lemma RegisterSupplier_tx_effect:
  assumes "RegisterSupplier_tx cmd now db fs = (Inr res, db', fs')"
  shows "supplier_effect cmd res db db'"
proof -
  from assms obtain r db1 rec fs1 at where i: "insert_supplier (new_supplier cmd at) db = Inr ((), db1)"
    and f: "finishSourceHop now (supplier_envelope cmd) rec db1 fs1 = (Inr res, db', fs')"
    by (auto simp: RegisterSupplier_tx_def sql_simps simp del: finishSourceHop_Inr)
  show ?thesis using insert_rows_Inr(1) [OF i] finishSourceHop_added [OF f]
    unfolding supplier_effect_def by blast
qed

lemma ReceiveIngredientLot_tx_effect:
  assumes "ReceiveIngredientLot_tx cmd now db fs = (Inr res, db', fs')"
  shows "lot_effect cmd res db db'"
proof -
  from assms obtain r db1 rec fs1 e at where c: "lc_CausationID cmd = Some e" "parent_event db (lc_TenantID cmd) AggregateTypeSupplier (lc_SupplierID cmd) e"
    and i: "insert_lot (new_lot cmd at) db = Inr ((), db1)"
    and f: "finishSourceHop now (lot_envelope cmd) rec db1 fs1 = (Inr res, db', fs')"
    by (auto simp: ReceiveIngredientLot_tx_def sql_simps parent_event_def simp del: finishSourceHop_Inr)
  show ?thesis using c insert_rows_Inr(2) [OF i] finishSourceHop_added [OF f]
    unfolding lot_effect_def by blast
qed

lemma ProduceProductionBatch_tx_effect:
  assumes "ProduceProductionBatch_tx cmd now db fs = (Inr res, db', fs')"
  shows "batch_effect cmd res db db'"
proof -
  from assms obtain r db1 rec fs1 e at where c: "bc_CausationID cmd = Some e" "parent_event db (bc_TenantID cmd) AggregateTypeIngredientLot (bc_LotID cmd) e"
    and i: "insert_batch (new_batch cmd at) db = Inr ((), db1)"
    and f: "finishSourceHop now (batch_envelope cmd) rec db1 fs1 = (Inr res, db', fs')"
    by (auto simp: ProduceProductionBatch_tx_def sql_simps parent_event_def simp del: finishSourceHop_Inr)
  show ?thesis using c insert_rows_Inr(3) [OF i] finishSourceHop_added [OF f]
    unfolding batch_effect_def by blast
qed

lemma DispatchShipment_tx_effect:
  assumes "DispatchShipment_tx cmd now db fs = (Inr res, db', fs')"
  shows "shipment_effect cmd res db db'"
proof -
  from assms obtain r db1 rec fs1 e at where c: "hc_CausationID cmd = Some e" "parent_event db (hc_TenantID cmd) AggregateTypeProductionBatch (hc_BatchID cmd) e"
    and i: "insert_shipment (new_shipment cmd at) db = Inr ((), db1)"
    and f: "finishSourceHop now (shipment_envelope cmd) rec db1 fs1 = (Inr res, db', fs')"
    by (auto simp: DispatchShipment_tx_def sql_simps parent_event_def simp del: finishSourceHop_Inr)
  show ?thesis using c insert_rows_Inr(4) [OF i] finishSourceHop_added [OF f]
    unfolding shipment_effect_def by blast
qed

lemma reset_tx_effect:
  "run_deletes t reset_order db fs = (Inr u, db', fs') \<Longrightarrow> db' = keep_tenants t db"
  by (auto simp: reset_order_def sql_simps delete_outbox_def delete_shipments_def delete_batches_def
      delete_lots_def delete_orders_def delete_suppliers_def delete_items_def keep_tenants_def split: if_splits)

interpretation accept: atomic_op AcceptOrder order_effect
  by (rule atomic_opI [OF AcceptOrder_def AcceptOrder_tx_effect])

interpretation register: atomic_op RegisterSupplier supplier_effect
  by (rule atomic_opI [OF RegisterSupplier_def RegisterSupplier_tx_effect])

interpretation receive: atomic_op ReceiveIngredientLot lot_effect
  by (rule atomic_opI [OF ReceiveIngredientLot_def ReceiveIngredientLot_tx_effect])

interpretation produce: atomic_op ProduceProductionBatch batch_effect
  by (rule atomic_opI [OF ProduceProductionBatch_def ProduceProductionBatch_tx_effect])

interpretation dispatch: atomic_op DispatchShipment shipment_effect
  by (rule atomic_opI [OF DispatchShipment_def DispatchShipment_tx_effect])

interpretation reset: atomic_op ResetSourceForTenant reset_effect
  by (rule atomic_opI [OF ResetSourceForTenant_def])
    (auto simp: reset_effect_def dest: reset_tx_effect split: if_splits)

lemma seed_run: "(case c of (t, i, q) \<Rightarrow> seed_inventory t i q) = lift_world None (transact ErpDB ErpDB
    (\<lambda>now. tx_stmt ErpDB [fst c, fst (snd c)]
      (insert_item \<lparr>ii_tenant = fst c, ii_item = fst (snd c), ii_quantity = snd (snd c), ii_version = 0\<rparr>)))"
  by (simp add: seed_inventory_def exec_auto_def split: prod.splits)

interpretation seed: atomic_op "\<lambda>(t, i, q). seed_inventory t i q" seed_effect
  by (rule atomic_opI [OF seed_run])
    (auto simp: seed_effect_def insert_item_def sql_simps list_ex_iff split: if_splits prod.splits)

section \<open>The ledger invariant\<close>

definition row_envelope :: "outbox_row \<Rightarrow> envelope option" where
  "row_envelope r = (case Parse (ob_bytes r) of Inr env \<Rightarrow> Some env | Inl _ \<Rightarrow> None)"

definition row_ok :: "outbox_row \<Rightarrow> bool" where
  "row_ok r \<longleftrightarrow> (\<exists>env. row_envelope r = Some env \<and> CanonicalBytes env = Inr (ob_bytes r) \<and>
     ob_hash r = sha256_hex (ob_bytes r) \<and> ob_event r = EventID env \<and> ob_tenant r = TenantID env \<and>
     ob_atype r = AggregateType env \<and> ob_aid r = AggregateID env \<and> ob_version r = AggregateVersion env)"

text \<open>Replaying the inventory events of one item from a starting quantity: each must start where the
  previous one ended.\<close>

fun replay :: "int \<Rightarrow> outbox_row list \<Rightarrow> int option" where
  "replay q [] = Some q"
| "replay q (r # rs) =
     (case Option.bind (row_envelope r) AsQuantityDecremented of
        None \<Rightarrow> None
      | Some p \<Rightarrow> if qd_QuantityBefore p = q then replay (qd_QuantityAfter p) rs else None)"

definition item_rows :: "erp_db \<Rightarrow> inventory_item \<Rightarrow> outbox_row list" where
  "item_rows db it = aggregate_rows db (ii_tenant it) AggregateTypeInventoryItem (ii_item it)"

definition item_ok :: "erp_db \<Rightarrow> inventory_item \<Rightarrow> bool" where
  "item_ok db it \<longleftrightarrow> 0 \<le> ii_quantity it \<and> 0 \<le> ii_version it \<and> ii_version it \<le> maxSafeInt \<and>
     map ob_version (item_rows db it) = [1..ii_version it] \<and>
     (\<exists>q. replay q (item_rows db it) = Some (ii_quantity it))"

definition item_key :: "inventory_item \<Rightarrow> string \<times> string" where
  "item_key it = (ii_tenant it, ii_item it)"

definition row_key :: "outbox_row \<Rightarrow> string \<times> string \<times> string \<times> int" where
  "row_key r = (ob_tenant r, ob_atype r, ob_aid r, ob_version r)"

definition erp_inv :: "erp_db \<Rightarrow> bool" where
  "erp_inv db \<longleftrightarrow>
     distinct (map item_key (items db)) \<and> list_all (item_ok db) (items db) \<and> list_all row_ok (outbox db) \<and>
     distinct (map ob_event (outbox db)) \<and> distinct (map row_key (outbox db)) \<and>
     (\<forall>r \<in> set (outbox db). ob_atype r = AggregateTypeInventoryItem \<longrightarrow> (ob_tenant r, ob_aid r) \<in> item_key ` set (items db))"

lemma replay_append: "replay q (xs @ ys) = Option.bind (replay q xs) (\<lambda>q'. replay q' ys)"
  by (induction xs arbitrary: q) (auto split: option.splits)

lemma row_envelope_new: "CanonicalBytes env = Inr b \<Longrightarrow> row_envelope (new_outbox_row env b h rec now) = Some env"
  by (simp add: row_envelope_def new_outbox_row_def Parse_canonical)

lemma row_ok_new: "CanonicalBytes env = Inr b \<Longrightarrow> row_ok (new_outbox_row env b (sha256_hex b) rec now)"
  using row_envelope_new [of env b "sha256_hex b" rec now] by (auto simp: row_ok_def new_outbox_row_def)

text \<open>The row that \<open>outbox_added\<close> appends.\<close>

lemma outbox_addedE:
  assumes "outbox_added env b db db'"
  obtains r where "db' = db\<lparr>outbox := outbox db @ [r]\<rparr>" "row_ok r" "row_envelope r = Some env"
    "ob_event r = EventID env" "ob_tenant r = TenantID env" "ob_atype r = AggregateType env"
    "ob_aid r = AggregateID env" "ob_version r = AggregateVersion env" "valid_envelope env"
    "ob_event r \<notin> ob_event ` set (outbox db)" "row_key r \<notin> row_key ` set (outbox db)"
    "ob_status r = Pending" "ob_owner r = None" "ob_expires r = None" "ob_attempts r = 0" "ob_bytes r = b"
proof -
  from assms obtain rec now where v: "valid_envelope env" "CanonicalBytes env = Inr b"
    and i: "insert_outbox (new_outbox_row env b (sha256_hex b) rec now) db = Inr ((), db')"
    by (auto simp: outbox_added_def err_simps)
  let ?r = "new_outbox_row env b (sha256_hex b) rec now"
  have "row_key ?r \<notin> row_key ` set (outbox db)" "ob_event ?r \<notin> ob_event ` set (outbox db)"
    "db' = db\<lparr>outbox := outbox db @ [?r]\<rparr>"
    using i unfolding insert_outbox_Inr by (auto simp: row_key_def)
  then show thesis
    by (intro that [of ?r]) (simp_all add: row_ok_new row_envelope_new v, simp_all add: new_outbox_row_def)
qed

text \<open>Adding a row of a lineage aggregate keeps the ledger.\<close>

lemma erp_inv_hop:
  assumes inv: "erp_inv db" and a: "outbox_added env b db1 db'"
    and same: "items db1 = items db" "outbox db1 = outbox db" and ty: "AggregateType env \<noteq> AggregateTypeInventoryItem"
  shows "erp_inv db'"
proof -
  from a obtain r where r: "db' = db1\<lparr>outbox := outbox db1 @ [r]\<rparr>" "row_ok r"
    "ob_atype r \<noteq> AggregateTypeInventoryItem"
    "ob_event r \<notin> ob_event ` set (outbox db1)" "row_key r \<notin> row_key ` set (outbox db1)"
    using ty by (auto elim: outbox_addedE)
  then have "item_rows db' it = item_rows db it" for it
    by (simp add: item_rows_def aggregate_rows_def same)
  with r inv show ?thesis by (auto simp: erp_inv_def item_ok_def same list_all_iff)
qed

lemma erp_inv_supplier: "erp_inv db \<Longrightarrow> supplier_effect cmd res db db' \<Longrightarrow> erp_inv db'"
  by (auto simp: supplier_effect_def supplier_envelope_def elim: erp_inv_hop)

lemma erp_inv_lot: "erp_inv db \<Longrightarrow> lot_effect cmd res db db' \<Longrightarrow> erp_inv db'"
  by (auto simp: lot_effect_def lot_envelope_def elim: erp_inv_hop)

lemma erp_inv_batch: "erp_inv db \<Longrightarrow> batch_effect cmd res db db' \<Longrightarrow> erp_inv db'"
  by (auto simp: batch_effect_def batch_envelope_def elim: erp_inv_hop)

lemma erp_inv_shipment: "erp_inv db \<Longrightarrow> shipment_effect cmd res db db' \<Longrightarrow> erp_inv db'"
  by (auto simp: shipment_effect_def shipment_envelope_def elim: erp_inv_hop)

lemma erp_inv_empty: "erp_inv empty_erp"
  by (simp add: erp_inv_def empty_erp_def)

lemma erp_inv_seed:
  assumes inv: "erp_inv db" and e: "seed_effect c u db db'"
  shows "erp_inv db'"
proof -
  obtain t i q where c: "c = (t, i, q)" by (cases c)
  with e have fresh: "(t, i) \<notin> item_key ` set (items db)" and q: "0 \<le> q"
    and db': "db' = db\<lparr>items := items db @ [\<lparr>ii_tenant = t, ii_item = i, ii_quantity = q, ii_version = 0\<rparr>]\<rparr>"
    by (auto simp: seed_effect_def item_key_def)
  then have same: "item_ok db' = item_ok db" by (simp add: item_ok_def item_rows_def aggregate_rows_def fun_eq_iff)
  have "aggregate_rows db t AggregateTypeInventoryItem i = []"
    unfolding aggregate_rows_def filter_empty_conv
  proof
    fix r assume "r \<in> set (outbox db)"
    with inv have "ob_atype r = AggregateTypeInventoryItem \<longrightarrow> (ob_tenant r, ob_aid r) \<in> item_key ` set (items db)"
      unfolding erp_inv_def by blast
    with fresh show "\<not> (ob_tenant r = t \<and> ob_atype r = AggregateTypeInventoryItem \<and> ob_aid r = i)" by blast
  qed
  then have "item_ok db \<lparr>ii_tenant = t, ii_item = i, ii_quantity = q, ii_version = 0\<rparr>"
    using q by (simp add: item_ok_def item_rows_def maxSafeInt_def)
  then show ?thesis using inv fresh unfolding erp_inv_def same by (auto simp: db' item_key_def)
qed

lemma find_item_Some:
  "find_item db t i = Some it \<Longrightarrow> it \<in> set (items db) \<and> item_key it = (t, i)"
  by (auto simp: find_item_def find_Some_iff item_key_def in_set_conv_nth)

lemma item_key_inj: "\<lbrakk> erp_inv db; x \<in> set (items db); y \<in> set (items db); item_key x = item_key y \<rbrakk> \<Longrightarrow> x = y"
  by (auto simp: erp_inv_def distinct_map dest: inj_onD)

text \<open>An order's envelope is only valid when the arithmetic of the transaction did not wrap.\<close>

lemma order_envelope_valid:
  assumes "valid_envelope (order_envelope cmd q q' v)"
  shows "q' = q - oc_Quantity cmd" "1 \<le> v" "v \<le> maxSafeInt" "0 \<le> q'" "1 \<le> oc_Quantity cmd"
  using assms by (auto simp: valid_envelope_def order_envelope_def)

lemma wrap64_next: "\<lbrakk> 0 \<le> v; v \<le> maxSafeInt \<rbrakk> \<Longrightarrow> wrap64 (v + 1) = v + 1"
  by (simp add: wrap64_def maxSafeInt_def)

lemma item_ok_extend:
  assumes "item_ok db it" "0 \<le> q'" "ii_version it + 1 \<le> maxSafeInt"
    and "item_rows db' it = item_rows db it @ [r]" "ob_version r = ii_version it + 1"
    and "row_envelope r = Some (order_envelope cmd (ii_quantity it) q' v)"
  shows "item_ok db' (it\<lparr>ii_quantity := q', ii_version := ii_version it + 1\<rparr>)"
proof -
  have "item_rows db' (it\<lparr>ii_quantity := q', ii_version := ii_version it + 1\<rparr>) = item_rows db it @ [r]"
    using assms(4) by (simp add: item_rows_def)
  moreover have "[1..ii_version it] @ [ii_version it + 1] = [1..ii_version it + 1]"
    using assms(1) by (simp add: item_ok_def upto_rec2)
  moreover obtain q where "replay q (item_rows db it) = Some (ii_quantity it)"
    using assms(1) by (auto simp: item_ok_def)
  then have "replay q (item_rows db it @ [r]) = Some q'"
    using assms(6) by (simp add: replay_append order_envelope_def AsQuantityDecremented_def)
  ultimately show ?thesis using assms(1,2,3,5) by (auto simp: item_ok_def)
qed

lemma erp_inv_order:
  assumes inv: "erp_inv db" and e: "order_effect cmd res db db'"
  shows "erp_inv db'"
proof -
  let ?t = "oc_TenantID cmd" and ?i = "oc_ItemID cmd"
  from e obtain it b db1 occ now where it: "find_item db ?t ?i = Some it"
    and db1: "db1 = db\<lparr>items := map (\<lambda>r. if ii_tenant r = ?t \<and> ii_item r = ?i
       then r\<lparr>ii_quantity := wrap64 (ii_quantity it - oc_Quantity cmd), ii_version := wrap64 (ii_version it + 1)\<rparr>
       else r) (items db), orders := orders db @ [new_order cmd occ now]\<rparr>"
    and a: "outbox_added (order_envelope cmd (ii_quantity it) (wrap64 (ii_quantity it - oc_Quantity cmd))
       (wrap64 (ii_version it + 1))) b db1 db'"
    unfolding order_effect_def by blast
  have o1: "outbox db1 = outbox db" by (simp add: db1)
  define q v where "q = wrap64 (ii_quantity it - oc_Quantity cmd)" and "v = wrap64 (ii_version it + 1)"
  from a obtain r where r: "db' = db1\<lparr>outbox := outbox db1 @ [r]\<rparr>" "row_ok r"
    "row_envelope r = Some (order_envelope cmd (ii_quantity it) q v)"
    "ob_tenant r = ?t" "ob_atype r = AggregateTypeInventoryItem" "ob_aid r = ?i" "ob_version r = v"
    and valid: "valid_envelope (order_envelope cmd (ii_quantity it) q v)"
    and new: "ob_event r \<notin> ob_event ` set (outbox db)" "row_key r \<notin> row_key ` set (outbox db)"
    unfolding q_def v_def by (rule outbox_addedE) (simp_all add: order_envelope_def o1)
  have mem: "it \<in> set (items db)" "item_key it = (?t, ?i)" using find_item_Some [OF it] by auto
  then have ok: "item_ok db it" using inv by (simp add: erp_inv_def list_all_iff)
  then have v: "v = ii_version it + 1" by (simp add: v_def item_ok_def wrap64_next)
  have uniq: "(ii_tenant x = ?t \<and> ii_item x = ?i) \<longleftrightarrow> x = it" if "x \<in> set (items db)" for x
    using item_key_inj [OF inv that mem(1)] mem(2) by (auto simp: item_key_def)
  have items': "items db' = map (\<lambda>x. if x = it then it\<lparr>ii_quantity := q, ii_version := ii_version it + 1\<rparr> else x) (items db)"
    using uniq by (simp add: r(1) db1 v [unfolded v_def] q_def cong: map_cong if_cong)
  have rows: "item_rows db' it = item_rows db it @ [r]"
    using mem(2) by (simp add: r(1,4,5,6) o1 item_rows_def aggregate_rows_def item_key_def)
  have others: "item_ok db' x" if "x \<in> set (items db)" "x \<noteq> it" for x
  proof -
    have "item_key x \<noteq> (?t, ?i)" using that item_key_inj [OF inv that(1) mem(1)] mem(2) by auto
    then have "item_rows db' x = item_rows db x"
      by (auto simp: r(1,4,5,6) o1 item_rows_def aggregate_rows_def item_key_def)
    with that inv show ?thesis by (simp add: erp_inv_def item_ok_def list_all_iff)
  qed
  have "item_ok db' (it\<lparr>ii_quantity := q, ii_version := ii_version it + 1\<rparr>)"
    using order_envelope_valid [OF valid] v r(3,7) by (intro item_ok_extend [OF ok _ _ rows]) auto
  with others have oks: "list_all (item_ok db') (items db')" by (auto simp: items' list_all_iff)
  have keys: "map item_key (items db') = map item_key (items db)" by (auto simp: items' item_key_def)
  then have keyset: "item_key ` set (items db') = item_key ` set (items db)" by (metis set_map)
  have outbox': "outbox db' = outbox db @ [r]" using r(1) o1 by simp
  have "(ob_tenant r, ob_aid r) \<in> item_key ` set (items db)" using mem r(4,6) by (metis image_eqI)
  with inv oks new r(2) show ?thesis unfolding erp_inv_def keys keyset outbox' by simp
qed

lemma erp_inv_reset:
  assumes inv: "erp_inv db" and e: "reset_effect t u db db'"
  shows "erp_inv db'"
proof -
  have db': "db' = keep_tenants t db" using e by (simp add: reset_effect_def)
  have rows: "item_rows db' it = item_rows db it" if "ii_tenant it \<noteq> t" for it
    using that by (auto simp: db' keep_tenants_def item_rows_def aggregate_rows_def intro!: filter_cong)
  have "list_all (item_ok db') (items db')"
    using inv rows by (auto simp: db' keep_tenants_def erp_inv_def list_all_iff item_ok_def)
  moreover have "(ob_tenant r, ob_aid r) \<in> item_key ` set (items db')"
    if "r \<in> set (outbox db')" "ob_atype r = AggregateTypeInventoryItem" for r
  proof -
    have "(ob_tenant r, ob_aid r) \<in> item_key ` set (items db)" "ob_tenant r \<noteq> t"
      using that inv by (simp_all add: db' keep_tenants_def erp_inv_def)
    then show ?thesis by (auto simp: db' keep_tenants_def item_key_def)
  qed
  ultimately show ?thesis
    using inv by (simp add: erp_inv_def) (simp add: db' keep_tenants_def list_all_iff distinct_map inj_on_def)
qed

section \<open>The lineage invariant\<close>

text \<open>\<open>caused_by prev env ty i\<close>: the cause of \<open>env\<close> is an event of the aggregate \<open>(ty, i)\<close> of its tenant
  among the rows \<open>prev\<close>.\<close>

definition caused_by :: "outbox_row list \<Rightarrow> envelope \<Rightarrow> string \<Rightarrow> string \<Rightarrow> bool" where
  "caused_by prev env ty i \<longleftrightarrow>
     (\<exists>r \<in> set prev. ob_tenant r = TenantID env \<and> ob_atype r = ty \<and> ob_aid r = i \<and> CausationID env = Some (ob_event r))"

definition row_order :: "outbox_row \<Rightarrow> string option" where
  "row_order r = map_option sd_OrderID (Option.bind (row_envelope r) AsShipmentDispatched)"

definition order_cause :: "outbox_row list \<Rightarrow> envelope \<Rightarrow> string \<Rightarrow> bool" where
  "order_cause prev env order \<longleftrightarrow> CausationID env = None \<or>
     (\<exists>r \<in> set prev. ob_tenant r = TenantID env \<and> ob_atype r = AggregateTypeShipment \<and>
        CausationID env = Some (ob_event r) \<and> row_order r = Some order)"

definition cause_ok :: "outbox_row list \<Rightarrow> outbox_row \<Rightarrow> bool" where
  "cause_ok prev r \<longleftrightarrow>
     (case row_envelope r of
        None \<Rightarrow> False
      | Some env \<Rightarrow> TenantID env = ob_tenant r \<and>
          (case Payload env of
             None \<Rightarrow> False
           | Some (SupplierRegistered p) \<Rightarrow> CausationID env = None
           | Some (IngredientLotReceived p) \<Rightarrow> caused_by prev env AggregateTypeSupplier (il_SupplierID p)
           | Some (ProductionBatchProduced p) \<Rightarrow> caused_by prev env AggregateTypeIngredientLot (pb_LotID p)
           | Some (ShipmentDispatched p) \<Rightarrow> caused_by prev env AggregateTypeProductionBatch (sd_BatchID p)
           | Some (QuantityDecremented p) \<Rightarrow> order_cause prev env (qd_OrderID p)))"

fun causal_from :: "outbox_row list \<Rightarrow> outbox_row list \<Rightarrow> bool" where
  "causal_from prev [] \<longleftrightarrow> True"
| "causal_from prev (r # rs) \<longleftrightarrow> cause_ok prev r \<and> causal_from (prev @ [r]) rs"

definition shipments_linked :: "erp_db \<Rightarrow> bool" where
  "shipments_linked db \<longleftrightarrow>
     (\<forall>s \<in> set (shipments db). \<forall>r \<in> set (aggregate_rows db (sh_tenant s) AggregateTypeShipment (sh_shipment s)).
        row_order r = Some (sh_order s))"

definition causal :: "erp_db \<Rightarrow> bool" where
  "causal db \<longleftrightarrow> causal_from [] (outbox db) \<and> shipments_linked db \<and>
     (\<forall>r \<in> set (outbox db). ob_atype r \<noteq> AggregateTypeInventoryItem \<longrightarrow> ob_version r = firstAggregateVersion)"

lemma causal_from_append: "causal_from prev (xs @ ys) \<longleftrightarrow> causal_from prev xs \<and> causal_from (prev @ xs) ys"
  by (induction xs arbitrary: prev) auto

lemma causal_from_split: "\<lbrakk> causal_from prev rs; rs = xs @ r # ys \<rbrakk> \<Longrightarrow> cause_ok (prev @ xs) r"
  by (simp add: causal_from_append)

lemma cause_ok_filter:
  "cause_ok prev r \<Longrightarrow> ob_tenant r \<noteq> t \<Longrightarrow> cause_ok (filter (\<lambda>r. ob_tenant r \<noteq> t) prev) r"
  by (auto simp: cause_ok_def caused_by_def order_cause_def split: option.splits payload.splits)

lemma causal_from_filter:
  "causal_from prev rs \<Longrightarrow> causal_from (filter (\<lambda>r. ob_tenant r \<noteq> t) prev) (filter (\<lambda>r. ob_tenant r \<noteq> t) rs)"
proof (induction rs arbitrary: prev)
  case (Cons r rs)
  from Cons.IH [of "prev @ [r]"] Cons.prems show ?case by (auto intro: cause_ok_filter)
qed simp

lemma first_by_version_set: "first_by_version rs = Some r \<Longrightarrow> r \<in> set rs"
  using set_isort [of "\<lambda>a b. ob_version a < ob_version b" rs]
  by (auto simp: first_by_version_def simp del: set_isort split: list.splits)

lemma parent_event_row:
  "parent_event db t ty i e \<Longrightarrow> \<exists>r \<in> set (outbox db). ob_tenant r = t \<and> ob_atype r = ty \<and> ob_aid r = i \<and> e = ob_event r"
  by (auto simp: parent_event_def aggregate_rows_def dest!: first_by_version_set)

lemma linked_add:
  assumes "shipments_linked db" "db' = db\<lparr>outbox := outbox db @ [r]\<rparr>"
    and "ob_atype r = AggregateTypeShipment \<Longrightarrow>
      \<forall>s \<in> set (shipments db). sh_tenant s = ob_tenant r \<and> sh_shipment s = ob_aid r \<longrightarrow> row_order r = Some (sh_order s)"
  shows "shipments_linked db'"
  using assms by (auto simp: shipments_linked_def aggregate_rows_def)

text \<open>Adding one row whose cause is in place keeps the invariant.\<close>

lemma causal_add:
  assumes inv: "causal db" and a: "outbox_added env b db1 db'" and same: "outbox db1 = outbox db"
    and ver: "AggregateType env \<noteq> AggregateTypeInventoryItem \<Longrightarrow> AggregateVersion env = firstAggregateVersion"
    and linked: "shipments_linked db1"
    and new: "\<And>r. \<lbrakk> AggregateType env = AggregateTypeShipment; row_envelope r = Some env \<rbrakk> \<Longrightarrow>
      \<forall>s \<in> set (shipments db1). sh_tenant s = TenantID env \<and> sh_shipment s = AggregateID env \<longrightarrow>
        row_order r = Some (sh_order s)"
    and cause: "\<And>r. \<lbrakk> row_envelope r = Some env; ob_tenant r = TenantID env \<rbrakk> \<Longrightarrow> cause_ok (outbox db) r"
  shows "causal db'"
proof -
  from a obtain r where r: "db' = db1\<lparr>outbox := outbox db1 @ [r]\<rparr>" "row_envelope r = Some env"
    "ob_tenant r = TenantID env" "ob_atype r = AggregateType env" "ob_aid r = AggregateID env"
    "ob_version r = AggregateVersion env"
    by (rule outbox_addedE)
  have "shipments_linked db'"
    by (rule linked_add [OF linked r(1)]) (use new r in auto)
  moreover have "cause_ok (outbox db) r" by (rule cause [OF r(2,3)])
  ultimately show ?thesis
    using inv r(1,4,6) ver same by (auto simp: causal_def causal_from_append)
qed

lemma causal_supplier:
  assumes inv: "causal db" and e: "supplier_effect cmd res db db'"
  shows "causal db'"
proof -
  from e obtain x b where a: "outbox_added (supplier_envelope cmd) b (db\<lparr>suppliers := x\<rparr>) db'"
    unfolding supplier_effect_def by blast
  show ?thesis
    by (rule causal_add [OF inv a])
      (use inv in \<open>auto simp: supplier_envelope_def causal_def shipments_linked_def aggregate_rows_def cause_ok_def\<close>)
qed

lemma causal_lot:
  assumes inv: "causal db" and e: "lot_effect cmd res db db'"
  shows "causal db'"
proof -
  from e obtain x b c where a: "outbox_added (lot_envelope cmd) b (db\<lparr>lots := x\<rparr>) db'"
    and c: "lc_CausationID cmd = Some c" "parent_event db (lc_TenantID cmd) AggregateTypeSupplier (lc_SupplierID cmd) c"
    unfolding lot_effect_def by blast
  show ?thesis
    by (rule causal_add [OF inv a])
      (use inv c parent_event_row [OF c(2)] in \<open>auto simp: lot_envelope_def causal_def shipments_linked_def
        aggregate_rows_def cause_ok_def caused_by_def\<close>)
qed

lemma causal_batch:
  assumes inv: "causal db" and e: "batch_effect cmd res db db'"
  shows "causal db'"
proof -
  from e obtain x b c where a: "outbox_added (batch_envelope cmd) b (db\<lparr>batches := x\<rparr>) db'"
    and c: "bc_CausationID cmd = Some c" "parent_event db (bc_TenantID cmd) AggregateTypeIngredientLot (bc_LotID cmd) c"
    unfolding batch_effect_def by blast
  show ?thesis
    by (rule causal_add [OF inv a])
      (use inv c parent_event_row [OF c(2)] in \<open>auto simp: batch_envelope_def causal_def shipments_linked_def
        aggregate_rows_def cause_ok_def caused_by_def\<close>)
qed

text \<open>A shipment is linked to its order by the one row of its aggregate: rows of lineage aggregates
  have version 1, so a second row would repeat the key of the first.\<close>

lemma causal_shipment:
  assumes inv: "causal db" and e: "shipment_effect cmd res db db'"
  shows "causal db'"
proof -
  from e obtain s b c at where s: "s = new_shipment cmd at"
    and uniq: "\<forall>x \<in> set (shipments db). sh_tenant x = sh_tenant s \<longrightarrow> sh_shipment x \<noteq> sh_shipment s"
    and c: "hc_CausationID cmd = Some c" "parent_event db (hc_TenantID cmd) AggregateTypeProductionBatch (hc_BatchID cmd) c"
    and a: "outbox_added (shipment_envelope cmd) b (db\<lparr>shipments := shipments db @ [s]\<rparr>) db'"
    unfolding shipment_effect_def by blast
  have key: "sh_tenant s = hc_TenantID cmd" "sh_shipment s = hc_ShipmentID cmd" "sh_order s = hc_OrderID cmd"
    by (simp_all add: s new_shipment_def)
  from a have "(hc_TenantID cmd, AggregateTypeShipment, hc_ShipmentID cmd, firstAggregateVersion) \<notin> row_key ` set (outbox db)"
    by (rule outbox_addedE) (simp add: row_key_def shipment_envelope_def)
  then have "aggregate_rows db (hc_TenantID cmd) AggregateTypeShipment (hc_ShipmentID cmd) = []"
    using inv by (force simp: aggregate_rows_def filter_empty_conv row_key_def causal_def)
  then have linked: "shipments_linked (db\<lparr>shipments := shipments db @ [s]\<rparr>)"
    using inv by (auto simp: causal_def shipments_linked_def key) (simp add: aggregate_rows_def)+
  show ?thesis
    by (rule causal_add [OF inv a _ _ linked])
      (use uniq c parent_event_row [OF c(2)] in \<open>auto simp: shipment_envelope_def key cause_ok_def caused_by_def
        row_order_def AsShipmentDispatched_def\<close>)
qed

lemma causal_order:
  assumes inv: "causal db" and e: "order_effect cmd res db db'"
  shows "causal db'"
proof -
  from e obtain x y q q' v b where caused: "order_caused cmd db"
    and a: "outbox_added (order_envelope cmd q q' v) b (db\<lparr>items := x, orders := y\<rparr>) db'"
    unfolding order_effect_def by blast
  have cause: "order_cause (outbox db) (order_envelope cmd q q' v) (oc_OrderID cmd)"
  proof (cases "find (\<lambda>r. sh_tenant r = oc_TenantID cmd \<and> sh_order r = oc_OrderID cmd) (shipments db)")
    case None
    with caused show ?thesis by (simp add: order_caused_def order_cause_def order_envelope_def)
  next
    case (Some s)
    then have s: "s \<in> set (shipments db)" "sh_tenant s = oc_TenantID cmd" "sh_order s = oc_OrderID cmd"
      by (auto simp: find_Some_iff in_set_conv_nth)
    from Some caused obtain c r where c: "oc_CausationID cmd = Some c" "c = ob_event r"
      and r: "r \<in> set (aggregate_rows db (sh_tenant s) AggregateTypeShipment (sh_shipment s))"
      by (auto simp: order_caused_def parent_event_def s dest!: first_by_version_set)
    have "row_order r = Some (oc_OrderID cmd)"
      using inv s(1,3) r by (auto simp: causal_def shipments_linked_def)
    with c r s show ?thesis by (auto simp: order_cause_def order_envelope_def aggregate_rows_def)
  qed
  show ?thesis
    by (rule causal_add [OF inv a])
      (use inv cause in \<open>auto simp: causal_def shipments_linked_def aggregate_rows_def cause_ok_def order_envelope_def\<close>)
qed

lemma causal_empty: "causal empty_erp"
  by (simp add: causal_def shipments_linked_def empty_erp_def)

lemma causal_seed: "causal db \<Longrightarrow> seed_effect c u db db' \<Longrightarrow> causal db'"
  by (auto simp: seed_effect_def causal_def shipments_linked_def aggregate_rows_def split: prod.splits)

lemma causal_reset: "causal db \<Longrightarrow> reset_effect t u db db' \<Longrightarrow> causal db'"
  using causal_from_filter [of "[]" "outbox db" t]
  by (auto simp: reset_effect_def keep_tenants_def causal_def shipments_linked_def aggregate_rows_def)

end
