(* ===== verification/Relay.thy ===== *)
theory Relay
  imports Erp_Ledger
begin

text \<open>
  Package \<^verbatim>\<open>relay\<close>: claiming due outbox rows, publishing them, and the status of a row
  (\<^verbatim>\<open>relay/claim.go\<close>, \<^verbatim>\<open>relay/publish.go\<close>, \<^verbatim>\<open>relay/backlog.go\<close>, \<^verbatim>\<open>relay/redpanda.go\<close>).

  The broker is outside the program: it is a log of messages and a schedule of replies, one per
  produce call. \<open>Acked\<close> stores the message and acknowledges it, \<open>AckLost\<close> stores it and reports an
  error, \<open>Refused\<close> does neither. Durations are in nanoseconds, stored times in microseconds.
  A row's primary key makes every update by \<^verbatim>\<open>event_id\<close> touch at most one row.
\<close>

section \<open>Constants, records and errors\<close>

definition Topic :: string where "Topic = ''seshatops.m1.events''"

definition second :: int where "second = 1000000000"

definition DefaultLeaseTTL :: int where "DefaultLeaseTTL = 30 * second"

datatype relay_error =
    RelayOwnerRequired | RelayDB | RelayRowCount | ErrQuarantineNotFound | RelayEmptyTenant

record Record =
  rec_EventID :: string
  rec_TenantID :: string
  rec_AggregateType :: string
  rec_AggregateID :: string
  rec_AggregateVersion :: int
  rec_ContentHash :: string
  rec_EventBytes :: string
  rec_Status :: outbox_status
  rec_RecordedAt :: int
  rec_PublishAttempts :: int
  rec_LastErrorCode :: "string option"
  rec_LeaseOwner :: "string option"
  rec_LeaseExpiresAt :: "int option"
  rec_CreatedAt :: int

definition scanRecord :: "outbox_row \<Rightarrow> Record" where
  "scanRecord r =
     \<lparr>rec_EventID = ob_event r, rec_TenantID = ob_tenant r, rec_AggregateType = ob_atype r,
      rec_AggregateID = ob_aid r, rec_AggregateVersion = ob_version r, rec_ContentHash = ob_hash r,
      rec_EventBytes = ob_bytes r, rec_Status = ob_status r, rec_RecordedAt = ob_recorded r,
      rec_PublishAttempts = ob_attempts r, rec_LastErrorCode = ob_error r, rec_LeaseOwner = ob_owner r,
      rec_LeaseExpiresAt = ob_expires r, rec_CreatedAt = ob_created r\<rparr>"

definition AggregateKey :: "string \<Rightarrow> string \<Rightarrow> string \<Rightarrow> string" where
  "AggregateKey tenantID aggregateType aggregateID = tenantID @ ''/'' @ aggregateType @ ''/'' @ aggregateID"

section \<open>Backoff\<close>

definition BackoffAfterAttempts :: "int \<Rightarrow> int" where
  "BackoffAfterAttempts attempts =
     (let attempts = (if attempts < 1 then 1 else attempts);
          shift = wrap64 (attempts - 1);
          shift = (if shift > 6 then 6 else shift);
          d = wrap64 (second * 2 ^ nat shift);
          cap = 60 * second
      in if d > cap then cap else d)"

text \<open>The delay in seconds that the statement of \<^verbatim>\<open>ReleaseTransient\<close> computes from
  \<^verbatim>\<open>publish_attempts\<close>; the cast of the power to \<^verbatim>\<open>bigint\<close> fails when it is out of range.\<close>

definition sql_backoff :: "int \<Rightarrow> int option" where
  "sql_backoff attempts =
     (let p = 2 ^ nat (max attempts 1 - 1) in if p < 2 ^ 63 then Some (min 60 p) else None)"

section \<open>Status updates\<close>

definition update_outbox ::
  "(outbox_row \<Rightarrow> bool) \<Rightarrow> (outbox_row \<Rightarrow> outbox_row) \<Rightarrow> erp_db \<Rightarrow> relay_error + (nat \<times> erp_db)" where
  "update_outbox P f db =
     Inr (length (filter P (outbox db)), db\<lparr>outbox := map (\<lambda>r. if P r then f r else r) (outbox db)\<rparr>)"

definition leased :: "string \<Rightarrow> string \<Rightarrow> outbox_row \<Rightarrow> bool" where
  "leased eventID owner r \<longleftrightarrow> ob_event r = eventID \<and> ob_status r = Publishing \<and> ob_owner r = Some owner"

definition expect_one ::
  "relay_error \<Rightarrow> (relay_error + nat) \<times> erp_db world \<Rightarrow> (relay_error + unit) \<times> erp_db world" where
  "expect_one err p =
     (case p of
        (Inl e, w) \<Rightarrow> (Inl e, w)
      | (Inr n, w) \<Rightarrow> if n \<noteq> 1 then (Inl err, w) else (Inr (), w))"

definition MarkPublished :: "string \<Rightarrow> string \<Rightarrow> erp_db world \<Rightarrow> (relay_error + unit) \<times> erp_db world" where
  "MarkPublished eventID owner w =
     expect_one RelayRowCount (exec_auto RelayDB [eventID, owner]
       (\<lambda>now. update_outbox (leased eventID owner)
          (\<lambda>r. r\<lparr>ob_status := Published, ob_owner := None, ob_expires := None, ob_error := None\<rparr>)) w)"

definition release_transient_rows ::
  "string \<Rightarrow> string \<Rightarrow> string \<Rightarrow> int \<Rightarrow> erp_db \<Rightarrow> relay_error + (nat \<times> erp_db)" where
  "release_transient_rows eventID owner errCode now db =
     (if list_ex (\<lambda>r. leased eventID owner r \<and> sql_backoff (ob_attempts r) = None) (outbox db) then Inl RelayDB
      else update_outbox (leased eventID owner)
        (\<lambda>r. r\<lparr>ob_status := Pending, ob_owner := None,
               ob_expires := map_option (\<lambda>s. now + s * 1000000) (sql_backoff (ob_attempts r)),
               ob_error := Some errCode\<rparr>) db)"

definition ReleaseTransient ::
  "string \<Rightarrow> string \<Rightarrow> string \<Rightarrow> erp_db world \<Rightarrow> (relay_error + unit) \<times> erp_db world" where
  "ReleaseTransient eventID owner errCode w =
     expect_one RelayRowCount
       (exec_auto RelayDB [eventID, owner, errCode] (release_transient_rows eventID owner errCode) w)"

definition ReleaseQuarantined :: "string \<Rightarrow> string \<Rightarrow> erp_db world \<Rightarrow> (relay_error + unit) \<times> erp_db world" where
  "ReleaseQuarantined tenantID eventID w =
     (if tenantID = [] \<or> eventID = [] then (Inl ErrQuarantineNotFound, w)
      else expect_one ErrQuarantineNotFound (exec_auto RelayDB [eventID, tenantID]
        (\<lambda>now. update_outbox (\<lambda>r. ob_event r = eventID \<and> ob_tenant r = tenantID \<and> ob_status r = Quarantined)
           (\<lambda>r. r\<lparr>ob_status := Pending, ob_owner := None, ob_expires := None\<rparr>)) w))"

definition Quarantine ::
  "string \<Rightarrow> string \<Rightarrow> string \<Rightarrow> erp_db world \<Rightarrow> (relay_error + unit) \<times> erp_db world" where
  "Quarantine eventID owner errCode w =
     expect_one RelayRowCount (exec_auto RelayDB [eventID, owner, errCode]
       (\<lambda>now. update_outbox (leased eventID owner)
          (\<lambda>r. r\<lparr>ob_status := Quarantined, ob_owner := None, ob_expires := None, ob_error := Some errCode\<rparr>)) w)"

section \<open>Claiming\<close>

definition due :: "int \<Rightarrow> outbox_row \<Rightarrow> bool" where
  "due now r \<longleftrightarrow> (ob_status r = Pending \<or> ob_status r = Publishing) \<and>
     (case ob_expires r of None \<Rightarrow> True | Some t \<Rightarrow> t \<le> now)"

definition due_rows :: "int \<Rightarrow> int \<Rightarrow> erp_db \<Rightarrow> outbox_row list" where
  "due_rows limit now db = take (nat limit) (isort (\<lambda>a b. ob_created a < ob_created b) (filter (due now) (outbox db)))"

definition claim_row ::
  "string \<Rightarrow> string \<Rightarrow> int \<Rightarrow> int \<Rightarrow> erp_db \<Rightarrow> relay_error + ((int \<times> int) \<times> erp_db)" where
  "claim_row eventID owner expiresMs now db =
     (case find (\<lambda>r. ob_event r = eventID) (outbox db) of
        None \<Rightarrow> Inl RelayDB
      | Some r \<Rightarrow>
          if ob_attempts r + 1 \<ge> 2 ^ 31 then Inl RelayDB
          else Inr ((ob_attempts r + 1, now + expiresMs * 1000),
                 db\<lparr>outbox := map (\<lambda>x. if ob_event x = eventID
                      then x\<lparr>ob_status := Publishing, ob_owner := Some owner,
                             ob_expires := Some (now + expiresMs * 1000), ob_attempts := ob_attempts x + 1\<rparr>
                      else x) (outbox db)\<rparr>))"

primrec claim_records ::
  "string \<Rightarrow> int \<Rightarrow> int \<Rightarrow> Record list \<Rightarrow> (erp_db, relay_error, Record list) tx" where
  "claim_records owner expiresMs now [] = tx_return []"
| "claim_records owner expiresMs now (rec # recs) =
     tx_bind (tx_stmt RelayDB [rec_EventID rec, owner] (claim_row (rec_EventID rec) owner expiresMs now))
     (\<lambda>(newAttempts, leaseExp).
     tx_bind (claim_records owner expiresMs now recs) (\<lambda>out.
     tx_return (rec\<lparr>rec_Status := Publishing, rec_PublishAttempts := newAttempts,
                    rec_LeaseOwner := Some owner, rec_LeaseExpiresAt := Some leaseExp\<rparr> # out)))"

definition ClaimDue_tx :: "string \<Rightarrow> int \<Rightarrow> int \<Rightarrow> int \<Rightarrow> (erp_db, relay_error, Record list) tx" where
  "ClaimDue_tx owner leaseTTL limit now =
     tx_bind (tx_query RelayDB [] (due_rows limit now)) (\<lambda>rows.
     claim_records owner (leaseTTL div 1000000) now (map scanRecord rows))"

definition ClaimDue ::
  "string \<Rightarrow> int \<Rightarrow> int \<Rightarrow> erp_db world \<Rightarrow> (relay_error + Record list) \<times> erp_db world" where
  "ClaimDue owner leaseTTL limit =
     lift_world (if owner = [] then Some RelayOwnerRequired else None)
       (transact RelayDB RelayDB
          (ClaimDue_tx owner (if leaseTTL \<le> 0 then DefaultLeaseTTL else leaseTTL) (if limit < 1 then 1 else limit)))"

section \<open>Publishing\<close>

datatype produce_reply = Acked | AckLost | Refused

record relay_state =
  source :: "erp_db world"
  broker_log :: "(string \<times> string \<times> string) list"
  broker_replies :: "produce_reply list"

definition Publish :: "string \<Rightarrow> string \<Rightarrow> string \<Rightarrow> relay_state \<Rightarrow> bool \<times> relay_state" where
  "Publish topic key val s =
     (let (reply, rest) = pop Acked (broker_replies s);
          s' = s\<lparr>broker_replies := rest\<rparr>
      in case reply of
           Acked \<Rightarrow> (True, s'\<lparr>broker_log := broker_log s @ [(topic, key, val)]\<rparr>)
         | AckLost \<Rightarrow> (False, s'\<lparr>broker_log := broker_log s @ [(topic, key, val)]\<rparr>)
         | Refused \<Rightarrow> (False, s'))"

datatype outcomeKind = outcomePublished | outcomeTransient | outcomeQuarantine | outcomeAmbiguous

definition on_source ::
  "(erp_db world \<Rightarrow> 'a \<times> erp_db world) \<Rightarrow> relay_state \<Rightarrow> 'a \<times> relay_state" where
  "on_source f s = (case f (source s) of (x, w) \<Rightarrow> (x, s\<lparr>source := w\<rparr>))"

definition and_then :: "(relay_error + unit) \<times> relay_state \<Rightarrow> outcomeKind \<Rightarrow> (relay_error + outcomeKind) \<times> relay_state" where
  "and_then p kind = (case p of (Inl e, s) \<Rightarrow> (Inl e, s) | (Inr _, s) \<Rightarrow> (Inr kind, s))"

definition parse_code :: "event_error \<Rightarrow> string" where
  "parse_code e =
     (if e = ErrMalformed then ''malformed_envelope''
      else if e = ErrUnsupported then ''unsupported_contract'' else ''contract_invalid'')"

definition publishOne :: "string \<Rightarrow> Record \<Rightarrow> relay_state \<Rightarrow> (relay_error + outcomeKind) \<times> relay_state" where
  "publishOne owner rec s =
     (case Parse (rec_EventBytes rec) of
        Inl e \<Rightarrow> and_then (on_source (Quarantine (rec_EventID rec) owner (parse_code e)) s) outcomeQuarantine
      | Inr env \<Rightarrow>
          if TenantID env \<noteq> rec_TenantID rec \<or> AggregateType env \<noteq> rec_AggregateType rec \<or>
             AggregateID env \<noteq> rec_AggregateID rec
          then and_then (on_source (Quarantine (rec_EventID rec) owner ''aggregate_key_mismatch'') s) outcomeQuarantine
          else
            (case Publish Topic (AggregateKey (TenantID env) (AggregateType env) (AggregateID env)) (rec_EventBytes rec) s of
               (False, s1) \<Rightarrow>
                 and_then (on_source (ReleaseTransient (rec_EventID rec) owner ''broker_publish_failed'') s1) outcomeTransient
             | (True, s1) \<Rightarrow>
                 (case on_source (MarkPublished (rec_EventID rec) owner) s1 of
                    (Inl e, s2) \<Rightarrow> (Inr outcomeAmbiguous, s2)
                  | (Inr _, s2) \<Rightarrow> (Inr outcomePublished, s2))))"

record DrainResult =
  dr_Claimed :: nat
  dr_Published :: nat
  dr_Transient :: nat
  dr_Quarantined :: nat
  dr_Ambiguous :: nat

definition count_outcome :: "outcomeKind \<Rightarrow> DrainResult \<Rightarrow> DrainResult" where
  "count_outcome kind out =
     (case kind of
        outcomePublished \<Rightarrow> out\<lparr>dr_Published := dr_Published out + 1\<rparr>
      | outcomeTransient \<Rightarrow> out\<lparr>dr_Transient := dr_Transient out + 1\<rparr>
      | outcomeQuarantine \<Rightarrow> out\<lparr>dr_Quarantined := dr_Quarantined out + 1\<rparr>
      | outcomeAmbiguous \<Rightarrow> out\<lparr>dr_Ambiguous := dr_Ambiguous out + 1\<rparr>)"

primrec drain_records ::
  "string \<Rightarrow> Record list \<Rightarrow> DrainResult \<Rightarrow> relay_state \<Rightarrow> (DrainResult \<times> relay_error option) \<times> relay_state" where
  "drain_records owner [] out s = ((out, None), s)"
| "drain_records owner (rec # recs) out s =
     (case publishOne owner rec s of
        (Inl e, s') \<Rightarrow> ((out, Some e), s')
      | (Inr kind, s') \<Rightarrow> drain_records owner recs (count_outcome kind out) s')"

definition empty_drain :: DrainResult where
  "empty_drain = \<lparr>dr_Claimed = 0, dr_Published = 0, dr_Transient = 0, dr_Quarantined = 0, dr_Ambiguous = 0\<rparr>"

definition DrainOnce ::
  "string \<Rightarrow> int \<Rightarrow> int \<Rightarrow> relay_state \<Rightarrow> (DrainResult \<times> relay_error option) \<times> relay_state" where
  "DrainOnce owner leaseTTL limit s =
     (case on_source (ClaimDue owner leaseTTL limit) s of
        (Inl e, s') \<Rightarrow> ((empty_drain, Some e), s')
      | (Inr recs, s') \<Rightarrow> drain_records owner recs (empty_drain\<lparr>dr_Claimed := length recs\<rparr>) s')"

section \<open>Backlog\<close>

record QuarantineSample =
  qs_EventID :: string
  qs_LastErrorCode :: string
  qs_CreatedAt :: int

record Backlog =
  bl_Pending :: nat
  bl_Publishing :: nat
  bl_Published :: nat
  bl_Quarantined :: nat
  bl_OldestUnpublished :: "int option"
  bl_Quarantines :: "QuarantineSample list"

definition tenantPredicate :: "string \<Rightarrow> outbox_row \<Rightarrow> bool" where
  "tenantPredicate tenantID r \<longleftrightarrow> tenantID = [] \<or> ob_tenant r = tenantID"

definition tenantAndStatus :: "string \<Rightarrow> (outbox_status \<Rightarrow> bool) \<Rightarrow> outbox_row \<Rightarrow> bool" where
  "tenantAndStatus tenantID p r \<longleftrightarrow> (tenantID = [] \<or> ob_tenant r = tenantID) \<and> p (ob_status r)"

definition count_status :: "string \<Rightarrow> outbox_status \<Rightarrow> erp_db \<Rightarrow> nat" where
  "count_status tenantID st db = length (filter (\<lambda>r. ob_status r = st) (filter (tenantPredicate tenantID) (outbox db)))"

definition min_created :: "outbox_row list \<Rightarrow> int option" where
  "min_created rs = (if rs = [] then None else Some (Min (ob_created ` set rs)))"

definition quarantine_sample :: "outbox_row \<Rightarrow> QuarantineSample" where
  "quarantine_sample r =
     \<lparr>qs_EventID = ob_event r, qs_LastErrorCode = (case ob_error r of None \<Rightarrow> [] | Some c \<Rightarrow> c),
      qs_CreatedAt = ob_created r\<rparr>"

definition inspectBacklog :: "string \<Rightarrow> erp_db world \<Rightarrow> (relay_error + Backlog) \<times> erp_db world" where
  "inspectBacklog tenantID w =
     (let ps = (if tenantID = [] then [] else [tenantID]) in
      case query_auto RelayDB ps (\<lambda>now db. map (\<lambda>st. count_status tenantID st db) [Pending, Publishing, Published, Quarantined]) w of
        (Inl e, w1) \<Rightarrow> (Inl e, w1)
      | (Inr ns, w1) \<Rightarrow>
          (case query_auto RelayDB ps (\<lambda>now db. min_created
                  (filter (tenantAndStatus tenantID (\<lambda>s. s = Pending \<or> s = Publishing)) (outbox db))) w1 of
             (Inl e, w2) \<Rightarrow> (Inl e, w2)
           | (Inr oldest, w2) \<Rightarrow>
               (case query_auto RelayDB ps (\<lambda>now db. map quarantine_sample (take 20
                       (isort (\<lambda>a b. ob_created a < ob_created b)
                          (filter (tenantAndStatus tenantID (\<lambda>s. s = Quarantined)) (outbox db))))) w2 of
                  (Inl e, w3) \<Rightarrow> (Inl e, w3)
                | (Inr qs, w3) \<Rightarrow>
                    (Inr \<lparr>bl_Pending = ns ! 0, bl_Publishing = ns ! 1, bl_Published = ns ! 2,
                          bl_Quarantined = ns ! 3, bl_OldestUnpublished = oldest, bl_Quarantines = qs\<rparr>, w3))))"

definition InspectBacklog :: "erp_db world \<Rightarrow> (relay_error + Backlog) \<times> erp_db world" where
  "InspectBacklog = inspectBacklog []"

definition InspectBacklogForTenant :: "string \<Rightarrow> erp_db world \<Rightarrow> (relay_error + Backlog) \<times> erp_db world" where
  "InspectBacklogForTenant tenantID w = (if tenantID = [] then (Inl RelayEmptyTenant, w) else inspectBacklog tenantID w)"

section \<open>What the relay may do to a row\<close>

definition ob_ident :: "outbox_row \<Rightarrow> string \<times> string \<times> string \<times> string \<times> int \<times> string \<times> string" where
  "ob_ident r = (ob_event r, ob_tenant r, ob_atype r, ob_aid r, ob_version r, ob_hash r, ob_bytes r)"

inductive status_step :: "outbox_status \<Rightarrow> outbox_status \<Rightarrow> bool" where
  claim: "status_step Pending Publishing"
| reclaim: "status_step Publishing Publishing"
| publish: "status_step Publishing Published"
| retry: "status_step Publishing Pending"
| quarantine: "status_step Publishing Quarantined"
| release: "status_step Quarantined Pending"

code_pred status_step .

inductive_simps status_step_Published [simp]: "status_step Published st"

definition row_move :: "outbox_row \<Rightarrow> outbox_row \<Rightarrow> bool" where
  "row_move r r' \<longleftrightarrow> r' = r \<or>
     ob_ident r' = ob_ident r \<and> ob_created r' = ob_created r \<and> ob_recorded r' = ob_recorded r \<and>
     status_step (ob_status r) (ob_status r')"

definition outbox_moves :: "erp_db \<Rightarrow> erp_db \<Rightarrow> bool" where
  "outbox_moves db db' \<longleftrightarrow> db' = db\<lparr>outbox := outbox db'\<rparr> \<and> list_all2 row_move (outbox db) (outbox db')"

lemma row_move_ident: "row_move r r' \<Longrightarrow> ob_ident r' = ob_ident r"
  by (auto simp: row_move_def)

lemma row_move_published: "row_move r r' \<Longrightarrow> ob_status r = Published \<Longrightarrow> r' = r"
  by (auto simp: row_move_def)

lemma outbox_moves_refl [simp]: "outbox_moves db db"
  by (simp add: outbox_moves_def list.rel_refl row_move_def)

lemma ident_fields:
  "ob_ident r' = ob_ident r \<Longrightarrow> ob_event r' = ob_event r \<and> ob_tenant r' = ob_tenant r \<and> ob_atype r' = ob_atype r \<and>
   ob_aid r' = ob_aid r \<and> ob_version r' = ob_version r \<and> ob_hash r' = ob_hash r \<and> ob_bytes r' = ob_bytes r"
  by (simp add: ob_ident_def)

lemma moves_ident: "list_all2 row_move xs ys \<Longrightarrow> map ob_ident ys = map ob_ident xs"
  by (induction rule: list_all2_induct) (auto dest: row_move_ident)

text \<open>The ledger and lineage invariants only read the identity of the rows.\<close>

lemma ident_congs:
  assumes "ob_ident r' = ob_ident r"
  shows "row_envelope r' = row_envelope r" "row_ok r' = row_ok r" "row_key r' = row_key r" "row_order r' = row_order r"
  using ident_fields [OF assms] unfolding row_envelope_def row_ok_def row_key_def row_order_def by simp_all

lemma ident_map_cong:
  assumes same: "map ob_ident ys = map ob_ident xs" and f: "\<And>r r'. ob_ident r' = ob_ident r \<Longrightarrow> f r' = f r"
  shows "map f ys = map f xs"
proof (rule nth_equalityI)
  show "length (map f ys) = length (map f xs)" using map_eq_imp_length_eq [OF same] by simp
next
  fix i assume "i < length (map f ys)"
  then have "i < length ys" "i < length xs" using map_eq_imp_length_eq [OF same] by simp_all
  moreover from this have "ob_ident (ys ! i) = ob_ident (xs ! i)" using same by (metis nth_map)
  then have "f (ys ! i) = f (xs ! i)" by (rule f)
  ultimately show "map f ys ! i = map f xs ! i" by simp
qed

lemma ident_map:
  assumes "map ob_ident ys = map ob_ident xs"
  shows "map ob_event ys = map ob_event xs" "map row_key ys = map row_key xs" "map ob_version ys = map ob_version xs"
    "list_all row_ok ys = list_all row_ok xs"
proof -
  show "map ob_event ys = map ob_event xs" "map row_key ys = map row_key xs" "map ob_version ys = map ob_version xs"
    by (rule ident_map_cong [OF assms], drule ident_fields, simp add: row_key_def)+
  have "map row_ok ys = map row_ok xs" by (rule ident_map_cong [OF assms]) (rule ident_congs)
  then have "list_all id (map row_ok ys) = list_all id (map row_ok xs)" by simp
  then show "list_all row_ok ys = list_all row_ok xs" by (simp add: list.pred_map comp_def)
qed

lemma ident_filter:
  assumes "map ob_ident ys = map ob_ident xs" and P: "\<And>r r'. ob_ident r' = ob_ident r \<Longrightarrow> P r' = P r"
  shows "map ob_ident (filter P ys) = map ob_ident (filter P xs)"
  using assms(1)
proof (induction ys arbitrary: xs)
  case (Cons y ys)
  then obtain x xs' where "xs = x # xs'" "ob_ident y = ob_ident x" "map ob_ident ys = map ob_ident xs'"
    by (auto simp: Cons_eq_map_conv)
  with Cons.IH P [of x y] show ?case by simp
qed simp

lemma ident_replay: "map ob_ident ys = map ob_ident xs \<Longrightarrow> replay q ys = replay q xs"
proof (induction ys arbitrary: xs q)
  case (Cons y ys)
  then obtain x xs' where "xs = x # xs'" "ob_ident y = ob_ident x" "map ob_ident ys = map ob_ident xs'"
    by (auto simp: Cons_eq_map_conv)
  with Cons.IH ident_congs(1) [of y x] show ?case by (simp split: option.splits)
qed simp

lemma item_rows_ident:
  "map ob_ident (outbox db') = map ob_ident (outbox db) \<Longrightarrow> map ob_ident (item_rows db' it) = map ob_ident (item_rows db it)"
  unfolding item_rows_def aggregate_rows_def by (rule ident_filter) (auto dest: ident_fields)

lemma set_ident:
  "map ob_ident ys = map ob_ident xs \<Longrightarrow> r \<in> set ys \<Longrightarrow> \<exists>x \<in> set xs. ob_ident x = ob_ident r"
  by (metis (no_types, lifting) image_iff set_map)

lemma erp_inv_ident:
  assumes inv: "erp_inv db" and same: "items db' = items db" "map ob_ident (outbox db') = map ob_ident (outbox db)"
  shows "erp_inv db'"
proof -
  have "item_ok db' it = item_ok db it" for it
    using ident_map(3) [OF item_rows_ident [OF same(2)], of it]
      ident_replay [OF item_rows_ident [OF same(2)], of _ it] by (simp add: item_ok_def)
  then have ok: "item_ok db' = item_ok db" by (simp add: fun_eq_iff)
  have "(ob_tenant r, ob_aid r) \<in> item_key ` set (items db')"
    if "r \<in> set (outbox db')" "ob_atype r = AggregateTypeInventoryItem" for r
  proof -
    from that(1) set_ident [OF same(2)] obtain x where x: "x \<in> set (outbox db)" "ob_ident r = ob_ident x" by force
    with ident_fields [OF x(2)] inv that(2) show ?thesis by (simp add: erp_inv_def same(1))
  qed
  with inv show ?thesis unfolding erp_inv_def ok ident_map [OF same(2)] same(1) by blast
qed

lemma cause_ok_ident:
  assumes "map ob_ident ps' = map ob_ident ps" "ob_ident r' = ob_ident r" "cause_ok ps r"
  shows "cause_ok ps' r'"
proof -
  have ex: "\<exists>x' \<in> set ps'. ob_ident x' = ob_ident x" if "x \<in> set ps" for x
    using set_ident [OF assms(1) [symmetric] that] by auto
  have lin: "caused_by ps env ty i \<Longrightarrow> caused_by ps' env ty i" for env ty i
    using ex unfolding caused_by_def by (metis ident_fields)
  have ord: "order_cause ps env i \<Longrightarrow> order_cause ps' env i" for env i
    using ex unfolding order_cause_def by (metis ident_fields ident_congs(4))
  show ?thesis
    using assms(3) ident_congs(1) [OF assms(2)] ident_fields [OF assms(2)]
    by (auto simp: cause_ok_def intro: lin ord split: option.splits payload.splits)
qed

lemma causal_from_ident:
  "\<lbrakk> causal_from ps rs; map ob_ident rs' = map ob_ident rs; map ob_ident ps' = map ob_ident ps \<rbrakk> \<Longrightarrow> causal_from ps' rs'"
proof (induction rs arbitrary: ps ps' rs')
  case (Cons r rs)
  then obtain r' rs1 where rs': "rs' = r' # rs1" "ob_ident r' = ob_ident r" "map ob_ident rs1 = map ob_ident rs"
    by (auto simp: Cons_eq_map_conv)
  have "causal_from (ps' @ [r']) rs1" by (rule Cons.IH [of "ps @ [r]"]) (use Cons.prems(1,3) rs'(2,3) in simp_all)
  moreover have "cause_ok ps' r'" by (rule cause_ok_ident [of ps' ps r' r]) (use Cons.prems(1,3) rs'(2) in simp_all)
  ultimately show ?case by (simp add: rs')
qed simp

lemma causal_ident:
  assumes inv: "causal db" and same: "shipments db' = shipments db" "map ob_ident (outbox db') = map ob_ident (outbox db)"
  shows "causal db'"
proof -
  have "\<exists>x \<in> set (outbox db). ob_ident x = ob_ident r" if "r \<in> set (outbox db')" for r
    using set_ident [OF same(2) that] .
  note ex = this
  have "row_order r = Some (sh_order s)"
    if m: "s \<in> set (shipments db)" "r \<in> set (outbox db')" "ob_tenant r = sh_tenant s" "ob_atype r = AggregateTypeShipment"
      "ob_aid r = sh_shipment s" for s r
  proof -
    obtain x where x: "x \<in> set (outbox db)" "ob_ident x = ob_ident r" using ex [OF m(2)] by blast
    then have "x \<in> set (aggregate_rows db (sh_tenant s) AggregateTypeShipment (sh_shipment s))"
      using m ident_fields [OF x(2)] by (simp add: aggregate_rows_def)
    then have "row_order x = Some (sh_order s)" using inv m(1) unfolding causal_def shipments_linked_def by blast
    then show ?thesis using ident_congs(4) [OF x(2)] by simp
  qed
  moreover have "ob_atype r \<noteq> AggregateTypeInventoryItem \<longrightarrow> ob_version r = firstAggregateVersion"
    if m: "r \<in> set (outbox db')" for r
  proof -
    obtain x where x: "x \<in> set (outbox db)" "ob_ident x = ob_ident r" using ex [OF m] by blast
    then have "ob_atype x \<noteq> AggregateTypeInventoryItem \<longrightarrow> ob_version x = firstAggregateVersion"
      using inv unfolding causal_def by blast
    then show ?thesis using ident_fields [OF x(2)] by simp
  qed
  moreover have "causal_from [] (outbox db')"
    by (rule causal_from_ident [OF _ same(2)]) (use inv in \<open>simp_all add: causal_def\<close>)
  ultimately show ?thesis unfolding causal_def shipments_linked_def aggregate_rows_def same(1) by simp
qed

section \<open>Every operation moves rows along the status machine\<close>

locale outbox_op =
  fixes run :: "erp_db world \<Rightarrow> 'a \<times> erp_db world"
  assumes moves: "\<lbrakk> distinct (map ob_event (outbox (durable w))); run w = (x, w') \<rbrakk> \<Longrightarrow>
    outbox_moves (durable w) (durable w')"
begin

lemma same_ident:
  "\<lbrakk> distinct (map ob_event (outbox (durable w))); run w = (x, w') \<rbrakk> \<Longrightarrow>
   map ob_ident (outbox (durable w')) = map ob_ident (outbox (durable w))"
  using moves moves_ident by (auto simp: outbox_moves_def)

lemma keeps_ledger: "\<lbrakk> erp_inv (durable w); run w = (x, w') \<rbrakk> \<Longrightarrow> erp_inv (durable w')"
  using moves [of w x w'] same_ident [of w x w'] erp_inv_ident [of "durable w" "durable w'"]
  by (metis (no_types, lifting) erp_db.select_convs(1) erp_db.surjective erp_db.update_convs(7) erp_inv_def outbox_moves_def)

lemma keeps_causal: "\<lbrakk> erp_inv (durable w); causal (durable w); run w = (x, w') \<rbrakk> \<Longrightarrow> causal (durable w')"
  using moves [of w x w'] same_ident [of w x w'] causal_ident [of "durable w" "durable w'"]
  by (metis (no_types, lifting) erp_db.select_convs(6) erp_db.surjective erp_db.update_convs(7) erp_inv_def outbox_moves_def)

end

lemma exec_auto_cases:
  assumes "exec_auto err ps f w = (r, w')"
  obtains (unchanged) "durable w' = durable w" "\<exists>e. r = Inl e"
  | (changed) now x where "f now (durable w) = Inr (x, durable w')" "r = Inr x \<or> r = Inl err \<and> commit_reply w = ReplyLost"
  using assms unfolding exec_auto_def
  by (rule transact_cases) (auto simp: tx_stmt_Inr)

lemma snd_expect_one: "snd (expect_one err p) = snd p"
  by (auto simp: expect_one_def split: prod.splits sum.splits)

lemma expect_one_world: "expect_one err p = (r, w) \<Longrightarrow> \<exists>r'. p = (r', w)"
  using snd_expect_one [of err p] by (cases p) auto

lemma row_move_refl [simp]: "row_move r r"
  by (simp add: row_move_def)

lemma update_outbox_moves:
  "\<lbrakk> update_outbox P f db = Inr (n, db'); \<And>r. P r \<Longrightarrow> row_move r (f r) \<rbrakk> \<Longrightarrow> outbox_moves db db'"
  by (auto simp: update_outbox_def outbox_moves_def list_all2_map2 intro!: list.rel_refl)

lemma exec_outbox_op:
  assumes "expect_one err (exec_auto e ps f w) = (r, w')"
    and "\<And>now n db db'. f now db = Inr (n, db') \<Longrightarrow> outbox_moves db db'"
  shows "outbox_moves (durable w) (durable w')"
proof -
  obtain r' where "exec_auto e ps f w = (r', w')" using expect_one_world [OF assms(1)] by blast
  then show ?thesis by (rule exec_auto_cases) (use assms(2) in auto)
qed

lemma leased_publishing: "leased e p r \<Longrightarrow> ob_status r = Publishing"
  by (simp add: leased_def)

interpretation mark: outbox_op "MarkPublished eventID owner" for eventID owner
  by unfold_locales
    (auto simp: MarkPublished_def leased_def row_move_def ob_ident_def status_step.simps
      elim!: exec_outbox_op update_outbox_moves)

interpretation transient: outbox_op "ReleaseTransient eventID owner errCode" for eventID owner errCode
  by unfold_locales
    (auto simp: ReleaseTransient_def release_transient_rows_def leased_def row_move_def ob_ident_def status_step.simps
      elim!: exec_outbox_op update_outbox_moves split: if_splits)

interpretation quarantined: outbox_op "Quarantine eventID owner errCode" for eventID owner errCode
  by unfold_locales
    (auto simp: Quarantine_def leased_def row_move_def ob_ident_def status_step.simps
      elim!: exec_outbox_op update_outbox_moves)

interpretation released: outbox_op "ReleaseQuarantined tenantID eventID" for tenantID eventID
  by unfold_locales
    (auto simp: ReleaseQuarantined_def row_move_def ob_ident_def status_step.simps
      elim!: exec_outbox_op update_outbox_moves split: if_splits)

definition rec_ident :: "Record \<Rightarrow> string \<times> string \<times> string \<times> string \<times> int \<times> string \<times> string" where
  "rec_ident rec = (rec_EventID rec, rec_TenantID rec, rec_AggregateType rec, rec_AggregateID rec,
     rec_AggregateVersion rec, rec_ContentHash rec, rec_EventBytes rec)"

definition claimed :: "string \<Rightarrow> int \<Rightarrow> int \<Rightarrow> outbox_row \<Rightarrow> outbox_row" where
  "claimed owner expiresMs now r =
     r\<lparr>ob_status := Publishing, ob_owner := Some owner, ob_expires := Some (now + expiresMs * 1000),
       ob_attempts := ob_attempts r + 1\<rparr>"

definition claim_ids :: "string set \<Rightarrow> string \<Rightarrow> int \<Rightarrow> int \<Rightarrow> erp_db \<Rightarrow> erp_db" where
  "claim_ids ids owner expiresMs now db =
     db\<lparr>outbox := map (\<lambda>r. if ob_event r \<in> ids then claimed owner expiresMs now r else r) (outbox db)\<rparr>"

lemma rec_ident_scan [simp]: "rec_ident (scanRecord r) = ob_ident r"
  by (simp add: rec_ident_def scanRecord_def ob_ident_def)

lemma claim_row_Inr:
  "claim_row i owner ms now db = Inr (x, db') \<Longrightarrow> db' = claim_ids {i} owner ms now db"
  by (auto simp: claim_row_def claim_ids_def claimed_def split: option.splits if_splits)

lemma claim_ids_comp:
  "i \<notin> ids \<Longrightarrow> claim_ids ids owner ms now (claim_ids {i} owner ms now db) = claim_ids (insert i ids) owner ms now db"
  by (auto simp: claim_ids_def claimed_def)

lemma claim_records_Inr:
  "\<lbrakk> claim_records owner ms now recs db fs = (Inr out, db', fs'); distinct (map rec_EventID recs) \<rbrakk> \<Longrightarrow>
   db' = claim_ids (set (map rec_EventID recs)) owner ms now db \<and> map rec_ident out = map rec_ident recs"
proof (induction recs arbitrary: db fs out)
  case Nil
  then show ?case by (simp add: sql_simps claim_ids_def)
next
  case (Cons rec recs)
  then obtain x db1 fs1 out1 where c: "claim_row (rec_EventID rec) owner ms now db = Inr (x, db1)"
    and r: "claim_records owner ms now recs db1 fs1 = (Inr out1, db', fs')"
    and out: "out = rec\<lparr>rec_Status := Publishing, rec_PublishAttempts := fst x,
                    rec_LeaseOwner := Some owner, rec_LeaseExpiresAt := Some (snd x)\<rparr> # out1"
    by (auto simp: sql_simps split: prod.splits)
  from Cons.IH [OF r] Cons.prems(2) show ?case
    by (simp add: out claim_row_Inr [OF c] claim_ids_comp rec_ident_def)
qed

lemma due_rows_set: "r \<in> set (due_rows limit now db) \<Longrightarrow> r \<in> set (outbox db) \<and> due now r"
  unfolding due_rows_def by (drule in_set_takeD) simp

lemma due_rows_distinct:
  assumes "distinct (map ob_event (outbox db))"
  shows "distinct (map ob_event (due_rows limit now db))"
proof -
  let ?s = "isort (\<lambda>a b. ob_created a < ob_created b) (filter (due now) (outbox db))"
  have "mset (map ob_event ?s) = mset (map ob_event (filter (due now) (outbox db)))" by simp
  then have "distinct (map ob_event ?s)"
    using assms mset_eq_imp_distinct_iff distinct_map_filter by metis
  then show ?thesis by (simp add: due_rows_def take_map [symmetric])
qed

text \<open>A successful claim leases exactly the due rows it returns.\<close>

lemma ClaimDue_tx_Inr:
  assumes "ClaimDue_tx owner ttl limit now db fs = (Inr recs, db', fs')" "distinct (map ob_event (outbox db))"
  shows "db' = claim_ids (ob_event ` set (due_rows limit now db)) owner (ttl div 1000000) now db"
    and "map rec_ident recs = map ob_ident (due_rows limit now db)"
proof -
  from assms(1) obtain fs1 where
    c: "claim_records owner (ttl div 1000000) now (map scanRecord (due_rows limit now db)) db fs1 = (Inr recs, db', fs')"
    by (auto simp: ClaimDue_tx_def sql_simps)
  have ids: "map rec_EventID (map scanRecord rs) = map ob_event rs" for rs
    by (simp add: scanRecord_def)
  from claim_records_Inr [OF c] due_rows_distinct [OF assms(2)]
  show "db' = claim_ids (ob_event ` set (due_rows limit now db)) owner (ttl div 1000000) now db"
    and "map rec_ident recs = map ob_ident (due_rows limit now db)"
    unfolding ids by (simp_all add: comp_def)
qed

lemma event_unique:
  "\<lbrakk> distinct (map ob_event rs); r \<in> set rs; r' \<in> set rs; ob_event r = ob_event r' \<rbrakk> \<Longrightarrow> r = r'"
  by (auto simp: distinct_map dest: inj_onD)

lemma claim_moves:
  assumes "distinct (map ob_event (outbox db))" "R \<subseteq> set (outbox db)" "\<And>r. r \<in> R \<Longrightarrow> due now r"
  shows "outbox_moves db (claim_ids (ob_event ` R) owner ms now db)"
proof -
  have "row_move r (claimed owner ms now r)" if "r \<in> set (outbox db)" "ob_event r \<in> ob_event ` R" for r
  proof -
    from that(2) obtain r' where "r' \<in> R" "ob_event r = ob_event r'" by blast
    with that(1) assms have "due now r" using event_unique [of "outbox db" r r'] by auto
    then show ?thesis by (auto simp: due_def row_move_def claimed_def ob_ident_def status_step.simps)
  qed
  then show ?thesis
    by (auto simp: claim_ids_def outbox_moves_def list_all2_map2 intro!: list.rel_refl_strong)
qed

lemma ClaimDue_cases:
  assumes run: "ClaimDue owner leaseTTL limit w = (r, w')" and d: "distinct (map ob_event (outbox (durable w)))"
  obtains (unchanged) e where "r = Inl e" "durable w' = durable w"
  | (claimed) now lim ms recs where "durable w' = claim_ids (ob_event ` set (due_rows lim now (durable w))) owner ms now (durable w)"
      "map rec_ident recs = map ob_ident (due_rows lim now (durable w))" "r = Inr recs \<or> (\<exists>e. r = Inl e)"
proof (cases "owner = []")
  case True
  with run show thesis by (intro unchanged) (auto simp: ClaimDue_def lift_world_def)
next
  case False
  with run have "transact RelayDB RelayDB (ClaimDue_tx owner (if leaseTTL \<le> 0 then DefaultLeaseTTL else leaseTTL)
      (if limit < 1 then 1 else limit)) w = (r, w')" by (simp add: ClaimDue_def)
  then show thesis
  proof (rule transact_cases)
    fix now x fs fs'
    assume "ClaimDue_tx owner (if leaseTTL \<le> 0 then DefaultLeaseTTL else leaseTTL)
      (if limit < 1 then 1 else limit) now (durable w) fs = (Inr x, durable w', fs')"
      "r = Inr x \<or> r = Inl RelayDB \<and> commit_reply w = ReplyLost"
    then show thesis using claimed ClaimDue_tx_Inr [OF _ d] by blast
  qed (use unchanged in blast)
qed

interpretation claiming: outbox_op "ClaimDue owner leaseTTL limit" for owner leaseTTL limit
proof
  fix w x w'
  assume d: "distinct (map ob_event (outbox (durable w)))" and run: "ClaimDue owner leaseTTL limit w = (x, w')"
  from run d show "outbox_moves (durable w) (durable w')"
    by (rule ClaimDue_cases) (use claim_moves [OF d] due_rows_set in \<open>auto simp: subset_iff\<close>)
qed

section \<open>Publishing one record\<close>

lemma on_source_iff: "on_source f s = (x, s') \<longleftrightarrow> (\<exists>w. f (source s) = (x, w) \<and> s' = s\<lparr>source := w\<rparr>)"
  by (auto simp: on_source_def split: prod.splits)

lemma and_then_state: "and_then p kind = (r, s') \<Longrightarrow> \<exists>x. p = (x, s')"
  by (auto simp: and_then_def split: prod.splits sum.splits)

lemma Publish_source: "Publish t k v s = (ok, s') \<Longrightarrow> source s' = source s"
  by (auto simp: Publish_def Let_def split: prod.splits produce_reply.splits)

lemma Publish_log: "Publish t k v s = (ok, s') \<Longrightarrow> set (broker_log s) \<subseteq> set (broker_log s') \<and> (ok \<longrightarrow> (t, k, v) \<in> set (broker_log s'))"
  by (auto simp: Publish_def Let_def split: prod.splits produce_reply.splits)

text \<open>The four ways in which a record leaves \<^verbatim>\<open>publishOne\<close>.\<close>

lemma publishOne_cases:
  assumes "publishOne owner rec s = (r, s')"
  obtains (quarantine) code x w where "Quarantine (rec_EventID rec) owner code (source s) = (x, w)" "s' = s\<lparr>source := w\<rparr>"
  | (transient) s1 x w where "Publish Topic (AggregateKey (rec_TenantID rec) (rec_AggregateType rec) (rec_AggregateID rec))
        (rec_EventBytes rec) s = (False, s1)"
      "ReleaseTransient (rec_EventID rec) owner ''broker_publish_failed'' (source s) = (x, w)" "s' = s1\<lparr>source := w\<rparr>"
  | (acked) s1 x w where "Publish Topic (AggregateKey (rec_TenantID rec) (rec_AggregateType rec) (rec_AggregateID rec))
        (rec_EventBytes rec) s = (True, s1)"
      "MarkPublished (rec_EventID rec) owner (source s) = (x, w)" "s' = s1\<lparr>source := w\<rparr>"
      "r = Inr outcomePublished \<longleftrightarrow> x = Inr ()"
proof (cases "Parse (rec_EventBytes rec)")
  case (Inl e)
  with assms show thesis
    by (auto simp: publishOne_def on_source_iff dest!: and_then_state intro: quarantine)
next
  case (Inr env)
  show thesis
  proof (cases "TenantID env \<noteq> rec_TenantID rec \<or> AggregateType env \<noteq> rec_AggregateType rec \<or> AggregateID env \<noteq> rec_AggregateID rec")
    case True
    with assms Inr show thesis
      by (auto simp: publishOne_def on_source_iff dest!: and_then_state intro: quarantine)
  next
    case False
    let ?p = "Publish Topic (AggregateKey (rec_TenantID rec) (rec_AggregateType rec) (rec_AggregateID rec)) (rec_EventBytes rec) s"
    obtain ok s1 where p: "?p = (ok, s1)" by (cases ?p)
    have src: "source s1 = source s" by (rule Publish_source [OF p])
    show thesis
    proof (cases ok)
      case True
      with assms Inr False p src show thesis
        by (auto simp: publishOne_def on_source_iff on_source_def split: prod.splits sum.splits
            intro: acked [of s1 _ _] )
    next
      case no: False
      with assms Inr False p src show thesis
        by (auto simp: publishOne_def on_source_iff dest!: and_then_state intro: transient)
    qed
  qed
qed

lemma publishOne_moves:
  assumes "publishOne owner rec s = (r, s')" "distinct (map ob_event (outbox (durable (source s))))"
  shows "outbox_moves (durable (source s)) (durable (source s'))"
  using assms(1)
  by (rule publishOne_cases) (use assms(2) mark.moves transient.moves quarantined.moves in force)+

lemma publishOne_log: "publishOne owner rec s = (r, s') \<Longrightarrow> set (broker_log s) \<subseteq> set (broker_log s')"
  by (erule publishOne_cases) (auto dest!: Publish_log)

lemma update_outbox_rows:
  "\<lbrakk> update_outbox P f db = Inr (n, db'); r' \<in> set (outbox db') \<rbrakk> \<Longrightarrow> r' \<in> set (outbox db) \<or> (\<exists>r. P r \<and> r' = f r)"
  by (auto simp: update_outbox_def split: if_splits)

lemma exec_update_rows:
  assumes "expect_one err (exec_auto e ps g w) = (x, w')"
    and "\<And>now n db db'. g now db = Inr (n, db') \<Longrightarrow> \<exists>P f. update_outbox P f db = Inr (n, db') \<and> (\<forall>r. P r \<longrightarrow> Q (f r))"
    and "r' \<in> set (outbox (durable w'))"
  shows "r' \<in> set (outbox (durable w)) \<or> Q r'"
proof -
  obtain y where "exec_auto e ps g w = (y, w')" using expect_one_world [OF assms(1)] by blast
  then show ?thesis
  proof (rule exec_auto_cases)
    fix now n assume "g now (durable w) = Inr (n, durable w')"
    from assms(2) [OF this] assms(3) show ?thesis using update_outbox_rows by blast
  qed (use assms(3) in simp)
qed

lemma MarkPublished_rows:
  "\<lbrakk> MarkPublished i owner w = (x, w'); r' \<in> set (outbox (durable w')) \<rbrakk> \<Longrightarrow>
   r' \<in> set (outbox (durable w)) \<or> ob_event r' = i"
  unfolding MarkPublished_def
  by (erule exec_update_rows) (fastforce simp: leased_def)+

lemma ReleaseTransient_rows:
  "\<lbrakk> ReleaseTransient i owner code w = (x, w'); r' \<in> set (outbox (durable w')) \<rbrakk> \<Longrightarrow>
   r' \<in> set (outbox (durable w)) \<or> ob_status r' = Pending"
  unfolding ReleaseTransient_def
  by (erule exec_update_rows) (fastforce simp: release_transient_rows_def split: if_splits)+

lemma Quarantine_rows:
  "\<lbrakk> Quarantine i owner code w = (x, w'); r' \<in> set (outbox (durable w')) \<rbrakk> \<Longrightarrow>
   r' \<in> set (outbox (durable w)) \<or> ob_status r' = Quarantined"
  unfolding Quarantine_def by (erule exec_update_rows) fastforce+

lemma ReleaseQuarantined_rows:
  "\<lbrakk> ReleaseQuarantined t i w = (x, w'); r' \<in> set (outbox (durable w')) \<rbrakk> \<Longrightarrow>
   r' \<in> set (outbox (durable w)) \<or> ob_status r' = Pending"
  unfolding ReleaseQuarantined_def
  by (cases "t = [] \<or> i = []") (simp, simp, erule exec_update_rows, fastforce+)

definition logged :: "(string \<times> string \<times> string) list \<Rightarrow> outbox_row \<Rightarrow> bool" where
  "logged log r \<longleftrightarrow> (Topic, AggregateKey (ob_tenant r) (ob_atype r) (ob_aid r), ob_bytes r) \<in> set log"

lemma publishOne_published:
  assumes "publishOne owner rec s = (r, s')" "r' \<in> set (outbox (durable (source s')))" "ob_status r' = Published"
    and same: "\<And>x. x \<in> set (outbox (durable (source s'))) \<Longrightarrow> ob_event x = rec_EventID rec \<Longrightarrow> ob_ident x = rec_ident rec"
  shows "r' \<in> set (outbox (durable (source s))) \<or> logged (broker_log s') r'"
  using assms(1)
proof (rule publishOne_cases)
  fix code x w assume "Quarantine (rec_EventID rec) owner code (source s) = (x, w)" "s' = s\<lparr>source := w\<rparr>"
  with assms(2,3) Quarantine_rows show ?thesis by fastforce
next
  fix s1 x w assume "ReleaseTransient (rec_EventID rec) owner ''broker_publish_failed'' (source s) = (x, w)" "s' = s1\<lparr>source := w\<rparr>"
  with assms(2,3) ReleaseTransient_rows show ?thesis by fastforce
next
  fix s1 x w
  assume p: "Publish Topic (AggregateKey (rec_TenantID rec) (rec_AggregateType rec) (rec_AggregateID rec))
      (rec_EventBytes rec) s = (True, s1)"
    and m: "MarkPublished (rec_EventID rec) owner (source s) = (x, w)" and s': "s' = s1\<lparr>source := w\<rparr>"
  have "r' \<in> set (outbox (durable w))" using assms(2) s' by simp
  from MarkPublished_rows [OF m this] show ?thesis
  proof
    assume "ob_event r' = rec_EventID rec"
    with same [OF assms(2)] have "ob_ident r' = rec_ident rec" by blast
    with Publish_log [OF p] show ?thesis by (simp add: s' logged_def ob_ident_def rec_ident_def)
  qed simp
qed

end
