(* ===== verification/Go_Json.thy ===== *)
theory Go_Json
  imports Event_Json
begin

text \<open>
  \<^verbatim>\<open>json.Unmarshal\<close> into a struct, as the consumer's identity probe uses it: the whole input is checked
  against the JSON grammar (nesting at most 10000), member names match a field exactly or up to case
  folding, later members win, \<^verbatim>\<open>null\<close> leaves a string field alone and clears a pointer field, and any
  type mismatch is an error of the whole call.
\<close>

section \<open>JSON values\<close>

datatype json = JsNull | JsBool bool | JsNum string | JsStr string | JsArr "json list" | JsObj "(string \<times> json) list"

definition max_depth :: nat where "max_depth = 10000"

text \<open>The tests \<open>length r < length s\<close> never fail; they make the recursion evidently terminating.\<close>

function js_value :: "nat \<Rightarrow> string \<Rightarrow> (json \<times> string) option"
  and js_elems :: "nat \<Rightarrow> json list \<Rightarrow> string \<Rightarrow> (json \<times> string) option"
  and js_members :: "nat \<Rightarrow> (string \<times> json) list \<Rightarrow> string \<Rightarrow> (json \<times> string) option" where
  "js_value d s =
     (case skip_ws s of
        [] \<Rightarrow> None
      | c # cs \<Rightarrow>
          if c = CHR ''{'' then
            (if d \<ge> max_depth then None
             else (case skip_ws cs of
                     [] \<Rightarrow> None
                   | e # es \<Rightarrow> if e = CHR ''}'' then Some (JsObj [], es) else js_members (d + 1) [] cs))
          else if c = CHR ''['' then
            (if d \<ge> max_depth then None
             else (case skip_ws cs of
                     [] \<Rightarrow> None
                   | e # es \<Rightarrow> if e = CHR '']'' then Some (JsArr [], es) else js_elems (d + 1) [] cs))
          else if c = CHR 0x22 then map_option (\<lambda>(b, r). (JsStr (unquote b), r)) (scan_string cs)
          else if c = CHR ''-'' \<or> is_digit c then map_option (\<lambda>(lit, r). (JsNum lit, r)) (scan_number (c # cs))
          else if take 4 (c # cs) = ''null'' then Some (JsNull, drop 4 (c # cs))
          else if take 4 (c # cs) = ''true'' then Some (JsBool True, drop 4 (c # cs))
          else if take 5 (c # cs) = ''false'' then Some (JsBool False, drop 5 (c # cs))
          else None)"
| "js_elems d out s =
     (case js_value d s of
        None \<Rightarrow> None
      | Some (v, r) \<Rightarrow>
          (case skip_ws r of
             [] \<Rightarrow> None
           | c # cs \<Rightarrow>
               if c = CHR '']'' then Some (JsArr (out @ [v]), cs)
               else if c = CHR '','' \<and> length cs < length s then js_elems d (out @ [v]) cs
               else None))"
| "js_members d out s =
     (case skip_ws s of
        [] \<Rightarrow> None
      | q # ks \<Rightarrow>
          if q \<noteq> CHR 0x22 then None
          else
            (case scan_string ks of
               None \<Rightarrow> None
             | Some (b, r) \<Rightarrow>
                 (case skip_ws r of
                    [] \<Rightarrow> None
                  | e # r1 \<Rightarrow>
                      if e \<noteq> CHR '':'' \<or> \<not> length r1 < length s then None
                      else
                        (case js_value d r1 of
                           None \<Rightarrow> None
                         | Some (v, r2) \<Rightarrow>
                             (case skip_ws r2 of
                                [] \<Rightarrow> None
                              | c # cs \<Rightarrow>
                                  if c = CHR ''}'' then Some (JsObj (out @ [(unquote b, v)]), cs)
                                  else if c = CHR '','' \<and> length cs < length s
                                  then js_members d (out @ [(unquote b, v)]) cs
                                  else None)))))"
  by pat_completeness auto

termination
  by (relation "measures [\<lambda>x. case x of Inl (_, s) \<Rightarrow> length s | Inr (Inl (_, _, s)) \<Rightarrow> length s | Inr (Inr (_, _, s)) \<Rightarrow> length s,
      \<lambda>x. case x of Inl _ \<Rightarrow> 0 | Inr _ \<Rightarrow> 1]")
    (auto dest: skip_ws_Cons)

declare js_value.simps [simp del] js_elems.simps [simp del] js_members.simps [simp del]

definition js_parse :: "string \<Rightarrow> json option" where
  "js_parse s = (case js_value 0 s of None \<Rightarrow> None | Some (v, r) \<Rightarrow> if skip_ws r = [] then Some v else None)"

section \<open>Field names\<close>

text \<open>\<^verbatim>\<open>foldName\<close>, as far as it can tell an ASCII name from others: besides the ASCII letters, the long s
  and the Kelvin sign fold to an ASCII letter.\<close>

definition fold_rune :: "nat \<Rightarrow> nat" where
  "fold_rune r =
     (if 0x61 \<le> r \<and> r \<le> 0x7A then r - 0x20 else if r = 0x17F then 0x53 else if r = 0x212A then 0x4B else r)"

definition field_match :: "string \<Rightarrow> string \<Rightarrow> bool" where
  "field_match name key \<longleftrightarrow> map fold_rune (runes key) = map fold_rune (runes name)"

text \<open>The value a member list gives to a field: \<open>None\<close> is a type error.\<close>

fun string_field :: "string \<Rightarrow> string \<Rightarrow> (string \<times> json) list \<Rightarrow> string option" where
  "string_field name cur [] = Some cur"
| "string_field name cur ((k, v) # ms) =
     (if field_match name k then
        (case v of
           JsStr s \<Rightarrow> string_field name s ms
         | JsNull \<Rightarrow> string_field name cur ms
         | _ \<Rightarrow> None)
      else string_field name cur ms)"

fun int_field :: "string \<Rightarrow> int option \<Rightarrow> (string \<times> json) list \<Rightarrow> int option option" where
  "int_field name cur [] = Some cur"
| "int_field name cur ((k, v) # ms) =
     (if field_match name k then
        (case v of
           JsNum lit \<Rightarrow> (case parse_int lit of None \<Rightarrow> None | Some n \<Rightarrow> int_field name (Some n) ms)
         | JsNull \<Rightarrow> int_field name None ms
         | _ \<Rightarrow> None)
      else int_field name cur ms)"

end
