(* ===== verification/Platform_Schema.thy ===== *)
theory Platform_Schema
  imports Relay Go_Json
begin

text \<open>
  Package \<^verbatim>\<open>platform\<close>: the tables of \<^verbatim>\<open>platform/migrate.sql\<close>, the dispositions and errors, and the
  statements of \<^verbatim>\<open>process.go\<close> and \<^verbatim>\<open>lineage.go\<close> that read and write one row.

  The two schemas \<^verbatim>\<open>erp\<close> and \<^verbatim>\<open>platform\<close> live in one database, \<open>seshat_db\<close>. The four lineage tables
  share one row type; a column that a table does not have is empty, which is also what the queries
  over all four select for it. An error that wraps \<^verbatim>\<open>ErrTransient\<close> is \<open>ErrTransient\<close>; the other
  database errors of the package are \<open>PlatDB\<close> and its missing arguments \<open>PlatArgument\<close>.
\<close>

section \<open>Dispositions and errors\<close>

definition ConsumerName :: string where "ConsumerName = ''seshatops-m1-inventory-projection''"

definition MaxHandlerAttempts :: int where "MaxHandlerAttempts = 5"

datatype disposition =
    DispositionApplied | DispositionDuplicateNoop | DispositionQuarantinedConflict | DispositionQuarantinedGap
  | DispositionQuarantinedStale | DispositionQuarantinedInvalid | DispositionQuarantinedMismatch
  | DispositionQuarantinedTransition

datatype platform_error =
    ErrTransient | ErrHandlerPoison | ErrPoison | ErrNotReleasable | ErrControlNotFound
  | ErrHistoryTenantMismatch | PlatEvent event_error | PlatRelay relay_error | PlatDB | PlatArgument

record SourcePosition =
  sp_Topic :: string
  sp_Partition :: int
  sp_Offset :: int

text \<open>An empty \<^verbatim>\<open>Disposition\<close> string is \<open>None\<close>.\<close>

record Result =
  res_Disposition :: "disposition option"
  res_EventID :: string
  res_ShouldAck :: bool

definition no_result :: Result where
  "no_result = \<lparr>res_Disposition = None, res_EventID = [], res_ShouldAck = False\<rparr>"

section \<open>Tables\<close>

record inbox_row =
  ib_consumer :: string
  ib_event :: string
  ib_tenant :: string
  ib_hash :: string
  ib_atype :: string
  ib_aid :: string
  ib_version :: int
  ib_disposition :: disposition
  ib_expected :: "int option"
  ib_received :: "int option"
  ib_bytes :: "string option"
  ib_created :: int
  ib_updated :: int

record projection_row =
  pr_tenant :: string
  pr_item :: string
  pr_quantity :: int
  pr_version :: int

record hop_row =
  hp_tenant :: string
  hp_id :: string
  hp_parent :: string
  hp_item :: string
  hp_order :: string
  hp_version :: int
  hp_event :: string
  hp_schema :: int
  hp_occurred :: string
  hp_recorded :: string
  hp_correlation :: string
  hp_causation :: "string option"
  hp_trace :: string

datatype failure_status = Retrying | FailureQuarantined

record failure_table_row =
  ft_id :: string
  ft_consumer :: string
  ft_event :: "string option"
  ft_tenant :: "string option"
  ft_atype :: "string option"
  ft_aid :: "string option"
  ft_version :: "int option"
  ft_schema :: "int option"
  ft_etype :: "string option"
  ft_category :: string
  ft_hash :: "string option"
  ft_bytes_hash :: "string option"
  ft_topic :: string
  ft_partition :: int
  ft_offset :: int
  ft_attempts :: int
  ft_code :: string
  ft_status :: failure_status
  ft_created :: int
  ft_updated :: int

record seshat_db =
  erp :: erp_db
  inbox :: "inbox_row list"
  projection :: "projection_row list"
  lineage_suppliers :: "hop_row list"
  lineage_lots :: "hop_row list"
  lineage_batches :: "hop_row list"
  lineage_shipments :: "hop_row list"
  processing_failures :: "failure_table_row list"

definition empty_platform :: "erp_db \<Rightarrow> seshat_db" where
  "empty_platform e = \<lparr>erp = e, inbox = [], projection = [], lineage_suppliers = [], lineage_lots = [],
     lineage_batches = [], lineage_shipments = [], processing_failures = []\<rparr>"

type_synonym 'a ptx = "(seshat_db, platform_error, 'a) tx"

section \<open>Inbox\<close>

text \<open>\<^verbatim>\<open>EventBytes\<close> is a byte slice: empty and \<^verbatim>\<open>nil\<close> are both stored as \<^verbatim>\<open>NULL\<close>.\<close>

record inboxRow =
  ir_EventID :: string
  ir_TenantID :: string
  ir_ContentHash :: string
  ir_AggregateType :: string
  ir_AggregateID :: string
  ir_AggregateVersion :: int
  ir_Disposition :: disposition
  ir_ExpectedVersion :: "int option"
  ir_ReceivedVersion :: "int option"
  ir_EventBytes :: string

definition nullBytes :: "string \<Rightarrow> string option" where
  "nullBytes b = (if b = [] then None else Some b)"

definition find_inbox :: "seshat_db \<Rightarrow> string \<Rightarrow> inbox_row option" where
  "find_inbox db eventID = find (\<lambda>r. ib_consumer r = ConsumerName \<and> ib_event r = eventID) (inbox db)"

definition lockInbox :: "string \<Rightarrow> inbox_row option ptx" where
  "lockInbox eventID = tx_query ErrTransient [ConsumerName, eventID] (\<lambda>db. find_inbox db eventID)"

definition new_inbox :: "int \<Rightarrow> inboxRow \<Rightarrow> inbox_row" where
  "new_inbox now row =
     \<lparr>ib_consumer = ConsumerName, ib_event = ir_EventID row, ib_tenant = ir_TenantID row, ib_hash = ir_ContentHash row,
      ib_atype = ir_AggregateType row, ib_aid = ir_AggregateID row, ib_version = ir_AggregateVersion row,
      ib_disposition = ir_Disposition row, ib_expected = ir_ExpectedVersion row, ib_received = ir_ReceivedVersion row,
      ib_bytes = nullBytes (ir_EventBytes row), ib_created = now, ib_updated = now\<rparr>"

definition merge_inbox :: "inbox_row \<Rightarrow> inbox_row \<Rightarrow> inbox_row" where
  "merge_inbox old excluded =
     excluded\<lparr>ib_created := ib_created old,
              ib_hash := (if ib_disposition excluded = DispositionQuarantinedConflict then ib_hash old else ib_hash excluded)\<rparr>"

definition put_inbox :: "int \<Rightarrow> inboxRow \<Rightarrow> seshat_db \<Rightarrow> platform_error + (unit \<times> seshat_db)" where
  "put_inbox now row db =
     (if \<not> ir_AggregateVersion row \<ge> 1 then Inl ErrTransient
      else if find_inbox db (ir_EventID row) = None then Inr ((), db\<lparr>inbox := inbox db @ [new_inbox now row]\<rparr>)
      else Inr ((), db\<lparr>inbox := map (\<lambda>r. if ib_consumer r = ConsumerName \<and> ib_event r = ir_EventID row
                                        then merge_inbox r (new_inbox now row) else r) (inbox db)\<rparr>))"

definition upsertInbox :: "int \<Rightarrow> inboxRow \<Rightarrow> unit ptx" where
  "upsertInbox now row =
     tx_stmt ErrTransient [ConsumerName, ir_EventID row, ir_TenantID row, ir_ContentHash row, ir_AggregateType row, ir_AggregateID row]
       (put_inbox now row)"

text \<open>The literal \<^verbatim>\<open>inboxRow{EventID: env.EventID, ...}\<close> that every caller builds from an envelope.\<close>

definition inbox_of ::
  "envelope \<Rightarrow> string \<Rightarrow> disposition \<Rightarrow> int option \<Rightarrow> int option \<Rightarrow> string \<Rightarrow> inboxRow" where
  "inbox_of env hash disp expected received bytes =
     \<lparr>ir_EventID = EventID env, ir_TenantID = TenantID env, ir_ContentHash = hash, ir_AggregateType = AggregateType env,
      ir_AggregateID = AggregateID env, ir_AggregateVersion = AggregateVersion env, ir_Disposition = disp,
      ir_ExpectedVersion = expected, ir_ReceivedVersion = received, ir_EventBytes = bytes\<rparr>"

text \<open>Write the row and return its disposition, as every branch of the handlers does.\<close>

definition record_as :: "int \<Rightarrow> inboxRow \<Rightarrow> disposition ptx" where
  "record_as now row = tx_bind (upsertInbox now row) (\<lambda>_. tx_return (ir_Disposition row))"

section \<open>Inventory projection\<close>

definition find_projection :: "seshat_db \<Rightarrow> string \<Rightarrow> string \<Rightarrow> projection_row option" where
  "find_projection db t i = find (\<lambda>r. pr_tenant r = t \<and> pr_item r = i) (projection db)"

definition insertProjection :: "string \<Rightarrow> string \<Rightarrow> int \<Rightarrow> int \<Rightarrow> unit ptx" where
  "insertProjection tenantID itemID qty version =
     tx_stmt ErrTransient [tenantID, itemID] (\<lambda>db.
       if qty < 0 \<or> version < 0 \<or> find_projection db tenantID itemID \<noteq> None then Inl ErrTransient
       else Inr ((), db\<lparr>projection := projection db @
              [\<lparr>pr_tenant = tenantID, pr_item = itemID, pr_quantity = qty, pr_version = version\<rparr>]\<rparr>))"

definition update_projection :: "string \<Rightarrow> string \<Rightarrow> int \<Rightarrow> int \<Rightarrow> unit ptx" where
  "update_projection tenantID itemID qty version =
     tx_stmt ErrTransient [tenantID, itemID] (\<lambda>db.
       if qty < 0 \<or> version < 0 then Inl ErrTransient
       else Inr ((), db\<lparr>projection := map (\<lambda>r. if pr_tenant r = tenantID \<and> pr_item r = itemID
              then r\<lparr>pr_quantity := qty, pr_version := version\<rparr> else r) (projection db)\<rparr>))"

section \<open>Lineage tables\<close>

datatype lineage_table = SupplierTable | LotTable | BatchTable | ShipmentTable

text \<open>The table of an event type, as \<^verbatim>\<open>lineageLockQuery\<close> and \<^verbatim>\<open>lineageSourceEventQuery\<close> choose it.\<close>

definition lineage_table_of :: "string \<Rightarrow> lineage_table option" where
  "lineage_table_of eventType =
     (if eventType = EventTypeSupplierRegistered then Some SupplierTable
      else if eventType = EventTypeIngredientLotReceived then Some LotTable
      else if eventType = EventTypeProductionBatchProduced then Some BatchTable
      else if eventType = EventTypeShipmentDispatched then Some ShipmentTable
      else None)"

fun hop_rows :: "lineage_table \<Rightarrow> seshat_db \<Rightarrow> hop_row list" where
  "hop_rows SupplierTable db = lineage_suppliers db"
| "hop_rows LotTable db = lineage_lots db"
| "hop_rows BatchTable db = lineage_batches db"
| "hop_rows ShipmentTable db = lineage_shipments db"

fun set_hop_rows :: "lineage_table \<Rightarrow> hop_row list \<Rightarrow> seshat_db \<Rightarrow> seshat_db" where
  "set_hop_rows SupplierTable rs db = db\<lparr>lineage_suppliers := rs\<rparr>"
| "set_hop_rows LotTable rs db = db\<lparr>lineage_lots := rs\<rparr>"
| "set_hop_rows BatchTable rs db = db\<lparr>lineage_batches := rs\<rparr>"
| "set_hop_rows ShipmentTable rs db = db\<lparr>lineage_shipments := rs\<rparr>"

definition find_hop :: "lineage_table \<Rightarrow> seshat_db \<Rightarrow> string \<Rightarrow> string \<Rightarrow> hop_row option" where
  "find_hop tb db t i = find (\<lambda>r. hp_tenant r = t \<and> hp_id r = i) (hop_rows tb db)"

definition lockLineageVersion :: "envelope \<Rightarrow> int option ptx" where
  "lockLineageVersion env =
     (case lineage_table_of (EventType env) of
        None \<Rightarrow> tx_fail (PlatEvent ErrMalformed)
      | Some tb \<Rightarrow> tx_query ErrTransient [TenantID env, AggregateID env]
          (\<lambda>db. map_option hp_version (find_hop tb db (TenantID env) (AggregateID env))))"

definition lineageSourceEventID :: "envelope \<Rightarrow> string option ptx" where
  "lineageSourceEventID env =
     (case lineage_table_of (EventType env) of
        None \<Rightarrow> tx_fail (PlatEvent ErrMalformed)
      | Some tb \<Rightarrow> tx_query ErrTransient [TenantID env, AggregateID env]
          (\<lambda>db. map_option hp_event (find_hop tb db (TenantID env) (AggregateID env))))"

text \<open>The keys of each table: the primary key and, below suppliers, one row per parent; a shipment also
  has one row per order.\<close>

fun hop_conflict :: "lineage_table \<Rightarrow> hop_row \<Rightarrow> hop_row \<Rightarrow> bool" where
  "hop_conflict SupplierTable a b = (hp_tenant a = hp_tenant b \<and> hp_id a = hp_id b)"
| "hop_conflict LotTable a b = (hp_tenant a = hp_tenant b \<and> (hp_id a = hp_id b \<or> hp_parent a = hp_parent b))"
| "hop_conflict BatchTable a b = (hp_tenant a = hp_tenant b \<and> (hp_id a = hp_id b \<or> hp_parent a = hp_parent b))"
| "hop_conflict ShipmentTable a b =
     (hp_tenant a = hp_tenant b \<and> (hp_id a = hp_id b \<or> hp_parent a = hp_parent b \<or> hp_order a = hp_order b))"

text \<open>The table, the row and the text arguments of the insert of an envelope; \<open>None\<close> when the payload is
  not of the event's family.\<close>

definition hop_of :: "envelope \<Rightarrow> string \<Rightarrow> string \<Rightarrow> string \<Rightarrow> string \<Rightarrow> hop_row" where
  "hop_of env i parent item order =
     \<lparr>hp_tenant = TenantID env, hp_id = i, hp_parent = parent, hp_item = item, hp_order = order,
      hp_version = AggregateVersion env, hp_event = EventID env, hp_schema = EventSchemaVersion env,
      hp_occurred = OccurredAt env, hp_recorded = RecordedAt env, hp_correlation = CorrelationID env,
      hp_causation = CausationID env, hp_trace = TraceID env\<rparr>"

definition envelope_hop :: "envelope \<Rightarrow> (lineage_table \<times> hop_row) option" where
  "envelope_hop env =
     (if EventType env = EventTypeSupplierRegistered then
        map_option (\<lambda>p. (SupplierTable, hop_of env (sr_SupplierID p) [] [] [])) (AsSupplierRegistered env)
      else if EventType env = EventTypeIngredientLotReceived then
        map_option (\<lambda>p. (LotTable, hop_of env (il_LotID p) (il_SupplierID p) (il_ItemID p) [])) (AsIngredientLotReceived env)
      else if EventType env = EventTypeProductionBatchProduced then
        map_option (\<lambda>p. (BatchTable, hop_of env (pb_BatchID p) (pb_LotID p) [] [])) (AsProductionBatchProduced env)
      else if EventType env = EventTypeShipmentDispatched then
        map_option (\<lambda>p. (ShipmentTable, hop_of env (sd_ShipmentID p) (sd_BatchID p) [] (sd_OrderID p))) (AsShipmentDispatched env)
      else None)"

definition hop_texts :: "hop_row \<Rightarrow> string list" where
  "hop_texts h =
     [hp_tenant h, hp_id h, hp_parent h, hp_item h, hp_order h, hp_event h, hp_occurred h, hp_recorded h,
      hp_correlation h, hp_trace h] @ (case hp_causation h of None \<Rightarrow> [] | Some c \<Rightarrow> [c])"

definition insertLineageHop :: "envelope \<Rightarrow> bool ptx" where
  "insertLineageHop env =
     (case envelope_hop env of
        None \<Rightarrow> tx_fail (PlatEvent ErrMalformed)
      | Some (tb, h) \<Rightarrow>
          tx_stmt ErrTransient (hop_texts h) (\<lambda>db.
            if \<not> hp_version h \<ge> 1 then Inl ErrTransient
            else if list_ex (hop_conflict tb h) (hop_rows tb db) then Inr (False, db)
            else Inr (True, set_hop_rows tb (hop_rows tb db @ [h]) db)))"

end
