(* ===== verification/Platform_Process.thy ===== *)
theory Platform_Process
  imports Platform_Schema
begin

text \<open>
  Package \<^verbatim>\<open>platform\<close>: \<^verbatim>\<open>ProcessRecord\<close> and everything below it (\<^verbatim>\<open>process.go\<close>, the write side of
  \<^verbatim>\<open>lineage.go\<close>).

  A \<open>site\<close> is the database and the notifications sent so far to the projection notifier. The re-drive
  loop of \<^verbatim>\<open>redriveGaps\<close> has no bound of its own, so it is a partial function: \<open>None\<close> is a run that does
  not return. \<open>hook\<close> stands for the fault the package's tests can inject before the handler, \<open>rnd\<close> for
  the sixteen bytes read from \<^verbatim>\<open>crypto/rand\<close> (\<open>None\<close> is a failed read).
\<close>

section \<open>Sites\<close>

record AppliedUpdate =
  au_TenantID :: string
  au_ItemID :: string
  au_QuantityOnHand :: int
  au_AggregateVersion :: int
  au_EventID :: string

record site =
  store :: "seshat_db world"
  notices :: "AppliedUpdate list"

definition on_store :: "(seshat_db world \<Rightarrow> 'r \<times> seshat_db world) \<Rightarrow> site \<Rightarrow> 'r \<times> site" where
  "on_store f s = (case f (store s) of (r, w) \<Rightarrow> (r, s\<lparr>store := w\<rparr>))"

definition notifyApplied :: "AppliedUpdate \<Rightarrow> site \<Rightarrow> site" where
  "notifyApplied u s = s\<lparr>notices := notices s @ [u]\<rparr>"

section \<open>The inventory handler\<close>

definition applyProjection :: "int \<Rightarrow> envelope \<Rightarrow> string \<Rightarrow> string \<Rightarrow> disposition ptx" where
  "applyProjection now env hash canonical =
     (case AsQuantityDecremented env of
        None \<Rightarrow> tx_fail (PlatEvent ErrMalformed)
      | Some payload \<Rightarrow>
          tx_bind (tx_query ErrTransient [TenantID env, AggregateID env]
                     (\<lambda>db. find_projection db (TenantID env) (AggregateID env)))
          (\<lambda>row. case row of
             None \<Rightarrow>
               if AggregateVersion env \<noteq> 1 then
                 record_as now (inbox_of env hash DispositionQuarantinedGap (Some 1) (Some (AggregateVersion env)) canonical)
               else
                 tx_bind (insertProjection (TenantID env) (AggregateID env) (qd_QuantityAfter payload) 1) (\<lambda>_.
                 record_as now (inbox_of env hash DispositionApplied None None []))
           | Some p \<Rightarrow>
               if AggregateVersion env \<le> pr_version p then
                 record_as now (inbox_of env hash DispositionQuarantinedStale
                   (Some (wrap64 (pr_version p + 1))) (Some (AggregateVersion env)) [])
               else if AggregateVersion env > wrap64 (pr_version p + 1) then
                 record_as now (inbox_of env hash DispositionQuarantinedGap
                   (Some (wrap64 (pr_version p + 1))) (Some (AggregateVersion env)) canonical)
               else if qd_QuantityBefore payload \<noteq> pr_quantity p then
                 record_as now (inbox_of env hash DispositionQuarantinedTransition None None [])
               else if wrap64 (qd_QuantityBefore payload - qd_QuantityDecremented payload) \<noteq> qd_QuantityAfter payload then
                 record_as now (inbox_of env hash DispositionQuarantinedInvalid None None [])
               else
                 tx_bind (update_projection (TenantID env) (AggregateID env) (qd_QuantityAfter payload) (AggregateVersion env)) (\<lambda>_.
                 record_as now (inbox_of env hash DispositionApplied None None []))))"

section \<open>The lineage handler\<close>

definition isProjectionFamily :: "string \<Rightarrow> bool" where
  "isProjectionFamily eventType \<longleftrightarrow>
     eventType = EventTypeQuantityDecremented \<or> eventType = EventTypeSupplierRegistered \<or>
     eventType = EventTypeIngredientLotReceived \<or> eventType = EventTypeProductionBatchProduced \<or>
     eventType = EventTypeShipmentDispatched"

definition projectionSelfID :: "envelope \<Rightarrow> string option" where
  "projectionSelfID env =
     (if EventType env = EventTypeQuantityDecremented then map_option qd_ItemID (AsQuantityDecremented env)
      else if EventType env = EventTypeSupplierRegistered then map_option sr_SupplierID (AsSupplierRegistered env)
      else if EventType env = EventTypeIngredientLotReceived then map_option il_LotID (AsIngredientLotReceived env)
      else if EventType env = EventTypeProductionBatchProduced then map_option pb_BatchID (AsProductionBatchProduced env)
      else if EventType env = EventTypeShipmentDispatched then map_option sd_ShipmentID (AsShipmentDispatched env)
      else None)"

definition lineageExistingDisposition :: "int \<Rightarrow> int \<Rightarrow> disposition" where
  "lineageExistingDisposition current incoming =
     (if incoming \<le> current then DispositionQuarantinedStale
      else if incoming > wrap64 (current + 1) then DispositionQuarantinedGap
      else DispositionQuarantinedInvalid)"

definition gapBytes :: "disposition \<Rightarrow> string \<Rightarrow> string" where
  "gapBytes disp canonical = (if disp = DispositionQuarantinedGap then canonical else [])"

definition applyLineage :: "int \<Rightarrow> envelope \<Rightarrow> string \<Rightarrow> string \<Rightarrow> disposition ptx" where
  "applyLineage now env hash canonical =
     tx_bind (lockLineageVersion env) (\<lambda>found. case found of
       Some current \<Rightarrow>
         tx_bind
           (if lineageExistingDisposition current (AggregateVersion env) = DispositionQuarantinedStale then
              tx_bind (lineageSourceEventID env) (\<lambda>existing.
                tx_return (if existing = Some (EventID env) then DispositionDuplicateNoop else DispositionQuarantinedStale))
            else tx_return (lineageExistingDisposition current (AggregateVersion env)))
         (\<lambda>disp. record_as now
            (if disp \<noteq> DispositionDuplicateNoop then
               inbox_of env hash disp (Some (wrap64 (current + 1))) (Some (AggregateVersion env)) (gapBytes disp canonical)
             else inbox_of env hash disp None None []))
     | None \<Rightarrow>
         if AggregateVersion env \<noteq> 1 then
           record_as now (inbox_of env hash DispositionQuarantinedGap (Some 1) (Some (AggregateVersion env)) canonical)
         else
           tx_bind (insertLineageHop env) (\<lambda>inserted.
             if \<not> inserted then
               tx_bind (lineageSourceEventID env) (\<lambda>existing.
                 record_as now (inbox_of env hash
                   (if existing = Some (EventID env) then DispositionDuplicateNoop else DispositionQuarantinedInvalid)
                   None None []))
             else record_as now (inbox_of env hash DispositionApplied None None [])))"

definition applyEvent :: "int \<Rightarrow> envelope \<Rightarrow> string \<Rightarrow> string \<Rightarrow> disposition ptx" where
  "applyEvent now env hash canonical =
     (if EventType env = EventTypeQuantityDecremented then applyProjection now env hash canonical
      else if EventType env = EventTypeSupplierRegistered \<or> EventType env = EventTypeIngredientLotReceived \<or>
              EventType env = EventTypeProductionBatchProduced \<or> EventType env = EventTypeShipmentDispatched
      then applyLineage now env hash canonical
      else tx_fail (PlatEvent ErrMalformed))"

section \<open>One validated event\<close>

definition validated_tx :: "envelope \<Rightarrow> string \<Rightarrow> string \<Rightarrow> int \<Rightarrow> disposition ptx" where
  "validated_tx env hash canonical now =
     tx_bind (lockInbox (EventID env)) (\<lambda>existing. case existing of
       None \<Rightarrow> applyEvent now env hash canonical
     | Some row \<Rightarrow>
         if ib_hash row \<noteq> hash then
           record_as now (inbox_of env (ib_hash row) DispositionQuarantinedConflict None None [])
         else
           (case ib_disposition row of
              DispositionApplied \<Rightarrow> record_as now (inbox_of env hash DispositionDuplicateNoop None None [])
            | DispositionDuplicateNoop \<Rightarrow> record_as now (inbox_of env hash DispositionDuplicateNoop None None [])
            | DispositionQuarantinedGap \<Rightarrow> applyEvent now env hash canonical
            | d \<Rightarrow> tx_return d))"

definition applied_update :: "envelope \<Rightarrow> quantity_decremented \<Rightarrow> AppliedUpdate" where
  "applied_update env payload =
     \<lparr>au_TenantID = TenantID env, au_ItemID = AggregateID env, au_QuantityOnHand = qd_QuantityAfter payload,
      au_AggregateVersion = AggregateVersion env, au_EventID = EventID env\<rparr>"

text \<open>Only the last return of the function can report \<open>DispositionApplied\<close>, so the notification is the
  last step of every run that reports it.\<close>

definition processValidated :: "envelope \<Rightarrow> site \<Rightarrow> (platform_error + Result) \<times> site" where
  "processValidated env s =
     (case ContentHash env of
        Inl e \<Rightarrow> (Inl ErrTransient, s)
      | Inr hash \<Rightarrow>
          (case CanonicalBytes env of
             Inl e \<Rightarrow> (Inl ErrTransient, s)
           | Inr canonical \<Rightarrow>
               (case on_store (transact ErrTransient ErrTransient (validated_tx env hash canonical)) s of
                  (Inl e, s1) \<Rightarrow> (Inl e, s1)
                | (Inr disp, s1) \<Rightarrow>
                    if disp = DispositionApplied \<and> EventType env = EventTypeQuantityDecremented then
                      (case AsQuantityDecremented env of
                         None \<Rightarrow> (Inl (PlatEvent ErrMalformed), s1)
                       | Some payload \<Rightarrow>
                           (Inr \<lparr>res_Disposition = Some disp, res_EventID = EventID env, res_ShouldAck = True\<rparr>,
                            notifyApplied (applied_update env payload) s1))
                    else
                      (Inr \<lparr>res_Disposition = Some disp, res_EventID = EventID env, res_ShouldAck = True\<rparr>, s1))))"

definition quarantineInbox ::
  "envelope \<Rightarrow> disposition \<Rightarrow> int option \<Rightarrow> int option \<Rightarrow> site \<Rightarrow> (platform_error + Result) \<times> site" where
  "quarantineInbox env disp expected received s =
     (let hash = (case ContentHash env of Inl e \<Rightarrow> [] | Inr h \<Rightarrow> h);
          canonical = (if disp = DispositionQuarantinedGap
                       then (case CanonicalBytes env of Inl e \<Rightarrow> [] | Inr b \<Rightarrow> b) else [])
      in case on_store (transact ErrTransient ErrTransient
                (\<lambda>now. record_as now (inbox_of env hash disp expected received canonical))) s of
           (Inl e, s1) \<Rightarrow> (Inl e, s1)
         | (Inr d, s1) \<Rightarrow> (Inr \<lparr>res_Disposition = Some d, res_EventID = EventID env, res_ShouldAck = True\<rparr>, s1))"

section \<open>Re-driving gaps\<close>

text \<open>The join of the inbox with the projection. All rows it finds have the same version, so
  \<^verbatim>\<open>ORDER BY ... LIMIT 1\<close> takes one of them.\<close>

definition next_gap :: "string \<Rightarrow> string \<Rightarrow> string \<Rightarrow> seshat_db \<Rightarrow> inbox_row option" where
  "next_gap tenantID aggregateType aggregateID db =
     find (\<lambda>i. ib_consumer i = ConsumerName \<and> ib_tenant i = tenantID \<and> ib_atype i = aggregateType \<and>
               ib_aid i = aggregateID \<and> ib_disposition i = DispositionQuarantinedGap \<and> ib_bytes i \<noteq> None \<and>
               list_ex (\<lambda>p. pr_tenant p = ib_tenant i \<and> pr_item p = ib_aid i \<and> ib_version i = pr_version p + 1)
                 (projection db)) (inbox db)"

definition select_gap :: "string \<Rightarrow> string \<Rightarrow> string \<Rightarrow> site \<Rightarrow> (platform_error + inbox_row option) \<times> site" where
  "select_gap tenantID aggregateType aggregateID =
     on_store (query_auto ErrTransient [ConsumerName, tenantID, aggregateType, aggregateID]
       (\<lambda>_. next_gap tenantID aggregateType aggregateID))"

partial_function (option) redriveGaps ::
  "string \<Rightarrow> string \<Rightarrow> string \<Rightarrow> site \<Rightarrow> (platform_error option \<times> site) option" where
  "redriveGaps tenantID aggregateType aggregateID s =
     (case select_gap tenantID aggregateType aggregateID s of
        (Inl e, s1) \<Rightarrow> Some (Some e, s1)
      | (Inr None, s1) \<Rightarrow> Some (None, s1)
      | (Inr (Some row), s1) \<Rightarrow>
          (case Parse (the (ib_bytes row)) of
             Inl e \<Rightarrow> Some (Some (PlatEvent e), s1)
           | Inr env \<Rightarrow>
               (case ContentHash env of
                  Inl e \<Rightarrow> Some (Some (PlatEvent e), s1)
                | Inr gotHash \<Rightarrow>
                    if gotHash \<noteq> ib_hash row then
                      (case quarantineInbox env DispositionQuarantinedConflict None None s1 of
                         (Inl e, s2) \<Rightarrow> Some (Some e, s2)
                       | (Inr _, s2) \<Rightarrow> redriveGaps tenantID aggregateType aggregateID s2)
                    else
                      (case processValidated env s1 of
                         (Inl e, s2) \<Rightarrow> Some (Some e, s2)
                       | (Inr res, s2) \<Rightarrow>
                           if res_Disposition res \<noteq> Some DispositionApplied then Some (None, s2)
                           else redriveGaps tenantID aggregateType aggregateID s2))))"


section \<open>Failure records\<close>

text \<open>\<^verbatim>\<open>receivedBytesHash\<close> and the identities a failure row can carry.\<close>

record failureRow =
  fr_EventID :: "string option"
  fr_TenantID :: "string option"
  fr_AggregateType :: "string option"
  fr_AggregateID :: "string option"
  fr_AggregateVersion :: "int option"
  fr_EventSchemaVersion :: "int option"
  fr_EventType :: "string option"
  fr_FailureCategory :: string
  fr_ContentHash :: "string option"
  fr_ReceivedBytesHash :: string
  fr_Source :: SourcePosition
  fr_DiagnosticCode :: string
  fr_QuarantineStatus :: failure_status

definition receivedBytesHash :: "string \<Rightarrow> string" where
  "receivedBytesHash value = sha256_hex value"

definition nonEmptyPtr :: "string \<Rightarrow> string option" where
  "nonEmptyPtr s = (if s = [] then None else Some s)"

definition nullStringPtr :: "string \<Rightarrow> string option" where
  "nullStringPtr s = (if s = [] then None else Some s)"

text \<open>The version nibble and the variant bits of a random UUID are forced.\<close>

definition newFailureID :: "string option \<Rightarrow> platform_error + string" where
  "newFailureID rnd =
     (case rnd of
        None \<Rightarrow> Inl ErrTransient
      | Some b \<Rightarrow>
          (let b = b[6 := byte (byte_val (b ! 6) mod 16 + 0x40), 8 := byte (byte_val (b ! 8) mod 64 + 0x80)]
           in Inr (hex_encode (take 4 b) @ ''-'' @ hex_encode (take 2 (drop 4 b)) @ ''-'' @
                   hex_encode (take 2 (drop 6 b)) @ ''-'' @ hex_encode (take 2 (drop 8 b)) @ ''-'' @
                   hex_encode (take 6 (drop 10 b)))))"

definition opt_list :: "'a option \<Rightarrow> 'a list" where
  "opt_list x = (case x of None \<Rightarrow> [] | Some v \<Rightarrow> [v])"

definition at_position :: "SourcePosition \<Rightarrow> failure_table_row \<Rightarrow> bool" where
  "at_position pos r \<longleftrightarrow> ft_consumer r = ConsumerName \<and> ft_topic r = sp_Topic pos \<and>
     ft_partition r = sp_Partition pos \<and> ft_offset r = sp_Offset pos"

definition new_failure :: "int \<Rightarrow> string \<Rightarrow> failureRow \<Rightarrow> failure_table_row" where
  "new_failure now failureID row =
     \<lparr>ft_id = failureID, ft_consumer = ConsumerName, ft_event = fr_EventID row, ft_tenant = fr_TenantID row,
      ft_atype = fr_AggregateType row, ft_aid = fr_AggregateID row, ft_version = fr_AggregateVersion row,
      ft_schema = fr_EventSchemaVersion row, ft_etype = fr_EventType row, ft_category = fr_FailureCategory row,
      ft_hash = fr_ContentHash row, ft_bytes_hash = nullStringPtr (fr_ReceivedBytesHash row),
      ft_topic = sp_Topic (fr_Source row), ft_partition = sp_Partition (fr_Source row), ft_offset = sp_Offset (fr_Source row),
      ft_attempts = 1, ft_code = fr_DiagnosticCode row, ft_status = fr_QuarantineStatus row,
      ft_created = now, ft_updated = now\<rparr>"

text \<open>\<^verbatim>\<open>INSERT ... ON CONFLICT (consumer_name, source_topic, source_partition, source_offset) DO UPDATE\<close>;
  \<^verbatim>\<open>attempt_count\<close> is a 32-bit column.\<close>

definition put_failure ::
  "int \<Rightarrow> string \<Rightarrow> failureRow \<Rightarrow> seshat_db \<Rightarrow> platform_error + ((int \<times> failure_status) \<times> seshat_db)" where
  "put_failure now failureID row db =
     (case find (at_position (fr_Source row)) (processing_failures db) of
        Some r \<Rightarrow>
          if ft_attempts r + 1 \<ge> 2 ^ 31 then Inl ErrTransient
          else Inr ((ft_attempts r + 1, ft_status r),
                 db\<lparr>processing_failures := map (\<lambda>x. if at_position (fr_Source row) x
                      then x\<lparr>ft_attempts := ft_attempts x + 1, ft_code := fr_DiagnosticCode row,
                             ft_category := fr_FailureCategory row, ft_updated := now\<rparr>
                      else x) (processing_failures db)\<rparr>)
      | None \<Rightarrow>
          if list_ex (\<lambda>r. ft_id r = failureID) (processing_failures db) then Inl ErrTransient
          else Inr ((1, fr_QuarantineStatus row),
                 db\<lparr>processing_failures := processing_failures db @ [new_failure now failureID row]\<rparr>))"

definition failure_texts :: "string \<Rightarrow> failureRow \<Rightarrow> string list" where
  "failure_texts failureID row =
     [failureID, ConsumerName, fr_FailureCategory row, fr_ReceivedBytesHash row, sp_Topic (fr_Source row), fr_DiagnosticCode row] @
     concat (map opt_list [fr_EventID row, fr_TenantID row, fr_AggregateType row, fr_AggregateID row, fr_EventType row,
       fr_ContentHash row])"

definition upsertFailureReturning :: "string option \<Rightarrow> int \<Rightarrow> failureRow \<Rightarrow> (int \<times> failure_status) ptx" where
  "upsertFailureReturning rnd now row =
     (case newFailureID rnd of
        Inl e \<Rightarrow> tx_fail e
      | Inr failureID \<Rightarrow> tx_stmt ErrTransient (failure_texts failureID row) (put_failure now failureID row))"

definition upsertFailure :: "string option \<Rightarrow> int \<Rightarrow> failureRow \<Rightarrow> unit ptx" where
  "upsertFailure rnd now row = tx_bind (upsertFailureReturning rnd now row) (\<lambda>_. tx_return ())"

section \<open>Identity of a failed delivery\<close>

record recovered =
  rc_event :: "string option"
  rc_tenant :: "string option"
  rc_atype :: "string option"
  rc_aid :: "string option"
  rc_version :: "int option"
  rc_schema :: "int option"
  rc_etype :: "string option"

definition nothing_recovered :: recovered where
  "nothing_recovered = \<lparr>rc_event = None, rc_tenant = None, rc_atype = None, rc_aid = None, rc_version = None,
     rc_schema = None, rc_etype = None\<rparr>"

definition positive_ptr :: "int option \<Rightarrow> int option" where
  "positive_ptr v = (case v of None \<Rightarrow> None | Some n \<Rightarrow> if n > 0 then Some n else None)"

definition recoveredParseIdentity :: "string \<Rightarrow> recovered" where
  "recoveredParseIdentity value =
     (case js_parse value of
        Some (JsObj ms) \<Rightarrow>
          (case (string_field ''event_id'' [] ms, string_field ''tenant_id'' [] ms, string_field ''event_type'' [] ms,
                 int_field ''event_schema_version'' None ms, string_field ''aggregate_type'' [] ms,
                 string_field ''aggregate_id'' [] ms, int_field ''aggregate_version'' None ms) of
             (Some e, Some t, Some ety, Some sv, Some aty, Some aid, Some av) \<Rightarrow>
               \<lparr>rc_event = nonEmptyPtr e, rc_tenant = nonEmptyPtr t, rc_atype = nonEmptyPtr aty, rc_aid = nonEmptyPtr aid,
                rc_version = positive_ptr av, rc_schema = positive_ptr sv, rc_etype = nonEmptyPtr ety\<rparr>
           | _ \<Rightarrow> nothing_recovered)
      | _ \<Rightarrow> nothing_recovered)"

definition failure_of ::
  "recovered \<Rightarrow> string option \<Rightarrow> string \<Rightarrow> string \<Rightarrow> string \<Rightarrow> SourcePosition \<Rightarrow> failure_status \<Rightarrow> failureRow" where
  "failure_of rc hash category code bytesHash pos status =
     \<lparr>fr_EventID = rc_event rc, fr_TenantID = rc_tenant rc, fr_AggregateType = rc_atype rc, fr_AggregateID = rc_aid rc,
      fr_AggregateVersion = rc_version rc, fr_EventSchemaVersion = rc_schema rc, fr_EventType = rc_etype rc,
      fr_FailureCategory = category, fr_ContentHash = hash, fr_ReceivedBytesHash = bytesHash, fr_Source = pos,
      fr_DiagnosticCode = code, fr_QuarantineStatus = status\<rparr>"

definition failureIdentity :: "envelope \<Rightarrow> recovered \<times> string option" where
  "failureIdentity env =
     (\<lparr>rc_event = Some (EventID env), rc_tenant = Some (TenantID env), rc_atype = Some (AggregateType env),
       rc_aid = Some (AggregateID env), rc_version = Some (AggregateVersion env),
       rc_schema = Some (EventSchemaVersion env), rc_etype = Some (EventType env)\<rparr>,
      (case ContentHash env of Inl e \<Rightarrow> None | Inr h \<Rightarrow> Some h))"

section \<open>Failed deliveries\<close>

type_synonym outcome = "Result \<times> platform_error option"

definition quarantined_invalid :: Result where
  "quarantined_invalid = \<lparr>res_Disposition = Some DispositionQuarantinedInvalid, res_EventID = [], res_ShouldAck = True\<rparr>"

definition persist_failure :: "string option \<Rightarrow> failureRow \<Rightarrow> site \<Rightarrow> outcome \<times> site" where
  "persist_failure rnd row s =
     (case on_store (transact ErrTransient ErrTransient (\<lambda>now. upsertFailure rnd now row)) s of
        (Inl e, s1) \<Rightarrow> ((no_result, Some e), s1)
      | (Inr _, s1) \<Rightarrow> ((quarantined_invalid, None), s1))"

definition persistParseFailure :: "string option \<Rightarrow> string \<Rightarrow> SourcePosition \<Rightarrow> event_error \<Rightarrow> site \<Rightarrow> outcome \<times> site" where
  "persistParseFailure rnd value pos parseErr =
     (let category = (if parseErr = ErrUnsupported then ''unsupported_contract'' else ''malformed_envelope'')
      in persist_failure rnd (failure_of (recoveredParseIdentity value) None category category
           (receivedBytesHash value) pos FailureQuarantined))"

definition persistConsumerUnsupported ::
  "string option \<Rightarrow> envelope \<Rightarrow> string \<Rightarrow> SourcePosition \<Rightarrow> site \<Rightarrow> outcome \<times> site" where
  "persistConsumerUnsupported rnd env value pos =
     (case failureIdentity env of (rc, hash) \<Rightarrow>
        persist_failure rnd (failure_of rc hash ''unsupported_contract'' ''unsupported_contract''
          (receivedBytesHash value) pos FailureQuarantined))"

definition quarantine_failures :: "int \<Rightarrow> SourcePosition \<Rightarrow> unit ptx" where
  "quarantine_failures now pos =
     tx_stmt ErrTransient [ConsumerName, sp_Topic pos] (\<lambda>db.
       Inr ((), db\<lparr>processing_failures := map (\<lambda>x. if at_position pos x
              then x\<lparr>ft_status := FailureQuarantined, ft_updated := now\<rparr> else x) (processing_failures db)\<rparr>))"

definition poison_tx :: "string option \<Rightarrow> failureRow \<Rightarrow> int \<Rightarrow> bool ptx" where
  "poison_tx rnd row now =
     tx_bind (upsertFailureReturning rnd now row) (\<lambda>(attempts, status).
       if attempts \<ge> MaxHandlerAttempts
       then tx_bind (quarantine_failures now (fr_Source row)) (\<lambda>_. tx_return True)
       else tx_return False)"

definition bumpPoisonAttempt ::
  "string option \<Rightarrow> envelope \<Rightarrow> string \<Rightarrow> SourcePosition \<Rightarrow> string \<Rightarrow> site \<Rightarrow> outcome \<times> site" where
  "bumpPoisonAttempt rnd env value pos code s =
     (case failureIdentity env of (rc, hash) \<Rightarrow>
        (case on_store (transact ErrTransient ErrTransient
                (poison_tx rnd (failure_of rc hash ''handler_poison'' code (receivedBytesHash value) pos Retrying))) s of
           (Inl e, s1) \<Rightarrow> ((no_result, Some e), s1)
         | (Inr True, s1) \<Rightarrow> ((quarantined_invalid, Some ErrPoison), s1)
         | (Inr False, s1) \<Rightarrow> ((no_result, Some ErrTransient), s1)))"

section \<open>ProcessRecord\<close>

definition as_outcome :: "(platform_error + Result) \<times> site \<Rightarrow> outcome \<times> site" where
  "as_outcome p = (case p of (Inl e, s) \<Rightarrow> ((no_result, Some e), s) | (Inr r, s) \<Rightarrow> ((r, None), s))"

definition with_topic :: "SourcePosition \<Rightarrow> SourcePosition" where
  "with_topic pos = (if sp_Topic pos = [] then pos\<lparr>sp_Topic := Topic\<rparr> else pos)"

text \<open>The last step: the decision is durable, and the gaps it may have closed are re-driven.\<close>

definition process_and_redrive :: "string option \<Rightarrow> envelope \<Rightarrow> string \<Rightarrow> SourcePosition \<Rightarrow> site \<Rightarrow> (outcome \<times> site) option" where
  "process_and_redrive rnd env value pos s =
     (case processValidated env s of
        (Inl e, s1) \<Rightarrow>
          if e = ErrHandlerPoison then Some (bumpPoisonAttempt rnd env value pos ''handler_poison'' s1)
          else Some ((no_result, Some e), s1)
      | (Inr res, s1) \<Rightarrow>
          if res_Disposition res = Some DispositionApplied \<or> res_Disposition res = Some DispositionDuplicateNoop then
            (case redriveGaps (TenantID env) (AggregateType env) (AggregateID env) s1 of
               None \<Rightarrow> None
             | Some (None, s2) \<Rightarrow> Some ((res, None), s2)
             | Some (Some rerr, s2) \<Rightarrow> Some ((res\<lparr>res_ShouldAck := False\<rparr>, Some ErrTransient), s2))
          else Some ((res, None), s1))"

definition ProcessRecord ::
  "bool \<Rightarrow> string option \<Rightarrow> string \<Rightarrow> string \<Rightarrow> SourcePosition \<Rightarrow> site \<Rightarrow> (outcome \<times> site) option" where
  "ProcessRecord hook rnd key value pos0 s =
     (let pos = with_topic pos0 in
      case Parse value of
        Inl e \<Rightarrow> Some (persistParseFailure rnd value pos e s)
      | Inr env \<Rightarrow>
          if \<not> isProjectionFamily (EventType env) then Some (persistConsumerUnsupported rnd env value pos s)
          else
            (case projectionSelfID env of
               None \<Rightarrow> Some (persistParseFailure rnd value pos ErrMalformed s)
             | Some selfID \<Rightarrow>
                 if key \<noteq> AggregateKey (TenantID env) (AggregateType env) (AggregateID env) \<or> selfID \<noteq> AggregateID env
                 then Some (as_outcome (quarantineInbox env DispositionQuarantinedMismatch None None s))
                 else if hook then Some (bumpPoisonAttempt rnd env value pos ''handler_poison'' s)
                 else process_and_redrive rnd env value pos s))"

section \<open>Single-row reads\<close>

definition ProjectionState :: "string \<Rightarrow> string \<Rightarrow> site \<Rightarrow> (platform_error + (int \<times> int) option) \<times> site" where
  "ProjectionState tenantID itemID =
     on_store (query_auto PlatDB [tenantID, itemID]
       (\<lambda>_ db. map_option (\<lambda>r. (pr_quantity r, pr_version r)) (find_projection db tenantID itemID)))"

definition InboxDisposition :: "string \<Rightarrow> site \<Rightarrow> (platform_error + (disposition \<times> string) option) \<times> site" where
  "InboxDisposition eventID =
     on_store (query_auto PlatDB [ConsumerName, eventID]
       (\<lambda>_ db. map_option (\<lambda>r. (ib_disposition r, ib_hash r)) (find_inbox db eventID)))"

end
