(* ===== verification/Platform_Reads.thy ===== *)
theory Platform_Reads
  imports Platform_Process
begin

text \<open>
  Package \<^verbatim>\<open>platform\<close>, the read side: checksums of the projections (\<^verbatim>\<open>checksum.go\<close>), the trace of a batch
  (\<^verbatim>\<open>TraceBatch\<close> of \<^verbatim>\<open>lineage.go\<close>), the tenant's projection rows (\<^verbatim>\<open>projection_read.go\<close>) and the processing
  inspection (\<^verbatim>\<open>inspect.go\<close>).

  Go compares strings by bytes (\<open>str_less\<close>); an \<^verbatim>\<open>ORDER BY\<close> on a text column follows the database's
  collation, which is the parameter \<open>coll\<close>.
\<close>

section \<open>String order\<close>

definition str_less :: "string \<Rightarrow> string \<Rightarrow> bool" where
  "str_less a b = less_units (map byte_val a) (map byte_val b)"

lemma inj_byte_val: "inj (\<lambda>c. byte_val c)"
  by (rule injI) (metis char_of_char)

interpretation bytewise: go_less str_less UNIV
proof
  show "\<not> str_less x x" for x by (simp add: str_less_def less_units_irrefl)
  show "str_less x z" if "str_less x y" "str_less y z" for x y z
    using that less_units_trans by (auto simp: str_less_def)
  show "str_less x y \<or> x = y \<or> str_less y x" for x y
    using less_units_total [of "map byte_val x" "map byte_val y"] map_injective [OF _ inj_byte_val, of x y]
    by (auto simp: str_less_def)
qed

section \<open>Checksums\<close>

definition projection_of :: "seshat_db \<Rightarrow> string \<Rightarrow> projection_row list" where
  "projection_of db t = filter (\<lambda>r. pr_tenant r = t) (projection db)"

definition lower_projection :: "projection_row \<Rightarrow> projection_row" where
  "lower_projection r = r\<lparr>pr_tenant := to_lower (pr_tenant r), pr_item := to_lower (pr_item r)\<rparr>"

definition projection_before :: "projection_row \<Rightarrow> projection_row \<Rightarrow> bool" where
  "projection_before a b =
     (if pr_tenant a \<noteq> pr_tenant b then str_less (pr_tenant a) (pr_tenant b) else str_less (pr_item a) (pr_item b))"

definition projection_line :: "projection_row \<Rightarrow> string" where
  "projection_line r = pr_tenant r @ [CHR 0x09] @ pr_item r @ [CHR 0x09] @ format_int (pr_quantity r) @ [CHR 0x09] @
     format_int (pr_version r) @ [CHR 0x0A]"

definition projection_text :: "projection_row list \<Rightarrow> string" where
  "projection_text rows = concat (map projection_line (isort projection_before (map lower_projection rows)))"

definition ChecksumTenant :: "string \<Rightarrow> site \<Rightarrow> (platform_error + string) \<times> site" where
  "ChecksumTenant tenantID s =
     (case on_store (query_auto PlatDB [to_lower tenantID] (\<lambda>_ db. projection_of db (to_lower tenantID))) s of
        (Inl e, s1) \<Rightarrow> (Inl e, s1)
      | (Inr rows, s1) \<Rightarrow> (Inr (sha256_hex (projection_text rows)), s1))"

record checksum_row =
  cs_kind :: string
  cs_tenant :: string
  cs_id :: string
  cs_parent :: string
  cs_item :: string
  cs_order :: string
  cs_version :: int
  cs_event :: string
  cs_schema :: int

definition checksum_of :: "string \<Rightarrow> hop_row \<Rightarrow> checksum_row" where
  "checksum_of kind h =
     \<lparr>cs_kind = kind, cs_tenant = to_lower (hp_tenant h), cs_id = to_lower (hp_id h), cs_parent = to_lower (hp_parent h),
      cs_item = to_lower (hp_item h), cs_order = to_lower (hp_order h), cs_version = hp_version h,
      cs_event = to_lower (hp_event h), cs_schema = hp_schema h\<rparr>"

definition checksum_before :: "checksum_row \<Rightarrow> checksum_row \<Rightarrow> bool" where
  "checksum_before a b =
     (if cs_kind a \<noteq> cs_kind b then str_less (cs_kind a) (cs_kind b)
      else if cs_tenant a \<noteq> cs_tenant b then str_less (cs_tenant a) (cs_tenant b)
      else str_less (cs_id a) (cs_id b))"

definition checksum_line :: "checksum_row \<Rightarrow> string" where
  "checksum_line r =
     cs_kind r @ [CHR 0x09] @ cs_tenant r @ [CHR 0x09] @ cs_id r @ [CHR 0x09] @ cs_parent r @ [CHR 0x09] @
     cs_item r @ [CHR 0x09] @ cs_order r @ [CHR 0x09] @ format_int (cs_version r) @ [CHR 0x09] @
     cs_event r @ [CHR 0x09] @ format_int (cs_schema r) @ [CHR 0x0A]"

text \<open>The four queries, in the order of the source.\<close>

definition checksum_tables :: "(string \<times> lineage_table) list" where
  "checksum_tables =
     [(AggregateTypeSupplier, SupplierTable), (AggregateTypeIngredientLot, LotTable),
      (AggregateTypeProductionBatch, BatchTable), (AggregateTypeShipment, ShipmentTable)]"

fun appendRows ::
  "string \<Rightarrow> (string \<times> lineage_table) list \<Rightarrow> checksum_row list \<Rightarrow> site \<Rightarrow> (platform_error + checksum_row list) \<times> site" where
  "appendRows tenantID [] out s = (Inr out, s)"
| "appendRows tenantID ((kind, tb) # tbs) out s =
     (case on_store (query_auto PlatDB [tenantID] (\<lambda>_ db. filter (\<lambda>h. hp_tenant h = tenantID) (hop_rows tb db))) s of
        (Inl e, s1) \<Rightarrow> (Inl e, s1)
      | (Inr hs, s1) \<Rightarrow> appendRows tenantID tbs (out @ map (checksum_of kind) hs) s1)"

definition lineage_text :: "checksum_row list \<Rightarrow> string" where
  "lineage_text rows = concat (map checksum_line (isort checksum_before rows))"

definition ChecksumLineage :: "string \<Rightarrow> site \<Rightarrow> (platform_error + string) \<times> site" where
  "ChecksumLineage tenantID0 s =
     (let tenantID = to_lower (trim_space tenantID0) in
      if tenantID = [] then (Inl PlatArgument, s)
      else (case appendRows tenantID checksum_tables [] s of
              (Inl e, s1) \<Rightarrow> (Inl e, s1)
            | (Inr rows, s1) \<Rightarrow> (Inr (sha256_hex (lineage_text rows)), s1)))"

section \<open>The trace of a batch\<close>

record LineageHop =
  lh_ID :: string
  lh_ParentID :: string
  lh_ItemID :: string
  lh_OrderID :: string
  lh_AggregateVersion :: int
  lh_SourceEventID :: string
  lh_EventSchemaVersion :: int
  lh_OccurredAt :: string
  lh_RecordedAt :: string
  lh_CorrelationID :: string
  lh_CausationID :: "string option"
  lh_TraceID :: string

record BatchTrace =
  bt_TenantID :: string
  bt_Supplier :: LineageHop
  bt_Lot :: LineageHop
  bt_Batch :: LineageHop
  bt_Shipment :: LineageHop

text \<open>A missing side of the outer join scans as zero values.\<close>

definition hop :: "hop_row option \<Rightarrow> LineageHop" where
  "hop r =
     (case r of
        None \<Rightarrow> \<lparr>lh_ID = [], lh_ParentID = [], lh_ItemID = [], lh_OrderID = [], lh_AggregateVersion = 0,
                 lh_SourceEventID = [], lh_EventSchemaVersion = 0, lh_OccurredAt = [], lh_RecordedAt = [],
                 lh_CorrelationID = [], lh_CausationID = None, lh_TraceID = []\<rparr>
      | Some h \<Rightarrow> \<lparr>lh_ID = hp_id h, lh_ParentID = hp_parent h, lh_ItemID = hp_item h, lh_OrderID = hp_order h,
                  lh_AggregateVersion = hp_version h, lh_SourceEventID = hp_event h, lh_EventSchemaVersion = hp_schema h,
                  lh_OccurredAt = hp_occurred h, lh_RecordedAt = hp_recorded h, lh_CorrelationID = hp_correlation h,
                  lh_CausationID = hp_causation h, lh_TraceID = hp_trace h\<rparr>)"

text \<open>The keys of the tables make each join find at most one row.\<close>

definition trace_rows ::
  "seshat_db \<Rightarrow> string \<Rightarrow> string \<Rightarrow> (hop_row \<times> hop_row option \<times> hop_row option \<times> hop_row option) option" where
  "trace_rows db t batchID =
     (case find_hop BatchTable db t batchID of
        None \<Rightarrow> None
      | Some b \<Rightarrow>
          (let lot = find_hop LotTable db (hp_tenant b) (hp_parent b);
               sp = (case lot of None \<Rightarrow> None | Some l \<Rightarrow> find_hop SupplierTable db (hp_tenant b) (hp_parent l));
               ship = find (\<lambda>r. hp_tenant r = hp_tenant b \<and> hp_parent r = hp_id b) (lineage_shipments db)
           in Some (b, lot, sp, ship)))"

definition TraceBatch :: "string \<Rightarrow> string \<Rightarrow> site \<Rightarrow> (platform_error + BatchTrace option) \<times> site" where
  "TraceBatch tenantID0 batchID0 s =
     (let tenantID = trim_space tenantID0; batchID = trim_space batchID0 in
      if tenantID = [] then (Inl PlatArgument, s)
      else if batchID = [] then (Inl PlatArgument, s)
      else (case on_store (query_auto PlatDB [tenantID, batchID] (\<lambda>_ db. trace_rows db tenantID batchID)) s of
              (Inl e, s1) \<Rightarrow> (Inl e, s1)
            | (Inr None, s1) \<Rightarrow> (Inr None, s1)
            | (Inr (Some (b, l, sp, sh)), s1) \<Rightarrow>
                (Inr (Some \<lparr>bt_TenantID = tenantID, bt_Supplier = hop sp, bt_Lot = hop l, bt_Batch = hop (Some b),
                            bt_Shipment = hop sh\<rparr>), s1)))"

fun count_tables :: "string \<Rightarrow> lineage_table list \<Rightarrow> nat list \<Rightarrow> site \<Rightarrow> (platform_error + nat list) \<times> site" where
  "count_tables tenantID [] out s = (Inr out, s)"
| "count_tables tenantID (tb # tbs) out s =
     (case on_store (query_auto PlatDB [tenantID] (\<lambda>_ db. length (filter (\<lambda>h. hp_tenant h = tenantID) (hop_rows tb db)))) s of
        (Inl e, s1) \<Rightarrow> (Inl e, s1)
      | (Inr n, s1) \<Rightarrow> count_tables tenantID tbs (out @ [n]) s1)"

definition countLineageRows :: "string \<Rightarrow> site \<Rightarrow> (platform_error + nat list) \<times> site" where
  "countLineageRows tenantID = count_tables tenantID [SupplierTable, LotTable, BatchTable, ShipmentTable] []"

section \<open>Projection rows of a tenant\<close>

record ProjectionRow =
  pw_ItemID :: string
  pw_QuantityOnHand :: int
  pw_AggregateVersion :: int

definition ListTenantProjection ::
  "(string \<Rightarrow> string \<Rightarrow> bool) \<Rightarrow> string \<Rightarrow> site \<Rightarrow> (platform_error + ProjectionRow list) \<times> site" where
  "ListTenantProjection coll tenantID =
     on_store (query_auto PlatDB [to_lower tenantID] (\<lambda>_ db.
       map (\<lambda>r. \<lparr>pw_ItemID = pr_item r, pw_QuantityOnHand = pr_quantity r, pw_AggregateVersion = pr_version r\<rparr>)
         (isort (\<lambda>a b. coll (pr_item a) (pr_item b)) (projection_of db (to_lower tenantID)))))"

section \<open>Inspection\<close>

record FailureSample =
  fs_FailureID :: string
  fs_EventID :: string
  fs_TenantID :: string
  fs_AggregateType :: string
  fs_AggregateID :: string
  fs_EventType :: string
  fs_FailureCategory :: string
  fs_DiagnosticCode :: string
  fs_QuarantineStatus :: failure_status
  fs_SourceTopic :: string
  fs_SourcePartition :: int
  fs_SourceOffset :: int
  fs_AttemptCount :: int
  fs_CreatedAt :: int

record GapSample =
  gs_EventID :: string
  gs_TenantID :: string
  gs_AggregateType :: string
  gs_AggregateID :: string
  gs_AggregateVersion :: int
  gs_ExpectedVersion :: int
  gs_ReceivedVersion :: int
  gs_CreatedAt :: int

record ProcessingInspection =
  pi_Applied :: nat
  pi_DuplicateNoop :: nat
  pi_QuarantinedConflict :: nat
  pi_QuarantinedGap :: nat
  pi_QuarantinedStale :: nat
  pi_QuarantinedInvalid :: nat
  pi_QuarantinedMismatch :: nat
  pi_QuarantinedTransition :: nat
  pi_FailuresRetrying :: nat
  pi_FailuresQuarantined :: nat
  pi_OldestGap :: "int option"
  pi_OldestFailure :: "int option"
  pi_Failures :: "FailureSample list"
  pi_Gaps :: "GapSample list"

definition or_empty :: "string option \<Rightarrow> string" where
  "or_empty v = (case v of None \<Rightarrow> [] | Some x \<Rightarrow> x)"

definition or_zero :: "int option \<Rightarrow> int" where
  "or_zero v = (case v of None \<Rightarrow> 0 | Some x \<Rightarrow> x)"

definition failure_sample :: "failure_table_row \<Rightarrow> FailureSample" where
  "failure_sample r =
     \<lparr>fs_FailureID = ft_id r, fs_EventID = or_empty (ft_event r), fs_TenantID = or_empty (ft_tenant r),
      fs_AggregateType = or_empty (ft_atype r), fs_AggregateID = or_empty (ft_aid r), fs_EventType = or_empty (ft_etype r),
      fs_FailureCategory = ft_category r, fs_DiagnosticCode = ft_code r, fs_QuarantineStatus = ft_status r,
      fs_SourceTopic = ft_topic r, fs_SourcePartition = ft_partition r, fs_SourceOffset = ft_offset r,
      fs_AttemptCount = ft_attempts r, fs_CreatedAt = ft_created r\<rparr>"

definition gap_sample :: "inbox_row \<Rightarrow> GapSample" where
  "gap_sample r =
     \<lparr>gs_EventID = ib_event r, gs_TenantID = ib_tenant r, gs_AggregateType = ib_atype r, gs_AggregateID = ib_aid r,
      gs_AggregateVersion = ib_version r, gs_ExpectedVersion = or_zero (ib_expected r),
      gs_ReceivedVersion = or_zero (ib_received r), gs_CreatedAt = ib_created r\<rparr>"

definition inbox_scope :: "string \<Rightarrow> seshat_db \<Rightarrow> inbox_row list" where
  "inbox_scope tenantID db =
     filter (\<lambda>r. ib_consumer r = ConsumerName \<and> (tenantID = [] \<or> ib_tenant r = tenantID)) (inbox db)"

definition failure_scope :: "string \<Rightarrow> seshat_db \<Rightarrow> failure_table_row list" where
  "failure_scope tenantID db =
     filter (\<lambda>r. ft_consumer r = ConsumerName \<and> (tenantID = [] \<or> ft_tenant r = Some tenantID)) (processing_failures db)"

definition gap_scope :: "string \<Rightarrow> seshat_db \<Rightarrow> inbox_row list" where
  "gap_scope tenantID db = filter (\<lambda>r. ib_disposition r = DispositionQuarantinedGap) (inbox_scope tenantID db)"

definition count_disposition :: "disposition \<Rightarrow> inbox_row list \<Rightarrow> nat" where
  "count_disposition d rows = length (filter (\<lambda>r. ib_disposition r = d) rows)"

definition count_failures :: "failure_status \<Rightarrow> failure_table_row list \<Rightarrow> nat" where
  "count_failures st rows = length (filter (\<lambda>r. ft_status r = st) rows)"

definition oldest :: "int list \<Rightarrow> int option" where
  "oldest ts = (if ts = [] then None else Some (Min (set ts)))"

definition empty_inspection :: ProcessingInspection where
  "empty_inspection =
     \<lparr>pi_Applied = 0, pi_DuplicateNoop = 0, pi_QuarantinedConflict = 0, pi_QuarantinedGap = 0, pi_QuarantinedStale = 0,
      pi_QuarantinedInvalid = 0, pi_QuarantinedMismatch = 0, pi_QuarantinedTransition = 0, pi_FailuresRetrying = 0,
      pi_FailuresQuarantined = 0, pi_OldestGap = None, pi_OldestFailure = None, pi_Failures = [], pi_Gaps = []\<rparr>"

text \<open>The six queries of \<^verbatim>\<open>inspectProcessing\<close>, each with what it adds to the report.\<close>

definition inspection_steps :: "string \<Rightarrow> (seshat_db \<Rightarrow> ProcessingInspection \<Rightarrow> ProcessingInspection) list" where
  "inspection_steps tenantID =
     [\<lambda>db out. (let rows = inbox_scope tenantID db in
        out\<lparr>pi_Applied := count_disposition DispositionApplied rows,
            pi_DuplicateNoop := count_disposition DispositionDuplicateNoop rows,
            pi_QuarantinedConflict := count_disposition DispositionQuarantinedConflict rows,
            pi_QuarantinedGap := count_disposition DispositionQuarantinedGap rows,
            pi_QuarantinedStale := count_disposition DispositionQuarantinedStale rows,
            pi_QuarantinedInvalid := count_disposition DispositionQuarantinedInvalid rows,
            pi_QuarantinedMismatch := count_disposition DispositionQuarantinedMismatch rows,
            pi_QuarantinedTransition := count_disposition DispositionQuarantinedTransition rows\<rparr>),
      \<lambda>db out. out\<lparr>pi_FailuresRetrying := count_failures Retrying (failure_scope tenantID db),
                   pi_FailuresQuarantined := count_failures FailureQuarantined (failure_scope tenantID db)\<rparr>,
      \<lambda>db out. out\<lparr>pi_OldestGap := oldest (map ib_created (gap_scope tenantID db))\<rparr>,
      \<lambda>db out. out\<lparr>pi_OldestFailure := oldest (map ft_created (failure_scope tenantID db))\<rparr>,
      \<lambda>db out. out\<lparr>pi_Failures := map failure_sample (take 20 (isort (\<lambda>a b. ft_created a < ft_created b) (failure_scope tenantID db)))\<rparr>,
      \<lambda>db out. out\<lparr>pi_Gaps := map gap_sample (take 20 (isort (\<lambda>a b. ib_created a < ib_created b) (gap_scope tenantID db)))\<rparr>]"

fun run_inspection ::
  "string list \<Rightarrow> (seshat_db \<Rightarrow> ProcessingInspection \<Rightarrow> ProcessingInspection) list \<Rightarrow> ProcessingInspection \<Rightarrow> site \<Rightarrow>
   (platform_error + ProcessingInspection) \<times> site" where
  "run_inspection ps [] out s = (Inr out, s)"
| "run_inspection ps (q # qs) out s =
     (case on_store (query_auto PlatDB ps (\<lambda>_ db. q db out)) s of
        (Inl e, s1) \<Rightarrow> (Inl e, s1)
      | (Inr out', s1) \<Rightarrow> run_inspection ps qs out' s1)"

definition inspectProcessing :: "string \<Rightarrow> site \<Rightarrow> (platform_error + ProcessingInspection) \<times> site" where
  "inspectProcessing tenantID =
     run_inspection (ConsumerName # (if tenantID = [] then [] else [tenantID])) (inspection_steps tenantID) empty_inspection"

definition InspectProcessing :: "site \<Rightarrow> (platform_error + ProcessingInspection) \<times> site" where
  "InspectProcessing = inspectProcessing []"

definition InspectProcessingForTenant :: "string \<Rightarrow> site \<Rightarrow> (platform_error + ProcessingInspection) \<times> site" where
  "InspectProcessingForTenant tenantID s = (if tenantID = [] then (Inl PlatArgument, s) else inspectProcessing tenantID s)"

end
