(* ===== verification/Source_System.thy ===== *)
theory Source_System
  imports Relay
begin

text \<open>
  The source side as one system: ERP transactions, relays and the broker, interleaved in any order.
  Every reachable state satisfies the ledger and the lineage invariant, and every published row is
  in the broker's log. Then the other direction: without faults an order is accepted, and a drain
  publishes every due row it claims.
\<close>

section \<open>The source side as a whole\<close>

datatype erp_command =
    CmdOrder OrderCommand | CmdSupplier SupplierCommand | CmdLot IngredientLotCommand
  | CmdBatch ProductionBatchCommand | CmdShipment ShipmentCommand | CmdSeed string string int

fun run_command :: "erp_command \<Rightarrow> erp_db world \<Rightarrow> erp_db world" where
  "run_command (CmdOrder c) w = snd (AcceptOrder c w)"
| "run_command (CmdSupplier c) w = snd (RegisterSupplier c w)"
| "run_command (CmdLot c) w = snd (ReceiveIngredientLot c w)"
| "run_command (CmdBatch c) w = snd (ProduceProductionBatch c w)"
| "run_command (CmdShipment c) w = snd (DispatchShipment c w)"
| "run_command (CmdSeed t i q) w = snd (seed_inventory t i q w)"

definition outbox_grows :: "erp_db \<Rightarrow> erp_db \<Rightarrow> bool" where
  "outbox_grows db db' \<longleftrightarrow> (\<exists>rs. outbox db' = outbox db @ rs \<and> list_all (\<lambda>r. ob_status r = Pending) rs)"

lemma outbox_grows_refl: "outbox_grows db db"
  by (simp add: outbox_grows_def)

lemma added_grows: "outbox_added env b db1 db' \<Longrightarrow> outbox db1 = outbox db \<Longrightarrow> outbox_grows db db'"
  by (auto simp: outbox_grows_def elim: outbox_addedE)

lemma effects_grow:
  "order_effect c1 r1 db db' \<Longrightarrow> outbox_grows db db'"
  "supplier_effect c2 r2 db db' \<Longrightarrow> outbox_grows db db'"
  "lot_effect c3 r3 db db' \<Longrightarrow> outbox_grows db db'"
  "batch_effect c4 r4 db db' \<Longrightarrow> outbox_grows db db'"
  "shipment_effect c5 r5 db db' \<Longrightarrow> outbox_grows db db'"
  "seed_effect c6 r6 db db' \<Longrightarrow> outbox_grows db db'"
  by (auto simp: order_effect_def supplier_effect_def lot_effect_def batch_effect_def shipment_effect_def
      elim!: added_grows) (auto simp: seed_effect_def outbox_grows_def)

definition source_ok :: "erp_db \<Rightarrow> bool" where
  "source_ok db \<longleftrightarrow> erp_inv db \<and> causal db"

lemma effects_ok:
  assumes "source_ok db"
  shows "order_effect c1 r1 db db' \<Longrightarrow> source_ok db'" "supplier_effect c2 r2 db db' \<Longrightarrow> source_ok db'"
    "lot_effect c3 r3 db db' \<Longrightarrow> source_ok db'" "batch_effect c4 r4 db db' \<Longrightarrow> source_ok db'"
    "shipment_effect c5 r5 db db' \<Longrightarrow> source_ok db'" "seed_effect c6 r6 db db' \<Longrightarrow> source_ok db'"
    "reset_effect c7 r7 db db' \<Longrightarrow> source_ok db'"
  using assms unfolding source_ok_def
  by (blast intro: erp_inv_order causal_order erp_inv_supplier causal_supplier erp_inv_lot causal_lot
      erp_inv_batch causal_batch erp_inv_shipment causal_shipment erp_inv_seed causal_seed
      erp_inv_reset causal_reset)+

text \<open>Every command keeps both invariants and only appends pending rows, whatever fails in it.\<close>

lemma run_command_ok:
  assumes ok: "source_ok (durable w)"
  shows "source_ok (durable (run_command c w)) \<and> outbox_grows (durable w) (durable (run_command c w))"
proof (cases c)
  case (CmdOrder d)
  with accept.change [of d w] ok show ?thesis
    by (cases "AcceptOrder d w") (auto intro: effects_ok effects_grow simp: outbox_grows_refl)
next
  case (CmdSupplier d)
  with register.change [of d w] ok show ?thesis
    by (cases "RegisterSupplier d w") (auto intro: effects_ok effects_grow simp: outbox_grows_refl)
next
  case (CmdLot d)
  with receive.change [of d w] ok show ?thesis
    by (cases "ReceiveIngredientLot d w") (auto intro: effects_ok effects_grow simp: outbox_grows_refl)
next
  case (CmdBatch d)
  with produce.change [of d w] ok show ?thesis
    by (cases "ProduceProductionBatch d w") (auto intro: effects_ok effects_grow simp: outbox_grows_refl)
next
  case (CmdShipment d)
  with dispatch.change [of d w] ok show ?thesis
    by (cases "DispatchShipment d w") (auto intro: effects_ok effects_grow simp: outbox_grows_refl)
next
  case (CmdSeed t i q)
  with seed.change [of "(t, i, q)" w] ok show ?thesis
    by (cases "seed_inventory t i q w") (auto intro: effects_ok effects_grow simp: outbox_grows_refl)
qed

text \<open>The state of the source side: the ERP database and the broker, and the records that relays have
  claimed and not yet handled, each with its owner. Relays may interleave in any way, stop at any
  point, and lose what they claimed. A reset of a tenant's source data is only run when no relay
  holds a record.\<close>

type_synonym source_system = "relay_state \<times> (string \<times> Record) list"

inductive source_step :: "source_system \<Rightarrow> source_system \<Rightarrow> bool" where
  command: "source_step (s, fl) (s\<lparr>source := run_command c (source s)\<rparr>, fl)"
| reset: "ResetSourceForTenant t (source s) = (x, w) \<Longrightarrow> source_step (s, []) (s\<lparr>source := w\<rparr>, [])"
| claim: "ClaimDue owner ttl limit (source s) = (Inr recs, w) \<Longrightarrow>
    source_step (s, fl) (s\<lparr>source := w\<rparr>, fl @ map (Pair owner) recs)"
| claim_error: "ClaimDue owner ttl limit (source s) = (Inl e, w) \<Longrightarrow> source_step (s, fl) (s\<lparr>source := w\<rparr>, fl)"
| publish: "\<lbrakk> (owner, rec) \<in> set fl; publishOne owner rec s = (x, s') \<rbrakk> \<Longrightarrow>
    source_step (s, fl) (s', remove1 (owner, rec) fl)"
| release: "ReleaseQuarantined t i (source s) = (x, w) \<Longrightarrow> source_step (s, fl) (s\<lparr>source := w\<rparr>, fl)"
| crash: "set fl' \<subseteq> set fl \<Longrightarrow> source_step (s, fl) (s, fl')"

inductive source_reach :: "source_system \<Rightarrow> bool" where
  start: "\<lbrakk> durable (source s) = empty_erp; broker_log s = [] \<rbrakk> \<Longrightarrow> source_reach (s, [])"
| step: "\<lbrakk> source_reach a; source_step a b \<rbrakk> \<Longrightarrow> source_reach b"

inductive_cases source_stepE: "source_step a b"

definition source_inv :: "source_system \<Rightarrow> bool" where
  "source_inv a \<longleftrightarrow>
     (case a of (s, fl) \<Rightarrow>
        let db = durable (source s) in
        source_ok db \<and>
        (\<forall>r \<in> set (outbox db). ob_status r = Published \<longrightarrow> logged (broker_log s) r) \<and>
        (\<forall>(owner, rec) \<in> set fl. \<exists>r \<in> set (outbox db). ob_ident r = rec_ident rec))"

lemma source_inv_start: "durable (source s) = empty_erp \<Longrightarrow> source_inv (s, [])"
  by (simp add: source_inv_def source_ok_def erp_inv_empty causal_empty) (simp add: empty_erp_def)

lemma source_inv_distinct: "source_inv (s, fl) \<Longrightarrow> distinct (map ob_event (outbox (durable (source s))))"
  by (simp add: source_inv_def Let_def source_ok_def erp_inv_def)

lemma source_inv_grow:
  assumes inv: "source_inv (s, fl)" and ok: "source_ok (durable w)" and g: "outbox_grows (durable (source s)) (durable w)"
  shows "source_inv (s\<lparr>source := w\<rparr>, fl)"
proof -
  from g obtain rs where "outbox (durable w) = outbox (durable (source s)) @ rs" "list_all (\<lambda>r. ob_status r = Pending) rs"
    by (auto simp: outbox_grows_def)
  with inv ok show ?thesis by (auto simp: source_inv_def list_all_iff Let_def)
qed

lemma moves_ok:
  assumes "outbox_moves db db'" "source_ok db"
  shows "source_ok db'"
proof -
  have "db' = db\<lparr>outbox := outbox db'\<rparr>" "map ob_ident (outbox db') = map ob_ident (outbox db)"
    using assms(1) moves_ident unfolding outbox_moves_def by blast+
  then show ?thesis
    using assms(2) erp_inv_ident [of db db'] causal_ident [of db db'] unfolding source_ok_def
    by (metis erp_db.select_convs(1,6) erp_db.surjective erp_db.update_convs(7))
qed

text \<open>A step that moves rows keeps the invariant if the rows it published are in the log.\<close>

lemma source_inv_moves:
  assumes inv: "source_inv (s, fl)" and m: "outbox_moves (durable (source s)) (durable (source s'))"
    and log: "set (broker_log s) \<subseteq> set (broker_log s')"
    and pub: "\<And>r. \<lbrakk> r \<in> set (outbox (durable (source s'))); ob_status r = Published \<rbrakk> \<Longrightarrow>
      r \<in> set (outbox (durable (source s))) \<or> logged (broker_log s') r"
    and fl: "\<And>owner rec. (owner, rec) \<in> set fl' \<Longrightarrow> (owner, rec) \<in> set fl \<or>
      (\<exists>r \<in> set (outbox (durable (source s))). ob_ident r = rec_ident rec)"
  shows "source_inv (s', fl')"
proof -
  let ?db = "durable (source s)" and ?db' = "durable (source s')"
  have ids: "map ob_ident (outbox ?db') = map ob_ident (outbox ?db)"
    using m moves_ident by (auto simp: outbox_moves_def)
  have held: "\<exists>r \<in> set (outbox ?db'). ob_ident r = rec_ident rec" if "(owner, rec) \<in> set fl'" for owner rec
  proof -
    have "\<exists>r \<in> set (outbox ?db). ob_ident r = rec_ident rec"
      using fl [OF that] inv unfolding source_inv_def Let_def by auto
    then show ?thesis using set_ident [OF ids [symmetric]] by metis
  qed
  have "logged (broker_log s') r" if "r \<in> set (outbox ?db')" "ob_status r = Published" for r
    using pub [OF that] inv that(2) log unfolding source_inv_def Let_def logged_def by auto
  with held moves_ok [OF m] inv show ?thesis unfolding source_inv_def Let_def by auto
qed

lemma claim_in_outbox:
  assumes "ClaimDue owner ttl limit w = (Inr recs, w')" "distinct (map ob_event (outbox (durable w)))" "rec \<in> set recs"
  shows "\<exists>r \<in> set (outbox (durable w)). ob_ident r = rec_ident rec"
  using assms(1,2)
proof (rule ClaimDue_cases)
  fix now lim ms recs'
  assume m: "map rec_ident recs' = map ob_ident (due_rows lim now (durable w))"
    and "Inr recs = Inr recs' \<or> (\<exists>e. Inr recs = Inl e)"
  with assms(3) have "rec_ident rec \<in> ob_ident ` set (due_rows lim now (durable w))"
    by (metis Inl_Inr_False image_eqI old.sum.inject(2) set_map)
  then show ?thesis using due_rows_set by force
qed simp

lemma claim_unpublished:
  assumes "ClaimDue owner ttl limit w = (x, w')" "distinct (map ob_event (outbox (durable w)))"
    and "r \<in> set (outbox (durable w'))" "ob_status r = Published"
  shows "r \<in> set (outbox (durable w))"
  using assms(1,2)
  by (rule ClaimDue_cases) (use assms(3,4) in \<open>auto simp: claim_ids_def claimed_def split: if_splits\<close>)

lemma source_inv_publish:
  assumes inv: "source_inv (s, fl)" and mem: "(owner, rec) \<in> set fl" and p: "publishOne owner rec s = (x, s')"
  shows "source_inv (s', remove1 (owner, rec) fl)"
proof -
  note d = source_inv_distinct [OF inv]
  have m: "outbox_moves (durable (source s)) (durable (source s'))" by (rule publishOne_moves [OF p d])
  then have ids: "map ob_ident (outbox (durable (source s'))) = map ob_ident (outbox (durable (source s)))"
    using moves_ident by (auto simp: outbox_moves_def)
  obtain r where r: "r \<in> set (outbox (durable (source s)))" "ob_ident r = rec_ident rec"
    using inv mem unfolding source_inv_def Let_def by auto
  have same: "ob_ident y = rec_ident rec" if y: "y \<in> set (outbox (durable (source s')))" "ob_event y = rec_EventID rec" for y
  proof -
    obtain z where z: "z \<in> set (outbox (durable (source s)))" "ob_ident z = ob_ident y"
      using set_ident [OF ids y(1)] by blast
    then have "ob_event z = ob_event r" using y(2) r(2) by (auto simp: ob_ident_def rec_ident_def)
    then show ?thesis using event_unique [OF d z(1) r(1)] z(2) r(2) by simp
  qed
  show ?thesis
    by (rule source_inv_moves [OF inv m publishOne_log [OF p]])
      (use publishOne_published [OF p _ _ same] in \<open>auto dest: notin_set_remove1 set_remove1_subset [THEN subsetD]\<close>)
qed

lemma source_inv_step: "source_step a b \<Longrightarrow> source_inv a \<Longrightarrow> source_inv b"
proof (induction rule: source_step.induct)
  case (command s fl c)
  then have "source_ok (durable (source s))" by (simp add: source_inv_def Let_def)
  from run_command_ok [OF this, of c] source_inv_grow [OF command] show ?case by blast
next
  case (reset t s x w)
  then have "source_ok (durable w)"
    using reset.change [OF reset.hyps] effects_ok(7) by (auto simp: source_inv_def Let_def)
  moreover have "set (outbox (durable w)) \<subseteq> set (outbox (durable (source s)))"
    using reset.change [OF reset.hyps] by (auto simp: reset_effect_def keep_tenants_def)
  ultimately show ?case using reset.prems by (auto simp: source_inv_def Let_def)
next
  case (claim owner ttl limit s recs w fl)
  note d = source_inv_distinct [OF claim.prems]
  show ?case
    by (rule source_inv_moves [OF claim.prems])
      (use claiming.moves [OF d claim.hyps] claim_unpublished [OF claim.hyps d] claim_in_outbox [OF claim.hyps d] in auto)
next
  case (claim_error owner ttl limit s e w fl)
  note d = source_inv_distinct [OF claim_error.prems]
  show ?case
    by (rule source_inv_moves [OF claim_error.prems])
      (use claiming.moves [OF d claim_error.hyps] claim_unpublished [OF claim_error.hyps d] in auto)
next
  case (publish owner rec fl s x s')
  then show ?case using source_inv_publish by blast
next
  case (release t i s x w fl)
  note d = source_inv_distinct [OF release.prems]
  show ?case
    by (rule source_inv_moves [OF release.prems])
      (use released.moves [OF d release.hyps] ReleaseQuarantined_rows [OF release.hyps] in fastforce)+
next
  case (crash fl' fl s)
  then show ?case by (auto simp: source_inv_def Let_def)
qed

lemma source_reach_inv: "source_reach a \<Longrightarrow> source_inv a"
  by (induction rule: source_reach.induct) (auto intro: source_inv_start source_inv_step)

section \<open>Without faults a drain publishes what it claims\<close>

definition calm :: "'db world \<Rightarrow> bool" where
  "calm w \<longleftrightarrow> stmt_faults w = [] \<and> commits w = []"

definition next_now :: "'db world \<Rightarrow> int" where
  "next_now w = clock w + int (fst (pop 0 (ticks w)))"

lemma pop_Nil [simp]: "pop d [] = (d, [])"
  by (simp add: pop_def)

lemma tx_stmt_calm [simp]:
  "list_all pg_text_ok ps \<Longrightarrow> f db = Inr (x, db') \<Longrightarrow> tx_stmt err ps f db [] = (Inr x, db', [])"
  by (simp add: tx_stmt_def)

lemma transact_calm:
  assumes "calm w" "body (next_now w) (durable w) [] = (Inr x, db', [])"
  shows "\<exists>w'. transact be ce body w = (Inr x, w') \<and> calm w' \<and> durable w' = db' \<and> next_now w \<le> clock w'"
  using assms by (auto simp: transact_no_faults calm_def next_now_def Let_def)

lemma exec_auto_calm:
  assumes "calm w" "list_all pg_text_ok ps" "f (next_now w) (durable w) = Inr (x, db')"
  shows "\<exists>w'. exec_auto err ps f w = (Inr x, w') \<and> calm w' \<and> durable w' = db'"
  unfolding exec_auto_def using transact_calm [OF assms(1)] assms(2,3) by (metis tx_stmt_calm)

lemma uuid_class_nonzero: "\<not> uuid_class i (CHR 0x00)"
  by (simp add: uuid_class_def is_hex_any_def is_digit_def is_variant_any_def)

lemma uuid_storable: "valid_uuid v \<Longrightarrow> pg_text_ok v"
  by (auto simp: pg_text_ok_def valid_uuid_def match_uuid in_set_conv_nth) (metis uuid_class_nonzero)

definition published :: "outbox_row \<Rightarrow> outbox_row" where
  "published r = r\<lparr>ob_status := Published, ob_owner := None, ob_expires := None, ob_error := None\<rparr>"

definition publish_ids :: "string set \<Rightarrow> erp_db \<Rightarrow> erp_db" where
  "publish_ids ids db = db\<lparr>outbox := map (\<lambda>r. if ob_event r \<in> ids then published r else r) (outbox db)\<rparr>"

lemma filter_unique:
  assumes "distinct (map f xs)" "x \<in> set xs" "P x" and P: "\<And>y. y \<in> set xs \<Longrightarrow> P y \<Longrightarrow> f y = f x"
  shows "filter P xs = [x]"
proof -
  have "set (filter P xs) = {x}"
    using assms(1-3) inj_onD [of f "set xs"] P by (auto simp: distinct_map)
  moreover have "length (filter P xs) = 1"
    using calculation assms(1) by (metis One_nat_def card.empty card.insert distinct_card distinct_filter distinct_map
        empty_iff finite.emptyI)
  ultimately show ?thesis by (cases "filter P xs") (auto simp del: set_filter)
qed

lemma MarkPublished_calm:
  assumes w: "calm w" and d: "distinct (map ob_event (outbox (durable w)))"
    and r: "r \<in> set (outbox (durable w))" "leased i owner r" and t: "pg_text_ok i" "pg_text_ok owner"
  shows "\<exists>w'. MarkPublished i owner w = (Inr (), w') \<and> calm w' \<and> durable w' = publish_ids {i} (durable w)"
proof -
  have "filter (leased i owner) (outbox (durable w)) = [r]"
    by (rule filter_unique [OF d r(1), of "leased i owner"]) (use r in \<open>auto simp: leased_def\<close>)
  moreover have "map (\<lambda>x. if leased i owner x then published x else x) (outbox (durable w)) =
      map (\<lambda>x. if ob_event x \<in> {i} then published x else x) (outbox (durable w))"
    using event_unique [OF d _ r(1)] r(2) by (auto simp: leased_def)
  ultimately have "update_outbox (leased i owner) published (durable w) = Inr (1, publish_ids {i} (durable w))"
    by (simp add: update_outbox_def publish_ids_def)
  then show ?thesis
    using exec_auto_calm [OF w, of "[i, owner]" "\<lambda>now. update_outbox (leased i owner) published" 1
        "publish_ids {i} (durable w)" RelayDB] t
    by (auto simp: MarkPublished_def published_def [abs_def] expect_one_def)
qed

definition message :: "Record \<Rightarrow> string \<times> string \<times> string" where
  "message rec = (Topic, AggregateKey (rec_TenantID rec) (rec_AggregateType rec) (rec_AggregateID rec), rec_EventBytes rec)"

text \<open>A claimed record as the drain finds it: its row is leased to the owner and sound.\<close>

definition held :: "string \<Rightarrow> erp_db \<Rightarrow> Record \<Rightarrow> bool" where
  "held owner db rec \<longleftrightarrow>
     (\<exists>r \<in> set (outbox db). ob_ident r = rec_ident rec \<and> leased (rec_EventID rec) owner r \<and> row_ok r)"

lemma row_ok_storable: "row_ok r \<Longrightarrow> pg_text_ok (ob_event r)"
  by (auto simp: row_ok_def valid_envelope_def intro!: uuid_storable dest!: CanonicalBytes_Inr)

lemma publishOne_calm:
  assumes s: "calm (source s)" "broker_replies s = []" and d: "distinct (map ob_event (outbox (durable (source s))))"
    and h: "held owner (durable (source s)) rec" and t: "pg_text_ok owner"
  shows "\<exists>s'. publishOne owner rec s = (Inr outcomePublished, s') \<and> calm (source s') \<and> broker_replies s' = [] \<and>
    broker_log s' = broker_log s @ [message rec] \<and>
    durable (source s') = publish_ids {rec_EventID rec} (durable (source s))"
proof -
  from h obtain r where r: "r \<in> set (outbox (durable (source s)))" "ob_ident r = rec_ident rec"
    "leased (rec_EventID rec) owner r" "row_ok r" by (auto simp: held_def)
  then obtain env where env: "Parse (rec_EventBytes rec) = Inr env" "TenantID env = rec_TenantID rec"
    "AggregateType env = rec_AggregateType rec" "AggregateID env = rec_AggregateID rec"
    by (auto simp: row_ok_def row_envelope_def ob_ident_def rec_ident_def split: sum.splits)
  have "pg_text_ok (rec_EventID rec)"
    using row_ok_storable [OF r(4)] r(2) by (simp add: ob_ident_def rec_ident_def)
  then obtain w where w: "MarkPublished (rec_EventID rec) owner (source s) = (Inr (), w)" "calm w"
    "durable w = publish_ids {rec_EventID rec} (durable (source s))"
    using MarkPublished_calm [OF s(1) d r(1,3) _ t] by blast
  then show ?thesis using env s(2) by (simp add: publishOne_def Publish_def on_source_def message_def)
qed

lemma publish_ids_comp: "publish_ids ids (publish_ids {i} db) = publish_ids (insert i ids) db"
  by (auto simp: publish_ids_def published_def)

lemma publish_ids_event: "map ob_event (outbox (publish_ids ids db)) = map ob_event (outbox db)"
  by (auto simp: publish_ids_def published_def)

lemma held_publish:
  assumes "held owner db rec" "rec_EventID rec \<noteq> i"
  shows "held owner (publish_ids {i} db) rec"
proof -
  from assms obtain r where "r \<in> set (outbox db)" "ob_ident r = rec_ident rec" "leased (rec_EventID rec) owner r" "row_ok r"
    by (auto simp: held_def)
  moreover from this assms(2) have "r \<in> set (outbox (publish_ids {i} db))"
    by (auto simp: publish_ids_def ob_ident_def rec_ident_def image_iff intro!: bexI [of _ r])
  ultimately show ?thesis by (auto simp: held_def)
qed

lemma drain_records_calm:
  "\<lbrakk> calm (source s); broker_replies s = []; distinct (map ob_event (outbox (durable (source s))));
     list_all (held owner (durable (source s))) recs; distinct (map rec_EventID recs); pg_text_ok owner \<rbrakk> \<Longrightarrow>
   \<exists>s'. drain_records owner recs out s = ((out\<lparr>dr_Published := dr_Published out + length recs\<rparr>, None), s') \<and>
     broker_log s' = broker_log s @ map message recs \<and>
     durable (source s') = publish_ids (set (map rec_EventID recs)) (durable (source s))"
proof (induction recs arbitrary: s out)
  case Nil
  then show ?case by (simp add: publish_ids_def)
next
  case (Cons rec recs)
  from Cons.prems obtain s1 where p: "publishOne owner rec s = (Inr outcomePublished, s1)"
    and s1: "calm (source s1)" "broker_replies s1 = []" "broker_log s1 = broker_log s @ [message rec]"
      "durable (source s1) = publish_ids {rec_EventID rec} (durable (source s))"
    using publishOne_calm [of s owner rec] by auto
  have "distinct (map ob_event (outbox (durable (source s1))))" using Cons.prems(3) by (simp add: s1(4) publish_ids_event)
  moreover have "list_all (held owner (durable (source s1))) recs"
    using Cons.prems(4,5) by (auto simp: s1(4) list_all_iff image_iff intro!: held_publish)
  ultimately obtain s2 where
    d: "drain_records owner recs (count_outcome outcomePublished out) s1 =
      (((count_outcome outcomePublished out)\<lparr>dr_Published := dr_Published (count_outcome outcomePublished out) + length recs\<rparr>, None), s2)"
    and s2: "broker_log s2 = broker_log s1 @ map message recs"
      "durable (source s2) = publish_ids (set (map rec_EventID recs)) (durable (source s1))"
    using Cons.IH [OF s1(1,2), of "count_outcome outcomePublished out"] Cons.prems(5,6) by auto
  show ?case using d by (simp add: p s2 s1 publish_ids_comp count_outcome_def)
qed

definition claimable :: "erp_db \<Rightarrow> string \<Rightarrow> bool" where
  "claimable db i \<longleftrightarrow> (\<exists>r. find (\<lambda>r. ob_event r = i) (outbox db) = Some r \<and> ob_attempts r + 1 < 2 ^ 31)"

lemma find_map_other:
  "i \<noteq> j \<Longrightarrow> find (\<lambda>r. ob_event r = j) (map (\<lambda>r. if ob_event r = i then claimed owner ms now r else r) rs) =
   find (\<lambda>r. ob_event r = j) rs"
  by (induction rs) (auto simp: claimed_def)

lemma claimable_other: "i \<noteq> j \<Longrightarrow> claimable (claim_ids {i} owner ms now db) j = claimable db j"
  by (simp add: claimable_def claim_ids_def find_map_other)

lemma claim_row_calm: "claimable db i \<Longrightarrow> \<exists>x. claim_row i owner ms now db = Inr (x, claim_ids {i} owner ms now db)"
  by (auto simp: claimable_def claim_row_def claim_ids_def claimed_def)

lemma claim_records_calm:
  "\<lbrakk> list_all (\<lambda>rec. claimable db (rec_EventID rec) \<and> pg_text_ok (rec_EventID rec)) recs;
     distinct (map rec_EventID recs); pg_text_ok owner \<rbrakk> \<Longrightarrow>
   \<exists>out db'. claim_records owner ms now recs db [] = (Inr out, db', [])"
proof (induction recs arbitrary: db)
  case Nil
  then show ?case by (simp add: tx_return_def)
next
  case (Cons rec recs)
  let ?db = "claim_ids {rec_EventID rec} owner ms now db"
  obtain x where x: "claim_row (rec_EventID rec) owner ms now db = Inr (x, ?db)"
    using Cons.prems(1) claim_row_calm by force
  have "\<exists>out db'. claim_records owner ms now recs ?db [] = (Inr out, db', [])"
    using Cons.prems by (intro Cons.IH) (auto simp: list_all_iff image_iff intro!: claimable_other [THEN iffD2])
  then show ?case
    using Cons.prems x by (auto simp: tx_bind_def tx_return_def split: prod.splits)
qed

lemma find_event:
  "\<lbrakk> distinct (map ob_event rs); r \<in> set rs \<rbrakk> \<Longrightarrow> find (\<lambda>x. ob_event x = ob_event r) rs = Some r"
  by (induction rs) (auto simp: image_iff)

lemma ClaimDue_calm:
  fixes limit ttl :: int
  assumes w: "calm w" and o: "owner \<noteq> []" "pg_text_ok owner" and inv: "erp_inv (durable w)"
    and att: "\<And>r. r \<in> set (outbox (durable w)) \<Longrightarrow> ob_attempts r + 1 < 2 ^ 31"
  defines "rows \<equiv> due_rows (max 1 limit) (next_now w) (durable w)"
  shows "\<exists>recs w' ms. ClaimDue owner ttl limit w = (Inr recs, w') \<and> calm w' \<and> map rec_ident recs = map ob_ident rows \<and>
    durable w' = claim_ids (ob_event ` set rows) owner ms (next_now w) (durable w)"
proof -
  let ?ttl = "if ttl \<le> 0 then DefaultLeaseTTL else ttl" and ?db = "durable w"
  have d: "distinct (map ob_event (outbox ?db))" using inv by (simp add: erp_inv_def)
  have ok: "claimable ?db (ob_event r) \<and> pg_text_ok (ob_event r)" if "r \<in> set rows" for r
    using due_rows_set [OF that [unfolded rows_def]] find_event [OF d] att inv
    by (auto simp: claimable_def erp_inv_def list_all_iff intro!: row_ok_storable)
  have "\<exists>out db'. claim_records owner (?ttl div 1000000) (next_now w) (map scanRecord rows) ?db [] = (Inr out, db', [])"
    using ok due_rows_distinct [OF d] o(2)
    by (intro claim_records_calm) (auto simp: list_all_iff scanRecord_def comp_def rows_def)
  then obtain out db' where c: "ClaimDue_tx owner ?ttl (max 1 limit) (next_now w) ?db [] = (Inr out, db', [])"
    by (auto simp: ClaimDue_tx_def tx_bind_def tx_query_def rows_def)
  have lim: "(if limit < 1 then 1 else limit) = max 1 limit" by simp
  obtain w' where "ClaimDue owner ttl limit w = (Inr out, w')" "calm w'" "durable w' = db'"
    using transact_calm [where body = "ClaimDue_tx owner ?ttl (max 1 limit)" and be = RelayDB and ce = RelayDB, OF w c] o(1)
    by (auto simp: ClaimDue_def lim)
  with ClaimDue_tx_Inr [OF c d] show ?thesis by (auto simp: rows_def)
qed

lemma held_claimed:
  assumes inv: "erp_inv db" and R: "R \<subseteq> set (outbox db)" and r: "r \<in> R" "rec_ident rec = ob_ident r"
  shows "held owner (claim_ids (ob_event ` R) owner ms now db) rec"
proof -
  let ?r = "claimed owner ms now r"
  have "?r \<in> set (outbox (claim_ids (ob_event ` R) owner ms now db))"
    using R r(1) by (auto simp: claim_ids_def image_iff intro!: bexI [of _ r])
  moreover have "ob_ident ?r = ob_ident r" by (simp add: claimed_def ob_ident_def)
  moreover have "row_ok ?r"
    using ident_congs(2) [OF calculation(2)] inv R r(1) by (auto simp: erp_inv_def list_all_iff)
  moreover have "leased (rec_EventID rec) owner ?r"
    using r(2) by (simp add: leased_def claimed_def rec_ident_def ob_ident_def)
  ultimately show ?thesis using r(2) by (auto simp: held_def)
qed

lemma claim_ids_event: "map ob_event (outbox (claim_ids ids owner ms now db)) = map ob_event (outbox db)"
  by (auto simp: claim_ids_def claimed_def)

definition row_message :: "outbox_row \<Rightarrow> string \<times> string \<times> string" where
  "row_message r = (Topic, AggregateKey (ob_tenant r) (ob_atype r) (ob_aid r), ob_bytes r)"

lemma DrainOnce_calm:
  fixes limit ttl :: int
  assumes s: "calm (source s)" "broker_replies s = []" and o: "owner \<noteq> []" "pg_text_ok owner"
    and inv: "erp_inv (durable (source s))"
    and att: "\<And>r. r \<in> set (outbox (durable (source s))) \<Longrightarrow> ob_attempts r + 1 < 2 ^ 31"
  defines "rows \<equiv> due_rows (max 1 limit) (next_now (source s)) (durable (source s))"
  shows "\<exists>s'. DrainOnce owner ttl limit s =
      ((empty_drain\<lparr>dr_Claimed := length rows, dr_Published := length rows\<rparr>, None), s') \<and>
    broker_log s' = broker_log s @ map row_message rows \<and>
    (\<forall>r' \<in> set (outbox (durable (source s'))). ob_event r' \<in> ob_event ` set rows \<longrightarrow> ob_status r' = Published)"
proof -
  obtain recs w ms where c: "ClaimDue owner ttl limit (source s) = (Inr recs, w)" "calm w"
    and ids: "map rec_ident recs = map ob_ident rows"
    and db: "durable w = claim_ids (ob_event ` set rows) owner ms (next_now (source s)) (durable (source s))"
    using ClaimDue_calm [OF s(1) o inv att] unfolding rows_def by blast
  have d: "distinct (map ob_event (outbox (durable (source s))))" using inv by (simp add: erp_inv_def)
  have "map fst (map rec_ident recs) = map fst (map ob_ident rows)" by (simp only: ids)
  then have ev: "map rec_EventID recs = map ob_event rows" by (simp add: rec_ident_def ob_ident_def comp_def)
  have h: "list_all (held owner (durable w)) recs"
  proof (unfold list_all_iff, rule ballI)
    fix rec assume "rec \<in> set recs"
    then have "rec_ident rec \<in> set (map ob_ident rows)" by (metis ids image_eqI set_map)
    then obtain r where "r \<in> set rows" "rec_ident rec = ob_ident r" by auto
    then show "held owner (durable w) rec"
      unfolding db by (intro held_claimed [OF inv]) (auto simp: rows_def dest: due_rows_set)
  qed
  let ?s = "s\<lparr>source := w\<rparr>" and ?out = "empty_drain\<lparr>dr_Claimed := length recs\<rparr>"
  obtain s' where s': "drain_records owner recs ?out ?s = ((?out\<lparr>dr_Published := dr_Published ?out + length recs\<rparr>, None), s')"
    "broker_log s' = broker_log s @ map message recs"
    "durable (source s') = publish_ids (set (map ob_event rows)) (durable w)"
    using drain_records_calm [of ?s owner recs ?out] c(2) s(2) d h ev due_rows_distinct [OF d] o(2)
    by (auto simp: db claim_ids_event rows_def)
  have "length recs = length rows" using ids map_eq_imp_length_eq by blast
  moreover have "map message recs = map row_message rows"
  proof -
    have "map (\<lambda>(e, t, ty, i, v, h, b). (Topic, AggregateKey t ty i, b)) (map rec_ident recs) =
        map (\<lambda>(e, t, ty, i, v, h, b). (Topic, AggregateKey t ty i, b)) (map ob_ident rows)" by (simp only: ids)
    then show ?thesis by (simp add: rec_ident_def ob_ident_def message_def [abs_def] row_message_def [abs_def] comp_def)
  qed
  ultimately show ?thesis
    using c s' by (auto simp: DrainOnce_def on_source_def publish_ids_def published_def empty_drain_def)
qed

section \<open>Without faults a valid order is accepted\<close>

lemma parent_calm:
  "\<lbrakk> parent_event db t ty i e; list_all pg_text_ok [t, ty, i] \<rbrakk> \<Longrightarrow> parentOutboxEventID t ty i db [] = (Inr e, db, [])"
  by (auto simp: parent_event_def parentOutboxEventID_def tx_bind_def tx_query_def tx_return_def)

lemma causation_calm:
  assumes "order_caused cmd db" "pg_text_ok (oc_TenantID cmd)" "pg_text_ok (oc_OrderID cmd)"
    and "\<And>s. s \<in> set (shipments db) \<Longrightarrow> pg_text_ok (sh_shipment s)"
  shows "requireOrderShipmentCausation cmd db [] = (Inr (), db, [])"
proof (cases "find (\<lambda>r. sh_tenant r = oc_TenantID cmd \<and> sh_order r = oc_OrderID cmd) (shipments db)")
  case None
  with assms show ?thesis
    by (simp add: requireOrderShipmentCausation_def order_caused_def tx_bind_def tx_query_def tx_return_def)
next
  case (Some s)
  then have "s \<in> set (shipments db)" by (auto simp: find_Some_iff in_set_conv_nth)
  moreover have "pg_text_ok AggregateTypeShipment" by (simp add: pg_text_ok_def aggregate_type_defs)
  moreover from Some assms(1) obtain e where "oc_CausationID cmd = Some e"
    "parent_event db (oc_TenantID cmd) AggregateTypeShipment (sh_shipment s) e"
    by (auto simp: order_caused_def)
  ultimately show ?thesis using Some assms
    by (simp add: requireOrderShipmentCausation_def tx_bind_def tx_query_def tx_return_def parent_calm requireCausation_def)
qed

lemma next_version_fresh:
  assumes "item_ok db it"
  shows "(ii_tenant it, AggregateTypeInventoryItem, ii_item it, ii_version it + 1) \<notin> row_key ` set (outbox db)"
proof
  assume "(ii_tenant it, AggregateTypeInventoryItem, ii_item it, ii_version it + 1) \<in> row_key ` set (outbox db)"
  then have "ii_version it + 1 \<in> set (map ob_version (item_rows db it))"
    by (auto simp: row_key_def item_rows_def aggregate_rows_def)
  moreover have "map ob_version (item_rows db it) = [1..ii_version it]" using assms by (simp add: item_ok_def)
  ultimately show False by simp
qed

lemma sha256_hex_storable: "pg_text_ok (sha256_hex b)"
proof -
  have "ascii (sha256_hex b)"
    using hex_encode_chars [of _ "sha256 b"] by (force simp: sha256_hex_def ascii_def list_all_iff)
  moreover have "CHR 0x00 \<notin> set (sha256_hex b)"
    using hex_encode_chars [of "CHR 0x00" "sha256 b"] by (auto simp: sha256_hex_def)
  ultimately show ?thesis by (simp add: pg_text_ok_def valid_utf8_ascii)
qed

lemma insertPendingOutbox_calm:
  assumes "valid_envelope env" "CanonicalBytes env = Inr b"
    and "list_all pg_text_ok [EventID env, TenantID env, AggregateType env, AggregateID env]"
    and "EventID env \<notin> ob_event ` set (outbox db)"
    and "(TenantID env, AggregateType env, AggregateID env, AggregateVersion env) \<notin> row_key ` set (outbox db)"
  shows "insertPendingOutbox now env rec db [] =
    (Inr (b, sha256_hex b), db\<lparr>outbox := outbox db @ [new_outbox_row env b (sha256_hex b) rec now]\<rparr>, [])"
proof -
  have "insert_outbox (new_outbox_row env b (sha256_hex b) rec now) db =
      Inr ((), db\<lparr>outbox := outbox db @ [new_outbox_row env b (sha256_hex b) rec now]\<rparr>)"
    unfolding insert_outbox_Inr using assms(1,4,5)
    by (auto simp: new_outbox_row_def valid_envelope_def row_key_def image_iff)
  with assms show ?thesis
    by (simp add: insertPendingOutbox_def ContentHash_def Validate_iff [THEN iffD2] tx_bind_def tx_return_def sha256_hex_storable)
qed

lemma inventory_type_storable: "pg_text_ok AggregateTypeInventoryItem"
  by (simp add: pg_text_ok_def aggregate_type_defs)

lemma AcceptOrder_calm:
  assumes w: "calm w" and cmd: "validateCommand cmd = None" and inv: "erp_inv (durable w)"
    and it: "find_item (durable w) (oc_TenantID cmd) (oc_ItemID cmd) = Some it" and q: "oc_Quantity cmd \<le> ii_quantity it"
    and caused: "order_caused cmd (durable w)"
    and env: "valid_envelope (order_envelope cmd (ii_quantity it) (ii_quantity it - oc_Quantity cmd) (ii_version it + 1))"
    and fresh: "oc_OrderID cmd \<notin> or_order ` set (orders (durable w))" "oc_EventID cmd \<notin> ob_event ` set (outbox (durable w))"
    and txts: "list_all pg_text_ok [oc_ItemID cmd, oc_TraceID cmd]"
      "\<And>s. s \<in> set (shipments (durable w)) \<Longrightarrow> pg_text_ok (sh_shipment s)"
  shows "\<exists>res w'. AcceptOrder cmd w = (Inr res, w') \<and> calm w'"
proof -
  let ?db = "durable w" and ?env = "order_envelope cmd (ii_quantity it) (ii_quantity it - oc_Quantity cmd) (ii_version it + 1)"
  have mem: "it \<in> set (items ?db)" "item_key it = (oc_TenantID cmd, oc_ItemID cmd)" using find_item_Some [OF it] by auto
  then have ok: "item_ok ?db it" using inv by (simp add: erp_inv_def list_all_iff)
  have texts: "pg_text_ok (oc_TenantID cmd)" "pg_text_ok (oc_EventID cmd)" "pg_text_ok (oc_OrderID cmd)" "pg_text_ok (oc_CorrelationID cmd)"
    using env by (auto simp: order_envelope_def valid_envelope_def intro!: uuid_storable)
  have v: "wrap64 (ii_version it + 1) = ii_version it + 1" using ok by (simp add: item_ok_def wrap64_next)
  have qw: "wrap64 (ii_quantity it - oc_Quantity cmd) = ii_quantity it - oc_Quantity cmd"
    using env order_envelope_valid(4,5) [OF env] by (intro wrap64_id) (auto simp: order_envelope_def valid_envelope_def int64_def maxSafeInt_def)
  obtain b where b: "CanonicalBytes ?env = Inr b" using CanonicalBytes_total [OF env] by blast
  obtain occ rec where times: "parseTimeZ (oc_OccurredAt cmd) = Some occ" "parseTimeZ (oc_RecordedAt cmd) = Some rec"
    using cmd by (auto simp: validateCommand_def checks_def err_simps split: if_splits)
  let ?db1 = "?db\<lparr>items := map (\<lambda>r. if ii_tenant r = oc_TenantID cmd \<and> ii_item r = oc_ItemID cmd
      then r\<lparr>ii_quantity := ii_quantity it - oc_Quantity cmd, ii_version := ii_version it + 1\<rparr> else r) (items ?db)\<rparr>"
  let ?db2 = "?db1\<lparr>orders := orders ?db @ [new_order cmd occ (next_now w)]\<rparr>"
  have u: "update_inventory (oc_TenantID cmd) (oc_ItemID cmd) (ii_quantity it - oc_Quantity cmd) (ii_version it + 1) ?db =
      Inr ((), ?db1)"
    using q ok by (simp add: update_inventory_def item_ok_def)
  have o: "insert_order (new_order cmd occ (next_now w)) ?db1 = Inr ((), ?db2)"
    using fresh(1) order_envelope_valid(5) [OF env] by (force simp: insert_order_def new_order_def list_ex_iff)
  have "row_key ` set (outbox ?db2) = row_key ` set (outbox ?db)" by simp
  then have i: "\<exists>db'. insertPendingOutbox (next_now w) ?env rec ?db2 [] = (Inr (b, sha256_hex b), db', [])"
    using insertPendingOutbox_calm [OF env b, of ?db2 "next_now w" rec] texts txts(1) fresh(2) inventory_type_storable
      next_version_fresh [OF ok] mem(2) by (simp add: order_envelope_def item_key_def)
  have "\<exists>res db'. AcceptOrder_tx cmd (next_now w) ?db [] = (Inr res, db', [])"
    using it q mem(2) u o i texts txts(1) times causation_calm [OF caused texts(1,3) txts(2)] order_envelope_valid(2,3) [OF env]
    by (auto simp: AcceptOrder_tx_def tx_bind_def tx_query_def v qw Let_def time_or_mismatch_def tx_return_def item_key_def)
  then show ?thesis
    using transact_calm [where body = "AcceptOrder_tx cmd" and be = ErpDB and ce = ErpDB, OF w] cmd
    by (auto simp: AcceptOrder_def)
qed

section \<open>A concrete run\<close>

definition sample_order :: OrderCommand where
  "sample_order =
     \<lparr>oc_EventID = ''11111111-1111-4111-8111-111111111111'', oc_TenantID = ''22222222-2222-4222-9222-2222222222ab'',
      oc_OrderID = ''44444444-4444-4444-B444-444444444444'', oc_ItemID = ''item-1'', oc_Quantity = 3,
      oc_OccurredAt = ''2026-01-02T03:04:05Z'', oc_RecordedAt = ''2026-01-02T03:04:05.25Z'',
      oc_CorrelationID = ''33333333-3333-4333-a333-333333333333'', oc_CausationID = None, oc_TraceID = ''trace-1''\<rparr>"

definition sample_stock :: inventory_item where
  "sample_stock = \<lparr>ii_tenant = ''22222222-2222-4222-9222-2222222222ab'', ii_item = ''item-1'', ii_quantity = 10, ii_version = 0\<rparr>"

definition sample_start :: relay_state where
  "sample_start = \<lparr>source = \<lparr>durable = empty_erp, clock = 0, ticks = [], stmt_faults = [], commits = []\<rparr>,
     broker_log = [], broker_replies = []\<rparr>"

lemma sample_order_envelope: "order_envelope sample_order 10 7 1 = sample_decremented"
  by (simp add: order_envelope_def sample_order_def sample_decremented_def SchemaVersionV1_def)

text \<open>What the event contract accepts, the checks of the ERP accept too.\<close>

lemma erp_checks:
  "valid_uuid v \<Longrightarrow> erp_requireUUID v" "valid_id v \<Longrightarrow> erp_requireCanonicalID v"
  "\<lbrakk> valid_time v; v \<noteq> []; last v = CHR ''Z'' \<rbrakk> \<Longrightarrow> parseTimeZ v \<noteq> None"
  by (auto simp: valid_uuid_def erp_requireUUID_iff valid_id_def requireCanonicalID_def erp_requireCanonicalID_def
      valid_time_def parseTimeZ_def split: if_splits)

lemma sample_order_valid: "validateCommand sample_order = None"
  using erp_checks(1) [OF sample_uuids(1)] erp_checks(1) [OF sample_uuids(2)] erp_checks(1) [OF sample_uuids(3)]
    erp_checks(1) [OF sample_uuids(4)] erp_checks(2) [OF sample_item] erp_checks(3) [OF sample_times(1)]
    erp_checks(3) [OF sample_times(2)]
  by (simp add: validateCommand_def checks_def sample_order_def erp_requireLowerUUID_def
      sample_tenant trim_space_head is_space_def requireOptionalUUID_def maxSafeInt_def err_simps)

lemma sample_seeded:
  "\<exists>w. run_command (CmdSeed ''22222222-2222-4222-9222-2222222222ab'' ''item-1'' 10) (source sample_start) = w \<and> calm w \<and>
     durable w = empty_erp\<lparr>items := [sample_stock]\<rparr>"
proof -
  have "pg_text_ok ''22222222-2222-4222-9222-2222222222ab''" "pg_text_ok ''item-1''"
    by (simp_all add: pg_text_ok_def)
  then show ?thesis
    using exec_auto_calm [of "source sample_start" "[''22222222-2222-4222-9222-2222222222ab'', ''item-1'']"
        "\<lambda>now. insert_item sample_stock" "()" "empty_erp\<lparr>items := [sample_stock]\<rparr>" ErpDB]
    by (auto simp: seed_inventory_def sample_start_def calm_def insert_item_def sample_stock_def empty_erp_def)
qed

lemma sample_accepted:
  obtains s r where "source_reach (s, [])" "calm (source s)" "broker_replies s = []" "outbox (durable (source s)) = [r]"
    "row_envelope r = Some sample_decremented" "ob_status r = Pending" "ob_expires r = None" "ob_attempts r = 0"
    "items (durable (source s)) = [sample_stock\<lparr>ii_quantity := 7, ii_version := 1\<rparr>]"
proof -
  obtain w where w: "run_command (CmdSeed ''22222222-2222-4222-9222-2222222222ab'' ''item-1'' 10) (source sample_start) = w"
    "calm w" "durable w = empty_erp\<lparr>items := [sample_stock]\<rparr>" using sample_seeded by blast
  have s0: "source_reach (sample_start, [])"
    by (rule source_reach.start) (simp_all add: sample_start_def)
  from source_reach.step [OF this source_step.command] w(1)
  have s1: "source_reach (sample_start\<lparr>source := w\<rparr>, [])" by blast
  have inv: "erp_inv (durable w)" using source_reach_inv [OF s1] by (simp add: source_inv_def source_ok_def Let_def)
  have find: "find_item (durable w) (oc_TenantID sample_order) (oc_ItemID sample_order) = Some sample_stock"
    by (simp add: w(3) find_item_def sample_order_def sample_stock_def)
  have "\<exists>res w'. AcceptOrder sample_order w = (Inr res, w') \<and> calm w'"
    by (rule AcceptOrder_calm [OF w(2) sample_order_valid inv find])
      (use sample_valid in \<open>auto simp: w(3) sample_order_envelope [unfolded sample_order_def] sample_order_def
        sample_stock_def order_caused_def empty_erp_def pg_text_ok_def\<close>)
  then obtain res w' where a: "AcceptOrder sample_order w = (Inr res, w')" "calm w'" by blast
  from source_reach.step [OF s1 source_step.command [of _ _ "CmdOrder sample_order"]] a(1)
  have s2: "source_reach (sample_start\<lparr>source := w'\<rparr>, [])" by simp
  from accept.success [OF a(1)] obtain b occ now where
    add: "outbox_added (order_envelope sample_order 10 7 1) b
      (empty_erp\<lparr>items := [sample_stock\<lparr>ii_quantity := 7, ii_version := 1\<rparr>], orders := orders empty_erp @ [new_order sample_order occ now]\<rparr>)
      (durable w')"
    using find by (auto simp: order_effect_def w(3) sample_stock_def sample_order_def wrap64_def)
  then show thesis
    by (rule outbox_addedE)
      (rule that [OF s2], use a(2) in \<open>simp_all add: sample_order_envelope, auto simp: sample_start_def empty_erp_def\<close>)
qed

section \<open>Properties\<close>

text \<open>C9. Whatever fails in it, accepting an order either reports an error and leaves the database
  as it was, or decrements the stock, records the order and appends its one outbox event, all three
  together; an error after such a change is only possible when the reply to the commit was lost.\<close>

theorem accept_order_atomic:
  "case AcceptOrder cmd w of (r, w') \<Rightarrow>
     (\<exists>e. r = Inl e \<and> durable w' = durable w) \<or>
     (\<exists>res. order_effect cmd res (durable w) (durable w') \<and>
        (r = Inr res \<or> (\<exists>e. r = Inl e) \<and> commit_reply w = ReplyLost))"
  using accept.outcome [of cmd w] by (cases "AcceptOrder cmd w") simp

text \<open>C7. In every reachable state of the source, the outbox is a faithful ledger of each inventory
  item: its events carry the versions 1, 2, ... up to the item's version without gap or repetition,
  each starts at the quantity where the previous one ended, and the last one ends at the quantity on
  hand, which is never negative.\<close>

theorem ledger_reachable:
  assumes "source_reach (s, fl)" "it \<in> set (items (durable (source s)))"
  shows "map ob_version (item_rows (durable (source s)) it) = [1..ii_version it] \<and>
    (\<exists>q. replay q (item_rows (durable (source s)) it) = Some (ii_quantity it)) \<and> 0 \<le> ii_quantity it"
  using source_reach_inv [OF assms(1)] assms(2)
  by (simp add: source_inv_def Let_def source_ok_def erp_inv_def list_all_iff item_ok_def)

theorem ledger_reachable_witness:
  "\<exists>s it. source_reach (s, []) \<and> it \<in> set (items (durable (source s))) \<and> ii_version it = 1 \<and>
     map ob_version (item_rows (durable (source s)) it) = [1..1]"
proof -
  obtain s where s: "source_reach (s, [])"
    "items (durable (source s)) = [sample_stock\<lparr>ii_quantity := 7, ii_version := 1\<rparr>]"
    by (rule sample_accepted)
  then show ?thesis
    using ledger_reachable [OF s(1), of "sample_stock\<lparr>ii_quantity := 7, ii_version := 1\<rparr>"] by auto
qed



text \<open>C6. Nothing is marked published that the broker does not have: in every reachable state, under
  any interleaving of relays, crashes, lost replies and lease expiries, the exact bytes of each
  published row are in the broker's log under the row's aggregate key.\<close>

theorem published_is_logged:
  assumes "source_reach (s, fl)" "r \<in> set (outbox (durable (source s)))" "ob_status r = Published"
  shows "(Topic, AggregateKey (ob_tenant r) (ob_atype r) (ob_aid r), ob_bytes r) \<in> set (broker_log s)"
  using source_reach_inv [OF assms(1)] assms(2,3) by (simp add: source_inv_def Let_def logged_def)

lemma sample_published:
  "\<exists>s r. source_reach (s, []) \<and> r \<in> set (outbox (durable (source s))) \<and> ob_status r = Published"
proof -
  obtain s r where s: "source_reach (s, [])" "calm (source s)" "broker_replies s = []"
    and r: "outbox (durable (source s)) = [r]" "ob_status r = Pending" "ob_expires r = None" "ob_attempts r = 0"
    by (rule sample_accepted)
  have inv: "erp_inv (durable (source s))"
    using source_reach_inv [OF s(1)] by (simp add: source_inv_def Let_def source_ok_def)
  have rows: "due_rows (max 1 1) (next_now (source s)) (durable (source s)) = [r]"
    by (simp add: due_rows_def r due_def)
  have ow: "''relay''\<noteq> []" "pg_text_ok ''relay''" by (simp_all add: pg_text_ok_def)
  obtain recs w ms where c: "ClaimDue ''relay'' 0 1 (source s) = (Inr recs, w)" "calm w"
    and ids: "map rec_ident recs = [ob_ident r]"
    and db: "durable w = claim_ids {ob_event r} ''relay'' ms (next_now (source s)) (durable (source s))"
    using ClaimDue_calm [where limit = 1 and ttl = 0, OF s(2) ow inv] r(1,4) unfolding rows by auto
  then obtain rec where recs: "recs = [rec]" "rec_ident rec = ob_ident r" by (cases recs) auto
  let ?s = "s\<lparr>source := w\<rparr>"
  have s1: "source_reach (?s, [(''relay'', rec)])"
    using source_reach.step [OF s(1) source_step.claim [OF c(1)]] by (simp add: recs)
  have h: "held ''relay'' (durable w) rec"
    using held_claimed [OF inv, of "{r}" r rec] recs(2) r(1) by (simp add: db)
  have d: "distinct (map ob_event (outbox (durable (source ?s))))" by (simp add: db claim_ids_event r(1))
  obtain s' where p: "publishOne ''relay'' rec ?s = (Inr outcomePublished, s')"
    "durable (source s') = publish_ids {rec_EventID rec} (durable w)"
    using publishOne_calm [of ?s "''relay''" rec] c(2) s(3) d h ow(2) by auto
  have "source_reach (s', [])"
    using source_reach.step [OF s1 source_step.publish [OF _ p(1)]] by simp
  moreover have "rec_EventID rec = ob_event r" using recs(2) by (simp add: rec_ident_def ob_ident_def)
  ultimately show ?thesis
    using p(2) by (auto simp: db r(1) claim_ids_def publish_ids_def claimed_def published_def)
qed

theorem published_is_logged_witness:
  "\<exists>s r. source_reach (s, []) \<and> r \<in> set (outbox (durable (source s))) \<and> ob_status r = Published \<and>
     (Topic, AggregateKey (ob_tenant r) (ob_atype r) (ob_aid r), ob_bytes r) \<in> set (broker_log s)"
  using sample_published published_is_logged by blast





lemma pow_63: "0 \<le> n \<Longrightarrow> (2 :: int) ^ nat n < 2 ^ 63 \<longleftrightarrow> n < 63"
  by (subst power_strict_increasing_iff) auto

lemma backoff_small: "a \<in> {1, 2, 3, 4, 5, 6} \<Longrightarrow> BackoffAfterAttempts a = second * 2 ^ nat (a - 1) \<and> sql_backoff a = Some (2 ^ nat (a - 1))"
  by (elim insertE emptyE) (simp_all add: BackoffAfterAttempts_def sql_backoff_def second_def wrap64_def)

lemma backoff_large: "\<lbrakk> 7 \<le> a; a < 2 ^ 63 \<rbrakk> \<Longrightarrow> BackoffAfterAttempts a = 60 * second \<and> sql_backoff a = (if a \<le> 63 then Some 60 else None)"
proof
  assume a: "7 \<le> a" "a < 2 ^ 63"
  then have "wrap64 (a - 1) = a - 1" by (simp add: int64_def)
  with a have "(if wrap64 (a - 1) > 6 then 6 else wrap64 (a - 1)) = 6" by (auto simp: wrap64_def)
  moreover have "wrap64 (second * 2 ^ nat 6) = 64 * second" by (simp add: wrap64_def second_def)
  ultimately show "BackoffAfterAttempts a = 60 * second"
    using a(1) by (cases "wrap64 (a - 1) > 6") (simp_all add: BackoffAfterAttempts_def second_def)
  have "(2 :: int) ^ 6 \<le> 2 ^ nat (a - 1)" using a by (intro power_increasing) auto
  then show "sql_backoff a = (if a \<le> 63 then Some 60 else None)"
    using a pow_63 [of "a - 1"] by (simp add: sql_backoff_def Let_def)
qed

text \<open>C13. The delay after a failed publication is between one and sixty seconds, and the SQL expression
  of the release statement computes exactly the delay of the Go function as long as the row has had at
  most 63 attempts; from the 64th attempt on the expression has no value.\<close>

theorem backoff_agrees:
  assumes "int64 a"
  shows "second \<le> BackoffAfterAttempts a \<and> BackoffAfterAttempts a \<le> 60 * second \<and>
    sql_backoff a = (if a \<le> 63 then Some (BackoffAfterAttempts a div second) else None)"
proof -
  have low: "BackoffAfterAttempts a = BackoffAfterAttempts 1 \<and> sql_backoff a = sql_backoff 1" if "a < 1"
    using that by (simp add: BackoffAfterAttempts_def sql_backoff_def)
  have "a < 1 \<or> a = 1 \<or> a = 2 \<or> a = 3 \<or> a = 4 \<or> a = 5 \<or> a = 6 \<or> 7 \<le> a" by presburger
  then consider "a < 1" | "a \<in> {1, 2, 3, 4, 5, 6}" | "7 \<le> a" by blast
  then show ?thesis
  proof cases
    case 1
    then have "BackoffAfterAttempts a = second" "sql_backoff a = Some 1" using low backoff_small [of 1] by simp_all
    with 1 show ?thesis by (simp add: second_def)
  next
    case 2
    then show ?thesis using backoff_small [OF 2] by (elim insertE emptyE) (simp_all add: second_def)
  next
    case 3
    moreover have "a < 2 ^ 63" using assms by (simp add: int64_def)
    ultimately show ?thesis using backoff_large by (simp add: second_def)
  qed
qed

theorem backoff_agrees_witness:
  "BackoffAfterAttempts 4 = 8 * second \<and> sql_backoff 4 = Some 8 \<and> sql_backoff 64 = None"
proof -
  have "BackoffAfterAttempts 4 = 8 * second" using backoff_small [of 4] by simp
  moreover have "int64 4" "int64 64" by (simp_all add: int64_def)
  ultimately show ?thesis using backoff_agrees [of 4] backoff_agrees [of 64] by (simp add: second_def)
qed

text \<open>C14. Consequently a row that fails for the 64th time cannot be released: the release statement
  reports an error and changes nothing, so the row stays leased until its lease expires.\<close>

theorem release_transient_overflow:
  assumes "r \<in> set (outbox (durable w))" "leased eventID owner r" "64 \<le> ob_attempts r"
  shows "case ReleaseTransient eventID owner code w of (x, w') \<Rightarrow> (\<exists>e. x = Inl e) \<and> durable w' = durable w"
proof -
  have "sql_backoff (ob_attempts r) = None"
    using pow_63 [of "ob_attempts r - 1"] assms(3) by (simp add: sql_backoff_def Let_def)
  then have bad: "release_transient_rows eventID owner code now (durable w) = Inl RelayDB" for now
    using assms(1,2) by (auto simp: release_transient_rows_def list_ex_iff)
  obtain y v where x: "exec_auto RelayDB [eventID, owner, code] (release_transient_rows eventID owner code) w = (y, v)"
    by fastforce
  then have "(\<exists>e. y = Inl e) \<and> durable v = durable w"
    by (rule exec_auto_cases) (use bad in auto)
  with x show ?thesis by (auto simp: ReleaseTransient_def expect_one_def)
qed

definition stuck_row :: outbox_row where
  "stuck_row = \<lparr>ob_event = ''e'', ob_tenant = ''t'', ob_atype = ''a'', ob_aid = ''i'', ob_version = 1, ob_hash = ''h'',
     ob_bytes = ''b'', ob_status = Publishing, ob_recorded = 0, ob_owner = Some ''relay'', ob_expires = Some 30000000,
     ob_attempts = 64, ob_error = None, ob_created = 0\<rparr>"

theorem release_transient_overflow_witness:
  "case ReleaseTransient ''e'' ''relay'' ''broker_publish_failed''
       \<lparr>durable = empty_erp\<lparr>outbox := [stuck_row]\<rparr>, clock = 0, ticks = [], stmt_faults = [], commits = []\<rparr> of
     (x, w') \<Rightarrow> (\<exists>e. x = Inl e) \<and> durable w' = empty_erp\<lparr>outbox := [stuck_row]\<rparr>"
  using release_transient_overflow [of stuck_row
      "\<lparr>durable = empty_erp\<lparr>outbox := [stuck_row]\<rparr>, clock = 0, ticks = [], stmt_faults = [], commits = []\<rparr>"
      "''e''" "''relay''" "''broker_publish_failed''"]
  by (simp add: leased_def stuck_row_def)

text \<open>C12. Resetting a tenant's source data without faults always succeeds: the order of the deletes
  never trips over a foreign key. It removes every row of the tenant and no row of any other.\<close>

theorem reset_tenant:
  assumes "calm w" "t \<noteq> []" "pg_text_ok t"
  shows "\<exists>w'. ResetSourceForTenant t w = (Inr (), w') \<and> durable w' = keep_tenants t (durable w)"
proof -
  have "run_deletes t reset_order (durable w) [] = (Inr (), keep_tenants t (durable w), [])"
    using assms(3)
    by (simp add: reset_order_def tx_bind_def tx_return_def delete_outbox_def delete_shipments_def delete_batches_def
        delete_lots_def delete_orders_def delete_suppliers_def delete_items_def keep_tenants_def list_ex_iff)
  then show ?thesis
    using transact_calm [where body = "\<lambda>now. run_deletes t reset_order" and be = ErpDB and ce = ErpDB, OF assms(1)] assms(2)
    by (auto simp: ResetSourceForTenant_def)
qed

theorem reset_tenant_witness:
  "\<exists>w'. ResetSourceForTenant ''t'' \<lparr>durable = empty_erp\<lparr>outbox := [stuck_row]\<rparr>, clock = 0, ticks = [], stmt_faults = [], commits = []\<rparr> =
     (Inr (), w') \<and> outbox (durable w') = []"
  using reset_tenant [of "\<lparr>durable = empty_erp\<lparr>outbox := [stuck_row]\<rparr>, clock = 0, ticks = [], stmt_faults = [], commits = []\<rparr>" "''t''"]
  by (auto simp: calm_def pg_text_ok_def keep_tenants_def stuck_row_def)

text \<open>C15. The hand-written UUID check of the ERP accepts exactly the strings that the event contract's
  regular expression for version 4 UUIDs accepts, for every byte string.\<close>

theorem erp_uuid_check: "erp_requireUUID v = match_shape uuidV4Regexp v"
  by (rule erp_requireUUID_iff)

end
