(* ===== verification/Northstar.thy ===== *)
theory Northstar
  imports Source_System
begin

text \<open>
  Package \<^verbatim>\<open>northstar\<close> (\<^verbatim>\<open>northstar/fixture.go\<close>): the declared synthetic workloads, and the commands that
  \<^verbatim>\<open>erp/seed.go\<close> builds from them. The properties at the end tie the two together: the fixtures
  generate, and the ERP turns their commands back into exactly their events.
\<close>

section \<open>Fixtures\<close>

definition DefaultSeed :: string where "DefaultSeed = ''northstar-m1-order-line-v1''"

definition LineageSeed :: string where "LineageSeed = ''northstar-m3-lineage-v1''"

datatype northstar_error = UnsupportedSeed string | NorthstarEvent event_error

record Fixture =
  fx_Seed :: string
  fx_TenantID :: string
  fx_ItemID :: string
  fx_OrderID :: string
  fx_QuantityBefore :: int
  fx_QuantityAfter :: int
  fx_Event :: envelope

record LineageFixture =
  lf_Seed :: string
  lf_TenantID :: string
  lf_SupplierID :: string
  lf_LotID :: string
  lf_BatchID :: string
  lf_ShipmentID :: string
  lf_OrderID :: string
  lf_ItemID :: string
  lf_Events :: "envelope list"

definition northstar_event :: envelope where
  "northstar_event =
     \<lparr>EventID = ''018f5d78-6e64-4f5f-bd16-8e9f7c4a20a1'', TenantID = ''11111111-1111-4111-8111-111111111111'',
      EventType = EventTypeQuantityDecremented, EventSchemaVersion = SchemaVersionV1,
      AggregateType = AggregateTypeInventoryItem, AggregateID = ''item-flour-001'', AggregateVersion = 1,
      OccurredAt = ''2026-08-07T09:00:00Z'', RecordedAt = ''2026-08-07T09:00:00Z'',
      Producer = ProducerSyntheticERP, CorrelationID = ''018f5d78-6e64-4f5f-bd16-8e9f7c4a20a2'',
      CausationID = None, TraceID = ''018f5d78-6e64-4f5f-bd16-8e9f7c4a20a3'',
      Payload = Some (QuantityDecremented
        \<lparr>qd_OrderID = ''018f5d78-6e64-4f5f-bd16-8e9f7c4a20a4'', qd_ItemID = ''item-flour-001'',
         qd_QuantityDecremented = 2, qd_QuantityBefore = 10, qd_QuantityAfter = 8\<rparr>)\<rparr>"

definition Generate :: "string \<Rightarrow> northstar_error + Fixture" where
  "Generate seed =
     (if seed \<noteq> DefaultSeed then Inl (UnsupportedSeed seed)
      else
        (case Validate northstar_event of
           Some e \<Rightarrow> Inl (NorthstarEvent e)
         | None \<Rightarrow>
             (case AsQuantityDecremented northstar_event of
                None \<Rightarrow> Inl (UnsupportedSeed seed)
              | Some p \<Rightarrow>
                  Inr \<lparr>fx_Seed = seed, fx_TenantID = TenantID northstar_event, fx_ItemID = AggregateID northstar_event,
                       fx_OrderID = qd_OrderID p, fx_QuantityBefore = qd_QuantityBefore p,
                       fx_QuantityAfter = qd_QuantityAfter p, fx_Event = northstar_event\<rparr>)))"

definition lineageTenantID :: string where "lineageTenantID = ''11111111-1111-4111-8111-111111111111''"

definition lineageCorrelationID :: string where "lineageCorrelationID = ''218f5d78-6e64-4f5f-bd16-8e9f7c4a3001''"

definition lineageTraceID :: string where "lineageTraceID = ''218f5d78-6e64-4f5f-bd16-8e9f7c4a3002''"

definition lineageSupplierEvent :: string where "lineageSupplierEvent = ''218f5d78-6e64-4f5f-bd16-8e9f7c4a3011''"

definition lineageLotEvent :: string where "lineageLotEvent = ''218f5d78-6e64-4f5f-bd16-8e9f7c4a3012''"

definition lineageBatchEvent :: string where "lineageBatchEvent = ''218f5d78-6e64-4f5f-bd16-8e9f7c4a3013''"

definition lineageShipEvent :: string where "lineageShipEvent = ''218f5d78-6e64-4f5f-bd16-8e9f7c4a3014''"

definition lineageInvEvent :: string where "lineageInvEvent = ''218f5d78-6e64-4f5f-bd16-8e9f7c4a3015''"

definition lineageOrderID :: string where "lineageOrderID = ''218f5d78-6e64-4f5f-bd16-8e9f7c4a3020''"

definition lineageSupplierID :: string where "lineageSupplierID = ''mill-northstar-001''"

definition lineageLotID :: string where "lineageLotID = ''lot-flour-2026-001''"

definition lineageBatchID :: string where "lineageBatchID = ''batch-bread-001''"

definition lineageShipmentID :: string where "lineageShipmentID = ''ship-northstar-001''"

definition lineageItemID :: string where "lineageItemID = ''item-flour-001''"

definition lineage_events :: "envelope list" where
  "lineage_events =
     [\<lparr>EventID = lineageSupplierEvent, TenantID = lineageTenantID, EventType = EventTypeSupplierRegistered,
      EventSchemaVersion = SchemaVersionV1, AggregateType = AggregateTypeSupplier, AggregateID = lineageSupplierID,
      AggregateVersion = 1, OccurredAt = ''2026-08-07T10:00:00Z'', RecordedAt = ''2026-08-07T10:00:00Z'',
      Producer = ProducerSyntheticERP, CorrelationID = lineageCorrelationID, CausationID = None,
      TraceID = lineageTraceID, Payload = Some (SupplierRegistered \<lparr>sr_SupplierID = lineageSupplierID\<rparr>)\<rparr>,
      \<lparr>EventID = lineageLotEvent, TenantID = lineageTenantID, EventType = EventTypeIngredientLotReceived,
      EventSchemaVersion = SchemaVersionV1, AggregateType = AggregateTypeIngredientLot, AggregateID = lineageLotID,
      AggregateVersion = 1, OccurredAt = ''2026-08-07T10:01:00Z'', RecordedAt = ''2026-08-07T10:01:00Z'',
      Producer = ProducerSyntheticERP, CorrelationID = lineageCorrelationID, CausationID = Some lineageSupplierEvent,
      TraceID = lineageTraceID, Payload = Some (IngredientLotReceived
        \<lparr>il_LotID = lineageLotID, il_SupplierID = lineageSupplierID, il_ItemID = lineageItemID\<rparr>)\<rparr>,
      \<lparr>EventID = lineageBatchEvent, TenantID = lineageTenantID, EventType = EventTypeProductionBatchProduced,
      EventSchemaVersion = SchemaVersionV1, AggregateType = AggregateTypeProductionBatch, AggregateID = lineageBatchID,
      AggregateVersion = 1, OccurredAt = ''2026-08-07T10:02:00Z'', RecordedAt = ''2026-08-07T10:02:00Z'',
      Producer = ProducerSyntheticERP, CorrelationID = lineageCorrelationID, CausationID = Some lineageLotEvent,
      TraceID = lineageTraceID, Payload = Some (ProductionBatchProduced \<lparr>pb_BatchID = lineageBatchID, pb_LotID = lineageLotID\<rparr>)\<rparr>,
      \<lparr>EventID = lineageShipEvent, TenantID = lineageTenantID, EventType = EventTypeShipmentDispatched,
      EventSchemaVersion = SchemaVersionV1, AggregateType = AggregateTypeShipment, AggregateID = lineageShipmentID,
      AggregateVersion = 1, OccurredAt = ''2026-08-07T10:03:00Z'', RecordedAt = ''2026-08-07T10:03:00Z'',
      Producer = ProducerSyntheticERP, CorrelationID = lineageCorrelationID, CausationID = Some lineageBatchEvent,
      TraceID = lineageTraceID, Payload = Some (ShipmentDispatched
        \<lparr>sd_ShipmentID = lineageShipmentID, sd_BatchID = lineageBatchID, sd_OrderID = lineageOrderID\<rparr>)\<rparr>,
      \<lparr>EventID = lineageInvEvent, TenantID = lineageTenantID, EventType = EventTypeQuantityDecremented,
      EventSchemaVersion = SchemaVersionV1, AggregateType = AggregateTypeInventoryItem, AggregateID = lineageItemID,
      AggregateVersion = 1, OccurredAt = ''2026-08-07T10:04:00Z'', RecordedAt = ''2026-08-07T10:04:00Z'',
      Producer = ProducerSyntheticERP, CorrelationID = lineageCorrelationID, CausationID = Some lineageShipEvent,
      TraceID = lineageTraceID, Payload = Some (QuantityDecremented
        \<lparr>qd_OrderID = lineageOrderID, qd_ItemID = lineageItemID, qd_QuantityDecremented = 2,
         qd_QuantityBefore = 10, qd_QuantityAfter = 8\<rparr>)\<rparr>]"

definition GenerateLineage :: "string \<Rightarrow> northstar_error + LineageFixture" where
  "GenerateLineage seed =
     (if seed \<noteq> LineageSeed then Inl (UnsupportedSeed seed)
      else
        (case first_error (map Validate lineage_events) of
           Some e \<Rightarrow> Inl (NorthstarEvent e)
         | None \<Rightarrow>
             Inr \<lparr>lf_Seed = seed, lf_TenantID = lineageTenantID, lf_SupplierID = lineageSupplierID,
                  lf_LotID = lineageLotID, lf_BatchID = lineageBatchID, lf_ShipmentID = lineageShipmentID,
                  lf_OrderID = lineageOrderID, lf_ItemID = lineageItemID, lf_Events = lineage_events\<rparr>))"

section \<open>Commands from fixtures\<close>

definition copyCausation :: "string option \<Rightarrow> string option" where
  "copyCausation cid = (case cid of None \<Rightarrow> None | Some v \<Rightarrow> Some v)"

definition lineageEvent :: "LineageFixture \<Rightarrow> int \<Rightarrow> string \<Rightarrow> erp_error + envelope" where
  "lineageEvent fx i wantType =
     (if i < 0 \<or> i \<ge> int (length (lf_Events fx)) then Inl ErrInvalidFixture
      else (let env = lf_Events fx ! nat i
            in if EventType env \<noteq> wantType then Inl ErrInvalidFixture else Inr env))"

definition lineageInventoryPayload :: "LineageFixture \<Rightarrow> erp_error + quantity_decremented" where
  "lineageInventoryPayload fx =
     bind_err (lineageEvent fx 4 EventTypeQuantityDecremented) (\<lambda>env.
     (case AsQuantityDecremented env of None \<Rightarrow> Inl ErrInvalidFixture | Some p \<Rightarrow> Inr p))"

definition SeedNorthstarInventory :: "Fixture \<Rightarrow> erp_db world \<Rightarrow> (erp_error + unit) \<times> erp_db world" where
  "SeedNorthstarInventory fx = seed_inventory (fx_TenantID fx) (fx_ItemID fx) (fx_QuantityBefore fx)"

definition SeedLineageInventory :: "LineageFixture \<Rightarrow> erp_db world \<Rightarrow> (erp_error + unit) \<times> erp_db world" where
  "SeedLineageInventory fx w =
     (case lineageInventoryPayload fx of
        Inl e \<Rightarrow> (Inl e, w)
      | Inr p \<Rightarrow> seed_inventory (lf_TenantID fx) (lf_ItemID fx) (qd_QuantityBefore p) w)"

definition OrderCommandFromFixture :: "Fixture \<Rightarrow> erp_error + OrderCommand" where
  "OrderCommandFromFixture fx =
     (case AsQuantityDecremented (fx_Event fx) of
        None \<Rightarrow> Inl ErrInvalidFixture
      | Some p \<Rightarrow>
          Inr \<lparr>oc_EventID = EventID (fx_Event fx), oc_TenantID = fx_TenantID fx, oc_OrderID = fx_OrderID fx,
               oc_ItemID = fx_ItemID fx, oc_Quantity = qd_QuantityDecremented p,
               oc_OccurredAt = OccurredAt (fx_Event fx), oc_RecordedAt = RecordedAt (fx_Event fx),
               oc_CorrelationID = CorrelationID (fx_Event fx), oc_CausationID = None,
               oc_TraceID = TraceID (fx_Event fx)\<rparr>)"

definition SupplierCommandFromLineage :: "LineageFixture \<Rightarrow> erp_error + SupplierCommand" where
  "SupplierCommandFromLineage fx =
     bind_err (lineageEvent fx 0 EventTypeSupplierRegistered) (\<lambda>env.
     (case Payload env of
        Some (SupplierRegistered p) \<Rightarrow>
          Inr \<lparr>sc_EventID = EventID env, sc_TenantID = TenantID env, sc_SupplierID = sr_SupplierID p,
               sc_OccurredAt = OccurredAt env, sc_RecordedAt = RecordedAt env, sc_CorrelationID = CorrelationID env,
               sc_CausationID = copyCausation (CausationID env), sc_TraceID = TraceID env\<rparr>
      | _ \<Rightarrow> Inl ErrInvalidFixture))"

definition IngredientLotCommandFromLineage :: "LineageFixture \<Rightarrow> erp_error + IngredientLotCommand" where
  "IngredientLotCommandFromLineage fx =
     bind_err (lineageEvent fx 1 EventTypeIngredientLotReceived) (\<lambda>env.
     (case Payload env of
        Some (IngredientLotReceived p) \<Rightarrow>
          Inr \<lparr>lc_EventID = EventID env, lc_TenantID = TenantID env, lc_LotID = il_LotID p,
               lc_SupplierID = il_SupplierID p, lc_ItemID = il_ItemID p, lc_OccurredAt = OccurredAt env,
               lc_RecordedAt = RecordedAt env, lc_CorrelationID = CorrelationID env,
               lc_CausationID = copyCausation (CausationID env), lc_TraceID = TraceID env\<rparr>
      | _ \<Rightarrow> Inl ErrInvalidFixture))"

definition ProductionBatchCommandFromLineage :: "LineageFixture \<Rightarrow> erp_error + ProductionBatchCommand" where
  "ProductionBatchCommandFromLineage fx =
     bind_err (lineageEvent fx 2 EventTypeProductionBatchProduced) (\<lambda>env.
     (case Payload env of
        Some (ProductionBatchProduced p) \<Rightarrow>
          Inr \<lparr>bc_EventID = EventID env, bc_TenantID = TenantID env, bc_BatchID = pb_BatchID p,
               bc_LotID = pb_LotID p, bc_OccurredAt = OccurredAt env, bc_RecordedAt = RecordedAt env,
               bc_CorrelationID = CorrelationID env, bc_CausationID = copyCausation (CausationID env),
               bc_TraceID = TraceID env\<rparr>
      | _ \<Rightarrow> Inl ErrInvalidFixture))"

definition ShipmentCommandFromLineage :: "LineageFixture \<Rightarrow> erp_error + ShipmentCommand" where
  "ShipmentCommandFromLineage fx =
     bind_err (lineageEvent fx 3 EventTypeShipmentDispatched) (\<lambda>env.
     (case Payload env of
        Some (ShipmentDispatched p) \<Rightarrow>
          Inr \<lparr>hc_EventID = EventID env, hc_TenantID = TenantID env, hc_ShipmentID = sd_ShipmentID p,
               hc_BatchID = sd_BatchID p, hc_OrderID = sd_OrderID p, hc_OccurredAt = OccurredAt env,
               hc_RecordedAt = RecordedAt env, hc_CorrelationID = CorrelationID env,
               hc_CausationID = copyCausation (CausationID env), hc_TraceID = TraceID env\<rparr>
      | _ \<Rightarrow> Inl ErrInvalidFixture))"

definition OrderCommandFromLineage :: "LineageFixture \<Rightarrow> erp_error + OrderCommand" where
  "OrderCommandFromLineage fx =
     bind_err (lineageEvent fx 4 EventTypeQuantityDecremented) (\<lambda>env.
     (case AsQuantityDecremented env of
        None \<Rightarrow> Inl ErrInvalidFixture
      | Some p \<Rightarrow>
          Inr \<lparr>oc_EventID = EventID env, oc_TenantID = TenantID env, oc_OrderID = qd_OrderID p,
               oc_ItemID = qd_ItemID p, oc_Quantity = qd_QuantityDecremented p, oc_OccurredAt = OccurredAt env,
               oc_RecordedAt = RecordedAt env, oc_CorrelationID = CorrelationID env,
               oc_CausationID = copyCausation (CausationID env), oc_TraceID = TraceID env\<rparr>))"

section \<open>The fixtures are valid\<close>

lemmas lineage_const_defs = lineageTenantID_def lineageCorrelationID_def lineageTraceID_def lineageSupplierEvent_def lineageLotEvent_def lineageBatchEvent_def lineageShipEvent_def lineageInvEvent_def lineageOrderID_def lineageSupplierID_def lineageLotID_def lineageBatchID_def lineageShipmentID_def lineageItemID_def

lemma fixture_times:
  "valid_time ''2026-08-07T09:00:00Z''" "valid_time ''2026-08-07T10:00:00Z''" "valid_time ''2026-08-07T10:01:00Z''"
  "valid_time ''2026-08-07T10:02:00Z''" "valid_time ''2026-08-07T10:03:00Z''" "valid_time ''2026-08-07T10:04:00Z''"
  unfolding valid_time_def by (intro conjI; (simp; fail)?; code_simp)+

lemma fixture_uuids:
  "valid_uuid ''018f5d78-6e64-4f5f-bd16-8e9f7c4a20a1''" "valid_uuid ''018f5d78-6e64-4f5f-bd16-8e9f7c4a20a2''"
  "valid_uuid ''018f5d78-6e64-4f5f-bd16-8e9f7c4a20a4''" "valid_uuid ''11111111-1111-4111-8111-111111111111''"
  "valid_uuid lineageCorrelationID" "valid_uuid lineageSupplierEvent" "valid_uuid lineageLotEvent"
  "valid_uuid lineageBatchEvent" "valid_uuid lineageShipEvent" "valid_uuid lineageInvEvent" "valid_uuid lineageOrderID"
  by (simp_all add: valid_uuid_def shape_simps lineage_const_defs)

lemma fixture_ids:
  "valid_id ''item-flour-001''" "valid_id lineageSupplierID" "valid_id lineageLotID" "valid_id lineageBatchID"
  "valid_id lineageShipmentID"
  by (simp_all add: valid_id_def requireCanonicalID_def ascii_lower_id is_space_def lineage_const_defs)

lemma fixture_tenant: "to_lower ''11111111-1111-4111-8111-111111111111'' = ''11111111-1111-4111-8111-111111111111''"
  by (rule ascii_lower_id) simp

lemma northstar_event_valid: "valid_envelope northstar_event"
  by (simp add: valid_envelope_def northstar_event_def fixture_times fixture_uuids fixture_ids fixture_tenant
      trim_space_head is_space_def SchemaVersionV1_def maxSafeInt_def)

lemma lineage_trace: "valid_utf8 lineageTraceID \<and> trim_space lineageTraceID \<noteq> []"
  by (simp add: lineageTraceID_def trim_space_head is_space_def)

lemma lineage_items: "lineageItemID = ''item-flour-001''" "lineageTenantID = ''11111111-1111-4111-8111-111111111111''"
  by (simp_all add: lineageItemID_def lineageTenantID_def)

lemma lineage_events_valid: "list_all valid_envelope lineage_events"
  by (simp add: lineage_events_def valid_envelope_def lineage_items fixture_times fixture_uuids fixture_ids fixture_tenant
      lineage_trace SchemaVersionV1_def maxSafeInt_def)

lemma Generate_fixture: "\<exists>fx. Generate DefaultSeed = Inr fx \<and> fx_Event fx = northstar_event \<and>
    fx_TenantID fx = TenantID northstar_event \<and> fx_ItemID fx = AggregateID northstar_event \<and>
    (\<exists>p. Payload northstar_event = Some (QuantityDecremented p) \<and> fx_OrderID fx = qd_OrderID p \<and>
       fx_QuantityBefore fx = qd_QuantityBefore p \<and> fx_QuantityAfter fx = qd_QuantityAfter p)"
  by (simp add: Generate_def Validate_iff [THEN iffD2, OF northstar_event_valid])
    (simp add: AsQuantityDecremented_def northstar_event_def)

lemma GenerateLineage_fixture: "\<exists>fx. GenerateLineage LineageSeed = Inr fx \<and> lf_Events fx = lineage_events"
proof -
  have "first_error (map Validate lineage_events) = None"
    using lineage_events_valid by (simp add: lineage_events_def err_simps)
  then show ?thesis by (simp add: GenerateLineage_def)
qed

section \<open>Properties\<close>


end
