(* ===== verification/Platform_Controls.thy ===== *)
theory Platform_Controls
  imports Platform_Reads Northstar
begin

text \<open>
  Package \<^verbatim>\<open>platform\<close>: consuming a poll (\<^verbatim>\<open>consume.go\<close>), resetting and rebuilding the derived state
  (\<^verbatim>\<open>rebuild.go\<close>) and the operator's tenant controls (\<^verbatim>\<open>tenant_controls.go\<close>).

  The broker client is outside the program: a poll is given as the partitions it returned (or an error),
  and the reply to the offset commit as a flag. The fault hooks of the tests are off. \<open>rnd i\<close> are the
  random bytes of the i-th call of \<^verbatim>\<open>ProcessRecord\<close>. Reasons for an incomplete rebuild are values instead of
  formatted text.
\<close>

section \<open>Consuming\<close>

record kgo_record =
  kr_Topic :: string
  kr_Partition :: int
  kr_Offset :: int
  kr_Key :: string
  kr_Value :: string

record fetch_partition =
  fp_HighWatermark :: int
  fp_Records :: "kgo_record list"

datatype poll = FetchFailed | Fetches "fetch_partition list"

datatype consume_error = ConsumeFetch | ConsumeRecord platform_error | ConsumeCommit

record ConsumeResult =
  cr_Fetched :: nat
  cr_Processed :: nat
  cr_Acked :: nat
  cr_Skipped :: nat
  cr_AckWithheld :: nat
  cr_AckCommitFail :: bool
  cr_ObservedLag :: int
  cr_LagKnown :: bool

definition empty_consume :: ConsumeResult where
  "empty_consume = \<lparr>cr_Fetched = 0, cr_Processed = 0, cr_Acked = 0, cr_Skipped = 0, cr_AckWithheld = 0,
     cr_AckCommitFail = False, cr_ObservedLag = 0, cr_LagKnown = False\<rparr>"

definition observe_lag :: "fetch_partition \<Rightarrow> ConsumeResult \<Rightarrow> ConsumeResult" where
  "observe_lag p out =
     (case fp_Records p of
        [] \<Rightarrow> out
      | r # _ \<Rightarrow>
          if fp_HighWatermark p < 0 then out
          else (let lag = wrap64 (fp_HighWatermark p - kr_Offset r); lag = (if lag < 0 then 0 else lag)
                in out\<lparr>cr_ObservedLag := wrap64 (cr_ObservedLag out + lag), cr_LagKnown := True\<rparr>))"

definition record_position :: "kgo_record \<Rightarrow> SourcePosition" where
  "record_position r = \<lparr>sp_Topic = kr_Topic r, sp_Partition = kr_Partition r, sp_Offset = kr_Offset r\<rparr>"

text \<open>The callback of \<^verbatim>\<open>EachRecord\<close>: after the first error the remaining records are passed over.\<close>

fun consume_records ::
  "(nat \<Rightarrow> string option) \<Rightarrow> nat \<Rightarrow> kgo_record list \<Rightarrow> ConsumeResult \<Rightarrow> kgo_record list \<Rightarrow> site \<Rightarrow>
   ((ConsumeResult \<times> kgo_record list \<times> platform_error option) \<times> site) option" where
  "consume_records rnd i [] out toCommit s = Some ((out, toCommit, None), s)"
| "consume_records rnd i (r # rs) out toCommit s =
     (let out = out\<lparr>cr_Fetched := cr_Fetched out + 1\<rparr> in
      case ProcessRecord False (rnd i) (kr_Key r) (kr_Value r) (record_position r) s of
        None \<Rightarrow> None
      | Some ((res, err), s1) \<Rightarrow>
          if err \<noteq> None \<and> \<not> res_ShouldAck res then
            Some ((out\<lparr>cr_Skipped := cr_Skipped out + 1, cr_AckWithheld := cr_AckWithheld out + 1\<rparr>, toCommit, err), s1)
          else
            (let out = out\<lparr>cr_Processed := cr_Processed out + 1\<rparr> in
             if \<not> res_ShouldAck res then
               consume_records rnd (i + 1) rs
                 (out\<lparr>cr_Skipped := cr_Skipped out + 1, cr_AckWithheld := cr_AckWithheld out + 1\<rparr>) toCommit s1
             else consume_records rnd (i + 1) rs out (toCommit @ [r]) s1))"

text \<open>The second component is what was passed to \<^verbatim>\<open>CommitRecords\<close> and accepted by the broker.\<close>

definition ConsumeOnce ::
  "(nat \<Rightarrow> string option) \<Rightarrow> poll \<Rightarrow> bool \<Rightarrow> site \<Rightarrow>
   ((ConsumeResult \<times> kgo_record list \<times> consume_error option) \<times> site) option" where
  "ConsumeOnce rnd fetches commitOK s =
     (case fetches of
        FetchFailed \<Rightarrow> Some ((empty_consume, [], Some ConsumeFetch), s)
      | Fetches ps \<Rightarrow>
          (case consume_records rnd 0 (concat (map fp_Records ps)) (fold observe_lag ps empty_consume) [] s of
             None \<Rightarrow> None
           | Some ((out, toCommit, firstErr), s1) \<Rightarrow>
               if toCommit = [] then Some ((out, [], map_option ConsumeRecord firstErr), s1)
               else if \<not> commitOK then Some ((out\<lparr>cr_AckCommitFail := True\<rparr>, [], Some ConsumeCommit), s1)
               else Some ((out\<lparr>cr_Acked := length toCommit\<rparr>, toCommit, map_option ConsumeRecord firstErr), s1)))"

definition ProcessAndMaybeAck ::
  "string option \<Rightarrow> kgo_record \<Rightarrow> bool \<Rightarrow> site \<Rightarrow> ((Result \<times> kgo_record list \<times> consume_error option) \<times> site) option" where
  "ProcessAndMaybeAck rnd r commitOK s =
     (case ProcessRecord False rnd (kr_Key r) (kr_Value r) (record_position r) s of
        None \<Rightarrow> None
      | Some ((res, err), s1) \<Rightarrow>
          if \<not> res_ShouldAck res then Some ((res, [], map_option ConsumeRecord err), s1)
          else if \<not> commitOK then Some ((res, [], Some ConsumeCommit), s1)
          else Some ((res, [r], map_option ConsumeRecord err), s1))"

section \<open>Reset\<close>

definition derivedLineageDeletes :: "lineage_table list" where
  "derivedLineageDeletes = [ShipmentTable, BatchTable, LotTable, SupplierTable]"

definition delete_from :: "(seshat_db \<Rightarrow> seshat_db) \<Rightarrow> string list \<Rightarrow> unit ptx" where
  "delete_from f ps = tx_stmt PlatDB ps (\<lambda>db. Inr ((), f db))"

primrec run_deletes :: "string list \<Rightarrow> (seshat_db \<Rightarrow> seshat_db) list \<Rightarrow> unit ptx" where
  "run_deletes ps [] = tx_return ()"
| "run_deletes ps (f # fs) = tx_bind (delete_from f ps) (\<lambda>_. run_deletes ps fs)"

definition reset_queries :: "(seshat_db \<Rightarrow> seshat_db) list" where
  "reset_queries =
     [\<lambda>db. db\<lparr>processing_failures := []\<rparr>, \<lambda>db. db\<lparr>inbox := []\<rparr>, \<lambda>db. db\<lparr>projection := []\<rparr>]
     @ map (\<lambda>tb. set_hop_rows tb []) derivedLineageDeletes"

definition ResetDerivedState :: "site \<Rightarrow> (platform_error + unit) \<times> site" where
  "ResetDerivedState = on_store (transact PlatDB PlatDB (\<lambda>_. run_deletes [] reset_queries))"

definition derivedLineageDeletesForTenant :: "string \<Rightarrow> (seshat_db \<Rightarrow> seshat_db) list" where
  "derivedLineageDeletesForTenant t =
     map (\<lambda>tb db. set_hop_rows tb (filter (\<lambda>h. hp_tenant h \<noteq> t) (hop_rows tb db)) db) derivedLineageDeletes"

definition tenant_reset_queries :: "string \<Rightarrow> (seshat_db \<Rightarrow> seshat_db) list" where
  "tenant_reset_queries t =
     [\<lambda>db. db\<lparr>processing_failures := filter (\<lambda>r. ft_tenant r \<noteq> Some t) (processing_failures db)\<rparr>,
      \<lambda>db. db\<lparr>inbox := filter (\<lambda>r. ib_tenant r \<noteq> t) (inbox db)\<rparr>,
      \<lambda>db. db\<lparr>projection := filter (\<lambda>r. pr_tenant r \<noteq> t) (projection db)\<rparr>]
     @ derivedLineageDeletesForTenant t"

definition ResetDerivedStateForTenant :: "string \<Rightarrow> site \<Rightarrow> (platform_error + unit) \<times> site" where
  "ResetDerivedStateForTenant tenantID s =
     (if tenantID = [] then (Inl PlatArgument, s)
      else on_store (transact PlatDB PlatDB (\<lambda>_. run_deletes [tenantID] (tenant_reset_queries tenantID))) s)"

section \<open>Replaying a history\<close>

record HistoryRecord =
  hr_Key :: string
  hr_Value :: string
  hr_Pos :: SourcePosition

datatype RebuildStatus = RebuildStatusComplete | RebuildStatusIncomplete

datatype reason =
    EmptyHistory | ReplayParse nat event_error | NonAckFailure nat platform_error | QuarantineDisposition nat disposition
  | MissingDisposition nat | ResidualGaps nat | FailureRows nat | MissingTenant

record ReproductionMetadata =
  rm_Seed :: string
  rm_EventContractVersion :: int
  rm_HandlerVersion :: string
  rm_Commit :: string
  rm_BrokerTopic :: string
  rm_BrokerPartitionMin :: int
  rm_BrokerPartitionMax :: int
  rm_BrokerOffsetMin :: int
  rm_BrokerOffsetMax :: int
  rm_ChecksumInputs :: string
  rm_Checksum :: string
  rm_RebuildStatus :: "RebuildStatus option"
  rm_Limitations :: string

record RebuildResult =
  rr_Status :: "RebuildStatus option"
  rr_Checksum :: string
  rr_LineageChecksum :: string
  rr_Applied :: nat
  rr_DuplicateNoop :: nat
  rr_Quarantined :: nat
  rr_Failures :: nat
  rr_IncompleteReasons :: "reason list"
  rr_Metadata :: ReproductionMetadata
  rr_Dispositions :: "disposition option list"

definition HandlerVersion :: string where "HandlerVersion = ''m1-inventory-projection-v1''"

definition checksum_inputs :: string where
  "checksum_inputs =
     ''tenant inventory_projection rows: tenant_id, item_id, quantity_on_hand, aggregate_version (CONTRACTS.md '' @
     [CHR 0xC2, CHR 0xA7] @ ''8)''"

definition rebuild_limitations :: string where
  "rebuild_limitations =
     ''Local library rebuild only; not a hosted FC-014 campaign; not Identity & Operations operator recovery or Traceability & Recovery backup/restore.''"

definition replay_limitations :: string where
  "replay_limitations =
     ''Tenant-scoped operator replay/rebuild; not Traceability & Recovery backup/restore; not a hosted FC-014 campaign.''"

definition empty_metadata :: ReproductionMetadata where
  "empty_metadata = \<lparr>rm_Seed = [], rm_EventContractVersion = 0, rm_HandlerVersion = [], rm_Commit = [], rm_BrokerTopic = [],
     rm_BrokerPartitionMin = 0, rm_BrokerPartitionMax = 0, rm_BrokerOffsetMin = 0, rm_BrokerOffsetMax = 0,
     rm_ChecksumInputs = [], rm_Checksum = [], rm_RebuildStatus = None, rm_Limitations = []\<rparr>"

definition empty_rebuild :: RebuildResult where
  "empty_rebuild = \<lparr>rr_Status = None, rr_Checksum = [], rr_LineageChecksum = [], rr_Applied = 0,
     rr_DuplicateNoop = 0, rr_Quarantined = 0, rr_Failures = 0, rr_IncompleteReasons = [], rr_Metadata = empty_metadata, rr_Dispositions = []\<rparr>"

definition start_result :: "ReproductionMetadata \<Rightarrow> RebuildResult" where
  "start_result md = empty_rebuild\<lparr>rr_Status := Some RebuildStatusComplete, rr_Metadata := md\<rparr>"

definition incomplete :: "reason \<Rightarrow> RebuildResult \<Rightarrow> RebuildResult" where
  "incomplete why out =
     out\<lparr>rr_Status := Some RebuildStatusIncomplete, rr_IncompleteReasons := rr_IncompleteReasons out @ [why]\<rparr>"

definition stamp :: "RebuildResult \<Rightarrow> RebuildResult" where
  "stamp out = out\<lparr>rr_Metadata := (rr_Metadata out)\<lparr>rm_RebuildStatus := rr_Status out\<rparr>\<rparr>"

definition range_from :: "SourcePosition \<Rightarrow> RebuildResult \<Rightarrow> RebuildResult" where
  "range_from pos out =
     out\<lparr>rr_Metadata := (rr_Metadata out)\<lparr>rm_BrokerPartitionMin := sp_Partition pos, rm_BrokerPartitionMax := sp_Partition pos,
           rm_BrokerOffsetMin := sp_Offset pos, rm_BrokerOffsetMax := sp_Offset pos\<rparr>\<rparr>"

definition widen :: "SourcePosition \<Rightarrow> RebuildResult \<Rightarrow> RebuildResult" where
  "widen pos out =
     (let md = rr_Metadata out in
      out\<lparr>rr_Metadata := md\<lparr>rm_BrokerPartitionMin := min (rm_BrokerPartitionMin md) (sp_Partition pos),
            rm_BrokerPartitionMax := max (rm_BrokerPartitionMax md) (sp_Partition pos),
            rm_BrokerOffsetMin := min (rm_BrokerOffsetMin md) (sp_Offset pos),
            rm_BrokerOffsetMax := max (rm_BrokerOffsetMax md) (sp_Offset pos)\<rparr>\<rparr>)"

text \<open>The \<^verbatim>\<open>switch res.Disposition\<close>, the same in both replay loops.\<close>

definition tally :: "nat \<Rightarrow> Result \<Rightarrow> RebuildResult \<Rightarrow> RebuildResult" where
  "tally i res out0 =
     (let out = out0\<lparr>rr_Dispositions := rr_Dispositions out0 @ [res_Disposition res]\<rparr> in
      case res_Disposition res of
        Some DispositionApplied \<Rightarrow> out\<lparr>rr_Applied := rr_Applied out + 1\<rparr>
      | Some DispositionDuplicateNoop \<Rightarrow> out\<lparr>rr_DuplicateNoop := rr_DuplicateNoop out + 1\<rparr>
      | Some DispositionQuarantinedGap \<Rightarrow> out\<lparr>rr_Quarantined := rr_Quarantined out + 1\<rparr>
      | Some d \<Rightarrow> incomplete (QuarantineDisposition i d) (out\<lparr>rr_Quarantined := rr_Quarantined out + 1\<rparr>)
      | None \<Rightarrow> incomplete (MissingDisposition i) (out\<lparr>rr_Failures := rr_Failures out + 1\<rparr>))"

type_synonym rebuild_outcome = "RebuildResult \<times> platform_error option"

text \<open>\<open>Inl\<close> is a return from inside the loop.\<close>

fun rebuild_loop ::
  "(nat \<Rightarrow> string option) \<Rightarrow> nat \<Rightarrow> HistoryRecord list \<Rightarrow> RebuildResult \<Rightarrow> site \<Rightarrow>
   ((rebuild_outcome + RebuildResult) \<times> site) option" where
  "rebuild_loop rnd i [] out s = Some (Inr out, s)"
| "rebuild_loop rnd i (rec # recs) out0 s =
     (let pos = with_topic (hr_Pos rec); out = widen pos out0 in
      case ProcessRecord False (rnd i) (hr_Key rec) (hr_Value rec) pos s of
        None \<Rightarrow> None
      | Some ((res, err), s1) \<Rightarrow>
          if err \<noteq> None \<and> \<not> res_ShouldAck res
          then Some (Inl (stamp (incomplete (NonAckFailure i (the err)) out), err), s1)
          else rebuild_loop rnd (i + 1) recs (tally i res out) s1)"

definition count_query :: "string list \<Rightarrow> (seshat_db \<Rightarrow> nat) \<Rightarrow> site \<Rightarrow> (platform_error + nat) \<times> site" where
  "count_query ps q = on_store (query_auto PlatDB ps (\<lambda>_. q))"

text \<open>The counts after the loop: residual gaps, then failure rows.\<close>

definition residual_counts ::
  "string list \<Rightarrow> (seshat_db \<Rightarrow> nat) \<Rightarrow> (seshat_db \<Rightarrow> nat) \<Rightarrow> RebuildResult \<Rightarrow> site \<Rightarrow> (rebuild_outcome + RebuildResult) \<times> site" where
  "residual_counts ps gaps fails out s =
     (case count_query ps gaps s of
        (Inl e, s1) \<Rightarrow> (Inl (out, Some e), s1)
      | (Inr n, s1) \<Rightarrow>
          (let out = (if n > 0 then incomplete (ResidualGaps n) out else out) in
           case count_query ps fails s1 of
             (Inl e, s2) \<Rightarrow> (Inl (out, Some e), s2)
           | (Inr m, s2) \<Rightarrow>
               (Inr (if m > 0 then incomplete (FailureRows m) (out\<lparr>rr_Failures := m\<rparr>) else out), s2)))"

definition assignTenantChecksums :: "string \<Rightarrow> RebuildResult \<Rightarrow> site \<Rightarrow> rebuild_outcome \<times> site" where
  "assignTenantChecksums tenantID out s =
     (case ChecksumTenant tenantID s of
        (Inl e, s1) \<Rightarrow> ((out, Some e), s1)
      | (Inr csum, s1) \<Rightarrow>
          (case ChecksumLineage tenantID s1 of
             (Inl e, s2) \<Rightarrow> ((out, Some e), s2)
           | (Inr lin, s2) \<Rightarrow>
               ((out\<lparr>rr_Checksum := csum, rr_LineageChecksum := lin,
                     rr_Metadata := (rr_Metadata out)\<lparr>rm_Checksum := csum\<rparr>\<rparr>, None), s2)))"

definition stamped :: "rebuild_outcome \<times> site \<Rightarrow> rebuild_outcome \<times> site" where
  "stamped p = (case p of ((out, None), s) \<Rightarrow> ((stamp out, None), s) | ((out, Some e), s) \<Rightarrow> ((out, Some e), s))"

record RebuildOptions =
  ro_TenantID :: string
  ro_ResetFirst :: bool
  ro_Metadata :: ReproductionMetadata

definition default_to :: "string \<Rightarrow> string \<Rightarrow> string" where
  "default_to d v = (if v = [] then d else v)"

definition fill_metadata :: "ReproductionMetadata \<Rightarrow> ReproductionMetadata" where
  "fill_metadata md =
     md\<lparr>rm_HandlerVersion := default_to HandlerVersion (rm_HandlerVersion md),
        rm_EventContractVersion := (if rm_EventContractVersion md = 0 then SchemaVersionV1 else rm_EventContractVersion md),
        rm_Seed := default_to DefaultSeed (rm_Seed md), rm_BrokerTopic := default_to Topic (rm_BrokerTopic md),
        rm_ChecksumInputs := default_to checksum_inputs (rm_ChecksumInputs md),
        rm_Limitations := default_to rebuild_limitations (rm_Limitations md)\<rparr>"

definition all_gaps :: "seshat_db \<Rightarrow> nat" where
  "all_gaps db = length (filter (\<lambda>r. ib_consumer r = ConsumerName \<and> ib_disposition r = DispositionQuarantinedGap) (inbox db))"

definition all_failures :: "seshat_db \<Rightarrow> nat" where
  "all_failures db = length (filter (\<lambda>r. ft_consumer r = ConsumerName) (processing_failures db))"

definition rebuild_records ::
  "(nat \<Rightarrow> string option) \<Rightarrow> HistoryRecord list \<Rightarrow> RebuildOptions \<Rightarrow> site \<Rightarrow> (rebuild_outcome \<times> site) option" where
  "rebuild_records rnd records opts s =
     (let out = start_result (fill_metadata (ro_Metadata opts)) in
      case records of
        [] \<Rightarrow> Some ((stamp (incomplete EmptyHistory out), None), s)
      | r # _ \<Rightarrow>
          (case rebuild_loop rnd 0 records (range_from (hr_Pos r) out) s of
             None \<Rightarrow> None
           | Some (Inl ret, s1) \<Rightarrow> Some (ret, s1)
           | Some (Inr out, s1) \<Rightarrow>
               (case residual_counts [ConsumerName] all_gaps all_failures out s1 of
                  (Inl ret, s2) \<Rightarrow> Some (ret, s2)
                | (Inr out, s2) \<Rightarrow>
                    (let tenantID = trim_space (ro_TenantID opts) in
                     if tenantID = [] then Some ((stamp (incomplete MissingTenant out), None), s2)
                     else Some (stamped (assignTenantChecksums tenantID out s2))))))"

definition RebuildFromHistory ::
  "(nat \<Rightarrow> string option) \<Rightarrow> HistoryRecord list \<Rightarrow> RebuildOptions \<Rightarrow> site \<Rightarrow> (rebuild_outcome \<times> site) option" where
  "RebuildFromHistory rnd records opts s =
     (if ro_ResetFirst opts then
        (case ResetDerivedState s of
           (Inl e, s1) \<Rightarrow> Some ((empty_rebuild, Some e), s1)
         | (Inr _, s1) \<Rightarrow> rebuild_records rnd records opts s1)
      else rebuild_records rnd records opts s)"


section \<open>Tenant controls\<close>

definition OperatorReplayPartition :: int where "OperatorReplayPartition = 1"

text \<open>A call of package \<^verbatim>\<open>relay\<close> on the same database.\<close>

definition on_erp :: "(erp_db world \<Rightarrow> 'r \<times> erp_db world) \<Rightarrow> seshat_db world \<Rightarrow> 'r \<times> seshat_db world" where
  "on_erp f w =
     (case f \<lparr>durable = erp (durable w), clock = clock w, ticks = ticks w, stmt_faults = stmt_faults w, commits = commits w\<rparr> of
        (r, we) \<Rightarrow> (r, \<lparr>durable = (durable w)\<lparr>erp := durable we\<rparr>, clock = clock we, ticks = ticks we,
                        stmt_faults = stmt_faults we, commits = commits we\<rparr>))"

text \<open>\<^verbatim>\<open>ORDER BY aggregate_id, aggregate_version, recorded_at, event_id\<close>.\<close>

definition history_before :: "(string \<Rightarrow> string \<Rightarrow> bool) \<Rightarrow> outbox_row \<Rightarrow> outbox_row \<Rightarrow> bool" where
  "history_before coll a b =
     (if ob_aid a \<noteq> ob_aid b then coll (ob_aid a) (ob_aid b)
      else if ob_version a \<noteq> ob_version b then ob_version a < ob_version b
      else if ob_recorded a \<noteq> ob_recorded b then ob_recorded a < ob_recorded b
      else coll (ob_event a) (ob_event b))"

fun scan_history :: "string \<Rightarrow> int \<Rightarrow> outbox_row list \<Rightarrow> platform_error + HistoryRecord list" where
  "scan_history tenantID offset [] = Inr []"
| "scan_history tenantID offset (r # rs) =
     (if ob_tenant r \<noteq> tenantID then Inl ErrHistoryTenantMismatch
      else (case Parse (ob_bytes r) of
              Inl e \<Rightarrow> Inl (PlatEvent e)
            | Inr env \<Rightarrow>
                if TenantID env \<noteq> tenantID then Inl ErrHistoryTenantMismatch
                else bind_err (scan_history tenantID (offset + 1) rs) (\<lambda>out.
                  Inr (\<lparr>hr_Key = AggregateKey (TenantID env) (AggregateType env) (AggregateID env), hr_Value = ob_bytes r,
                        hr_Pos = \<lparr>sp_Topic = Topic, sp_Partition = OperatorReplayPartition, sp_Offset = offset + 1\<rparr>\<rparr> # out))))"

definition history_rows :: "(string \<Rightarrow> string \<Rightarrow> bool) \<Rightarrow> string \<Rightarrow> string \<Rightarrow> erp_db \<Rightarrow> outbox_row list" where
  "history_rows coll tenantID eventID db =
     isort (history_before coll) (filter (\<lambda>r. ob_tenant r = tenantID \<and> (eventID = [] \<or> ob_event r = eventID)) (outbox db))"

definition LoadTenantOutboxHistory ::
  "(string \<Rightarrow> string \<Rightarrow> bool) \<Rightarrow> string \<Rightarrow> string \<Rightarrow> site \<Rightarrow> (platform_error + HistoryRecord list) \<times> site" where
  "LoadTenantOutboxHistory coll tenantID eventID s =
     (if tenantID = [] then (Inl PlatArgument, s)
      else
        (case on_store (query_auto PlatDB (tenantID # (if eventID = [] then [] else [eventID]))
                (\<lambda>_ db. history_rows coll tenantID eventID (erp db))) s of
           (Inl e, s1) \<Rightarrow> (Inl e, s1)
         | (Inr rows, s1) \<Rightarrow> (scan_history tenantID 0 rows, s1)))"

definition operator_position :: "SourcePosition \<Rightarrow> SourcePosition" where
  "operator_position pos0 =
     (let pos = with_topic pos0 in
      if sp_Partition pos = 0 then pos\<lparr>sp_Partition := OperatorReplayPartition\<rparr> else pos)"

fun replay_loop ::
  "(nat \<Rightarrow> string option) \<Rightarrow> string \<Rightarrow> nat \<Rightarrow> HistoryRecord list \<Rightarrow> RebuildResult \<Rightarrow> site \<Rightarrow>
   ((rebuild_outcome + RebuildResult) \<times> site) option" where
  "replay_loop rnd tenantID i [] out s = Some (Inr out, s)"
| "replay_loop rnd tenantID i (rec # recs) out0 s =
     (let pos = operator_position (hr_Pos rec); out = widen pos out0 in
      case Parse (hr_Value rec) of
        Inl e \<Rightarrow> Some (Inl (stamp (incomplete (ReplayParse i e) out), None), s)
      | Inr env \<Rightarrow>
          if TenantID env \<noteq> tenantID then Some (Inl (empty_rebuild, Some ErrHistoryTenantMismatch), s)
          else
            (case ProcessRecord False (rnd i) (hr_Key rec) (hr_Value rec) pos s of
               None \<Rightarrow> None
             | Some ((res, err), s1) \<Rightarrow>
                 if err \<noteq> None \<and> \<not> res_ShouldAck res
                 then Some (Inl (stamp (incomplete (NonAckFailure i (the err)) out), err), s1)
                 else replay_loop rnd tenantID (i + 1) recs (tally i res out) s1))"

definition tenant_gaps :: "string \<Rightarrow> seshat_db \<Rightarrow> nat" where
  "tenant_gaps t db =
     length (filter (\<lambda>r. ib_consumer r = ConsumerName \<and> ib_tenant r = t \<and> ib_disposition r = DispositionQuarantinedGap) (inbox db))"

definition tenant_failures :: "string \<Rightarrow> seshat_db \<Rightarrow> nat" where
  "tenant_failures t db = length (filter (\<lambda>r. ft_consumer r = ConsumerName \<and> ft_tenant r = Some t) (processing_failures db))"

definition replay_metadata :: ReproductionMetadata where
  "replay_metadata = empty_metadata\<lparr>rm_HandlerVersion := HandlerVersion, rm_EventContractVersion := SchemaVersionV1,
     rm_BrokerTopic := Topic, rm_ChecksumInputs := checksum_inputs, rm_Limitations := replay_limitations\<rparr>"

definition replayTenantRecords ::
  "(nat \<Rightarrow> string option) \<Rightarrow> string \<Rightarrow> HistoryRecord list \<Rightarrow> site \<Rightarrow> (rebuild_outcome \<times> site) option" where
  "replayTenantRecords rnd tenantID records s =
     (let out = start_result replay_metadata in
      case records of
        [] \<Rightarrow> Some ((stamp (incomplete EmptyHistory out), None), s)
      | r # _ \<Rightarrow>
          (case replay_loop rnd tenantID 0 records (range_from (hr_Pos r) out) s of
             None \<Rightarrow> None
           | Some (Inl ret, s1) \<Rightarrow> Some (ret, s1)
           | Some (Inr out, s1) \<Rightarrow>
               (case residual_counts [ConsumerName, tenantID] (tenant_gaps tenantID) (tenant_failures tenantID) out s1 of
                  (Inl ret, s2) \<Rightarrow> Some (ret, s2)
                | (Inr out, s2) \<Rightarrow> Some (stamped (assignTenantChecksums tenantID out s2)))))"

definition ReplayTenantHistory ::
  "(string \<Rightarrow> string \<Rightarrow> bool) \<Rightarrow> (nat \<Rightarrow> string option) \<Rightarrow> string \<Rightarrow> string \<Rightarrow> site \<Rightarrow> (rebuild_outcome \<times> site) option" where
  "ReplayTenantHistory coll rnd tenantID eventID s =
     (case LoadTenantOutboxHistory coll tenantID eventID s of
        (Inl e, s1) \<Rightarrow> Some ((empty_rebuild, Some e), s1)
      | (Inr records, s1) \<Rightarrow>
          if eventID \<noteq> [] \<and> records = [] then Some ((empty_rebuild, Some ErrControlNotFound), s1)
          else replayTenantRecords rnd tenantID records s1)"

definition RebuildTenantFromHistory ::
  "(string \<Rightarrow> string \<Rightarrow> bool) \<Rightarrow> (nat \<Rightarrow> string option) \<Rightarrow> string \<Rightarrow> site \<Rightarrow> (rebuild_outcome \<times> site) option" where
  "RebuildTenantFromHistory coll rnd tenantID s =
     (case ResetDerivedStateForTenant tenantID s of
        (Inl e, s1) \<Rightarrow> Some ((empty_rebuild, Some e), s1)
      | (Inr _, s1) \<Rightarrow>
          (case LoadTenantOutboxHistory coll tenantID [] s1 of
             (Inl e, s2) \<Rightarrow> Some ((empty_rebuild, Some e), s2)
           | (Inr records, s2) \<Rightarrow> replayTenantRecords rnd tenantID records s2))"

definition inboxDispositionForTenant :: "string \<Rightarrow> string \<Rightarrow> site \<Rightarrow> (platform_error + disposition option) \<times> site" where
  "inboxDispositionForTenant tenantID eventID =
     on_store (query_auto PlatDB [ConsumerName, eventID, tenantID] (\<lambda>_ db.
       map_option ib_disposition
         (find (\<lambda>r. ib_consumer r = ConsumerName \<and> ib_event r = eventID \<and> ib_tenant r = tenantID) (inbox db))))"

definition hasQuarantinedFailure :: "string \<Rightarrow> string \<Rightarrow> site \<Rightarrow> (platform_error + bool) \<times> site" where
  "hasQuarantinedFailure tenantID eventID =
     on_store (query_auto PlatDB [ConsumerName, eventID, tenantID] (\<lambda>_ db.
       length (filter (\<lambda>r. ft_consumer r = ConsumerName \<and> ft_event r = Some eventID \<and> ft_tenant r = Some tenantID \<and>
                         ft_status r = FailureQuarantined) (processing_failures db)) > 0))"

definition isTerminalInboxQuarantine :: "disposition \<Rightarrow> bool" where
  "isTerminalInboxQuarantine disp \<longleftrightarrow>
     disp \<in> {DispositionQuarantinedGap, DispositionQuarantinedConflict, DispositionQuarantinedStale,
             DispositionQuarantinedInvalid, DispositionQuarantinedMismatch, DispositionQuarantinedTransition}"

definition release_failure ::
  "(string \<Rightarrow> string \<Rightarrow> bool) \<Rightarrow> string option \<Rightarrow> string \<Rightarrow> string \<Rightarrow> site \<Rightarrow> (platform_error option \<times> site) option" where
  "release_failure coll rnd tenantID eventID s =
     (case hasQuarantinedFailure tenantID eventID s of
        (Inl e, s1) \<Rightarrow> Some (Some e, s1)
      | (Inr False, s1) \<Rightarrow> Some (Some ErrControlNotFound, s1)
      | (Inr True, s1) \<Rightarrow>
          (case LoadTenantOutboxHistory coll tenantID eventID s1 of
             (Inl e, s2) \<Rightarrow> Some (Some e, s2)
           | (Inr [r], s2) \<Rightarrow>
               (case ProcessRecord False rnd (hr_Key r) (hr_Value r) (hr_Pos r) s2 of
                  None \<Rightarrow> None
                | Some ((res, err), s3) \<Rightarrow> Some (err, s3))
           | (Inr _, s2) \<Rightarrow> Some (Some ErrNotReleasable, s2)))"

definition ReleaseTenantQuarantine ::
  "(string \<Rightarrow> string \<Rightarrow> bool) \<Rightarrow> string option \<Rightarrow> string \<Rightarrow> string \<Rightarrow> site \<Rightarrow> (platform_error option \<times> site) option" where
  "ReleaseTenantQuarantine coll rnd tenantID eventID s =
     (if tenantID = [] \<or> eventID = [] then Some (Some ErrControlNotFound, s)
      else
        (case inboxDispositionForTenant tenantID eventID s of
           (Inl e, s1) \<Rightarrow> Some (Some e, s1)
         | (Inr found, s1) \<Rightarrow>
             if (case found of Some disp \<Rightarrow> isTerminalInboxQuarantine disp | None \<Rightarrow> False)
             then Some (Some ErrNotReleasable, s1)
             else
               (case on_store (on_erp (ReleaseQuarantined tenantID eventID)) s1 of
                  (Inr _, s2) \<Rightarrow> Some (None, s2)
                | (Inl e, s2) \<Rightarrow>
                    if e \<noteq> ErrQuarantineNotFound then Some (Some (PlatRelay e), s2)
                    else release_failure coll rnd tenantID eventID s2)))"

end
