(* ===== verification/Platform_Tracking.thy ===== *)
theory Platform_Tracking
  imports Platform_Controls
begin

text \<open>
  The invariant of the projection consumer.

  A \<open>history\<close> is a set of events as the source emits them. \<open>tracks H db\<close> says that inbox, projection and
  lineage tables are what consuming events of \<open>H\<close> can leave behind. The lemmas follow one transaction of
  \<^verbatim>\<open>processValidated\<close> through every branch (\<open>took\<close>) and show that the re-drive loop returns.
\<close>

section \<open>Tables with keys\<close>

lemma find_key:
  assumes "distinct (map f xs)" shows "find (\<lambda>x. f x = k) xs = Some x \<longleftrightarrow> x \<in> set xs \<and> f x = k"
  using assms
proof (induction xs)
  case (Cons y ys)
  show ?case
  proof (cases "f y = k")
    case True
    with Cons.prems have "k \<notin> f ` set ys" by auto
    then have "x \<in> set ys \<Longrightarrow> f x = k \<Longrightarrow> False" by blast
    with True show ?thesis by auto
  next
    case False
    with Cons show ?thesis by auto
  qed
qed simp

lemma find_key_None: "find (\<lambda>x. f x = k) xs = None \<longleftrightarrow> k \<notin> f ` set xs"
  by (auto simp: find_None_iff)

lemma find_append1:
  "find P (xs @ [y]) = (case find P xs of Some x \<Rightarrow> Some x | None \<Rightarrow> if P y then Some y else None)"
  by (induction xs) auto

lemma find_key_map:
  assumes "\<And>x. f x = j \<Longrightarrow> f (g x) = j"
  shows "find (\<lambda>x. f x = k) (map (\<lambda>x. if f x = j then g x else x) xs) =
    (if k = j then map_option g (find (\<lambda>x. f x = k) xs) else find (\<lambda>x. f x = k) xs)"
  using assms by (induction xs) auto

lemma map_key_map:
  assumes "\<And>x. f x = j \<Longrightarrow> f (g x) = j" shows "map f (map (\<lambda>x. if f x = j then g x else x) xs) = map f xs"
  using assms by auto

lemma hop_rows_update [simp]:
  "hop_rows tb (db\<lparr>erp := e\<rparr>) = hop_rows tb db" "hop_rows tb (db\<lparr>inbox := i\<rparr>) = hop_rows tb db"
  "hop_rows tb (db\<lparr>projection := p\<rparr>) = hop_rows tb db" "hop_rows tb (db\<lparr>processing_failures := f\<rparr>) = hop_rows tb db"
  by (cases tb; simp)+

lemma set_hop_rows_simps [simp]:
  "hop_rows tb (set_hop_rows tb' rs db) = (if tb = tb' then rs else hop_rows tb db)"
  "erp (set_hop_rows tb' rs db) = erp db" "inbox (set_hop_rows tb' rs db) = inbox db"
  "projection (set_hop_rows tb' rs db) = projection db"
  "processing_failures (set_hop_rows tb' rs db) = processing_failures db"
  by (cases tb'; cases tb; simp)+

text \<open>The inbox holds rows of this consumer, one per event; the projection one row per item.\<close>

definition keyed :: "seshat_db \<Rightarrow> bool" where
  "keyed db \<longleftrightarrow> list_all (\<lambda>r. ib_consumer r = ConsumerName) (inbox db) \<and> distinct (map ib_event (inbox db)) \<and>
     distinct (map (\<lambda>p. (pr_tenant p, pr_item p)) (projection db)) \<and> (\<forall>tb. distinct (hop_rows tb db))"

lemma find_inbox_keyed:
  assumes "keyed db" shows "find_inbox db e = find (\<lambda>r. ib_event r = e) (inbox db)"
  unfolding find_inbox_def using assms by (intro find_cong) (auto simp: keyed_def list_all_iff)

lemma find_inbox_iff:
  assumes "keyed db" shows "find_inbox db e = Some r \<longleftrightarrow> r \<in> set (inbox db) \<and> ib_event r = e"
  unfolding find_inbox_keyed [OF assms] using assms by (intro find_key) (simp add: keyed_def)

lemma find_projection_pair:
  "find_projection db t i = find (\<lambda>p. (pr_tenant p, pr_item p) = (t, i)) (projection db)"
  by (simp add: find_projection_def)

lemma find_projection_iff:
  assumes "keyed db"
  shows "find_projection db t i = Some p \<longleftrightarrow> p \<in> set (projection db) \<and> pr_tenant p = t \<and> pr_item p = i"
proof -
  have "distinct (map (\<lambda>p. (pr_tenant p, pr_item p)) (projection db))" using assms by (simp add: keyed_def)
  from find_key [OF this, of "(t, i)" p] show ?thesis by (simp add: find_projection_pair)
qed

definition stored_inbox :: "int \<Rightarrow> inboxRow \<Rightarrow> inbox_row option \<Rightarrow> inbox_row" where
  "stored_inbox now row old = (case old of None \<Rightarrow> new_inbox now row | Some r \<Rightarrow> merge_inbox r (new_inbox now row))"

text \<open>An upsert shows only in the inbox.\<close>

definition inbox_only :: "seshat_db \<Rightarrow> seshat_db \<Rightarrow> bool" where
  "inbox_only db db' \<longleftrightarrow> db' = db\<lparr>inbox := inbox db'\<rparr>"

lemma inbox_onlyD:
  assumes "inbox_only db db'"
  shows "erp db' = erp db" "find_projection db' = find_projection db" "hop_rows tb db' = hop_rows tb db"
    "processing_failures db' = processing_failures db" "projection db' = projection db"
proof -
  from assms obtain x where db': "db' = db\<lparr>inbox := x\<rparr>" by (auto simp: inbox_only_def)
  then show "erp db' = erp db" "find_projection db' = find_projection db" "hop_rows tb db' = hop_rows tb db"
    "processing_failures db' = processing_failures db" "projection db' = projection db"
    by (simp_all add: find_projection_def fun_eq_iff)
qed

lemma put_inbox_lookup:
  assumes put: "put_inbox now row db = Inr (u, db')" and k: "keyed db"
  shows "keyed db' \<and> inbox_only db db' \<and>
    find_inbox db' = (find_inbox db)(ir_EventID row := Some (stored_inbox now row (find_inbox db (ir_EventID row))))"
proof -
  let ?e = "ir_EventID row" and ?n = "new_inbox now row"
  have n: "ib_event ?n = ?e" "ib_consumer ?n = ConsumerName" by (simp_all add: new_inbox_def)
  have m: "ib_event (merge_inbox r ?n) = ?e" "ib_consumer (merge_inbox r ?n) = ConsumerName" for r
    by (simp_all add: merge_inbox_def n)
  have rows: "list_all (\<lambda>r. ib_consumer r = ConsumerName) (inbox db)" "distinct (map ib_event (inbox db))"
    using k by (simp_all add: keyed_def)
  show ?thesis
  proof (cases "find_inbox db ?e")
    case None
    then have db': "db' = db\<lparr>inbox := inbox db @ [?n]\<rparr>" using put by (auto simp: put_inbox_def split: if_splits)
    have "?e \<notin> ib_event ` set (inbox db)" using None unfolding find_inbox_keyed [OF k] find_key_None .
    then have k': "keyed db'" using k n by (simp add: keyed_def db')
    moreover have "find_inbox db' = (find_inbox db)(?e := Some ?n)"
      using None unfolding find_inbox_keyed [OF k'] find_inbox_keyed [OF k] fun_eq_iff
      by (auto simp: db' find_append1 n split: option.split)
    ultimately show ?thesis by (simp add: None stored_inbox_def inbox_only_def db')
  next
    case (Some r)
    have eq: "map (\<lambda>r. if ib_consumer r = ConsumerName \<and> ib_event r = ?e then merge_inbox r ?n else r) (inbox db) =
        map (\<lambda>r. if ib_event r = ?e then merge_inbox r ?n else r) (inbox db)"
      using rows(1) by (intro map_cong) (auto simp: list_all_iff)
    have db': "db' = db\<lparr>inbox := map (\<lambda>r. if ib_event r = ?e then merge_inbox r ?n else r) (inbox db)\<rparr>"
      using put Some unfolding put_inbox_def eq by (auto split: if_splits)
    have "map ib_event (inbox db') = map ib_event (inbox db)" unfolding db' using m by simp
    moreover have "list_all (\<lambda>r. ib_consumer r = ConsumerName) (inbox db')"
      using rows(1) m by (auto simp: db' list_all_iff)
    moreover have "projection db' = projection db" "hop_rows tb db' = hop_rows tb db" for tb by (simp_all add: db')
    ultimately have k': "keyed db'" using k unfolding keyed_def by simp
    moreover have "find_inbox db' = (find_inbox db)(?e := Some (merge_inbox r ?n))"
      using Some unfolding find_inbox_keyed [OF k'] find_inbox_keyed [OF k] fun_eq_iff
      by (simp add: db' find_key_map m)
    ultimately show ?thesis by (simp add: Some stored_inbox_def inbox_only_def db')
  qed
qed

section \<open>The two kinds of events\<close>

definition stock_event :: "envelope \<Rightarrow> bool" where
  "stock_event env \<longleftrightarrow> EventType env = EventTypeQuantityDecremented"

definition event_before :: "envelope \<Rightarrow> int" where
  "event_before env = (case AsQuantityDecremented env of None \<Rightarrow> 0 | Some p \<Rightarrow> qd_QuantityBefore p)"

definition event_after :: "envelope \<Rightarrow> int" where
  "event_after env = (case AsQuantityDecremented env of None \<Rightarrow> 0 | Some p \<Rightarrow> qd_QuantityAfter p)"

definition item_event :: "string \<Rightarrow> string \<Rightarrow> int \<Rightarrow> envelope \<Rightarrow> bool" where
  "item_event t i v env \<longleftrightarrow> stock_event env \<and> TenantID env = t \<and> AggregateID env = i \<and> AggregateVersion env = v"

lemma stock_payload:
  assumes "valid_envelope env" "stock_event env"
  obtains p where "AsQuantityDecremented env = Some p" "Payload env = Some (QuantityDecremented p)"
    "wrap64 (qd_QuantityBefore p - qd_QuantityDecremented p) = qd_QuantityAfter p"
    "qd_QuantityBefore p = event_before env" "qd_QuantityAfter p = event_after env" "0 \<le> qd_QuantityAfter p"
    "AggregateType env = AggregateTypeInventoryItem" "qd_ItemID p = AggregateID env" "envelope_hop env = None"
proof -
  from assms obtain pl where pl: "Payload env = Some pl" "valid_payload pl EventTypeQuantityDecremented (AggregateID env)"
    "AggregateType env = payload_aggregate pl"
    by (auto simp: valid_envelope_def stock_event_def split: option.splits)
  then obtain p where "pl = QuantityDecremented p" by (cases pl) auto
  with pl assms(2) show thesis
    using quantity_arith [of "qd_QuantityBefore p" "qd_QuantityDecremented p" "qd_QuantityAfter p"]
    by (intro that [of p])
      (auto simp: AsQuantityDecremented_def event_before_def event_after_def envelope_hop_def stock_event_def)
qed

lemma lineage_payload:
  assumes "valid_envelope env" "\<not> stock_event env"
  obtains tb h where "envelope_hop env = Some (tb, h)" "lineage_table_of (EventType env) = Some tb"
    "hp_tenant h = TenantID env" "hp_id h = AggregateID env" "hp_version h = AggregateVersion env"
    "hp_event h = EventID env" "projectionSelfID env = Some (AggregateID env)" "AggregateType env \<noteq> AggregateTypeInventoryItem"
proof -
  from assms obtain pl where pl: "Payload env = Some pl" "valid_payload pl (EventType env) (AggregateID env)"
    "AggregateType env = payload_aggregate pl"
    by (auto simp: valid_envelope_def split: option.splits)
  show thesis
  proof (cases pl)
    case (QuantityDecremented p)
    with pl assms(2) show ?thesis by (simp add: stock_event_def)
  next
    case (SupplierRegistered p)
    with pl show ?thesis
      by (intro that [of SupplierTable "hop_of env (sr_SupplierID p) [] [] []"])
        (auto simp: envelope_hop_def AsSupplierRegistered_def lineage_table_of_def hop_of_def projectionSelfID_def)
  next
    case (IngredientLotReceived p)
    with pl show ?thesis
      by (intro that [of LotTable "hop_of env (il_LotID p) (il_SupplierID p) (il_ItemID p) []"])
        (auto simp: envelope_hop_def AsIngredientLotReceived_def lineage_table_of_def hop_of_def projectionSelfID_def)
  next
    case (ProductionBatchProduced p)
    with pl show ?thesis
      by (intro that [of BatchTable "hop_of env (pb_BatchID p) (pb_LotID p) [] []"])
        (auto simp: envelope_hop_def AsProductionBatchProduced_def lineage_table_of_def hop_of_def projectionSelfID_def)
  next
    case (ShipmentDispatched p)
    with pl show ?thesis
      by (intro that [of ShipmentTable "hop_of env (sd_ShipmentID p) (sd_BatchID p) [] (sd_OrderID p)"])
        (auto simp: envelope_hop_def AsShipmentDispatched_def lineage_table_of_def hop_of_def projectionSelfID_def)
  qed
qed

lemma event_family:
  assumes "valid_envelope env"
  shows "isProjectionFamily (EventType env)" "projectionSelfID env = Some (AggregateID env)"
    "applyEvent now env hash canonical = (if stock_event env then applyProjection now env hash canonical else applyLineage now env hash canonical)"
proof -
  show "projectionSelfID env = Some (AggregateID env)"
  proof (cases "stock_event env")
    case True
    then obtain p where "AsQuantityDecremented env = Some p" "qd_ItemID p = AggregateID env"
      using stock_payload [OF assms True] by blast
    with True show ?thesis by (simp add: projectionSelfID_def stock_event_def)
  qed (use lineage_payload [OF assms] in blast)
  have "stock_event env \<or> lineage_table_of (EventType env) \<noteq> None" using lineage_payload [OF assms] by blast
  then show "isProjectionFamily (EventType env)"
    "applyEvent now env hash canonical = (if stock_event env then applyProjection now env hash canonical else applyLineage now env hash canonical)"
    by (auto simp: lineage_table_of_def isProjectionFamily_def stock_event_def applyEvent_def split: if_splits)
qed

section \<open>Histories\<close>

text \<open>A history is a set of events as the source emits them: valid, with identifiers that name one event
  each, one event per version of an aggregate, stock versions without holes and each starting from the
  quantity the previous one left, lineage aggregates with one version, and no two hops with the same key.\<close>

definition history :: "envelope set \<Rightarrow> bool" where
  "history H \<longleftrightarrow>
     (\<forall>env \<in> H. valid_envelope env) \<and> inj_on EventID H \<and>
     (\<forall>a \<in> H. \<forall>b \<in> H. AggregateType a = AggregateType b \<and> TenantID a = TenantID b \<and> AggregateID a = AggregateID b \<and>
        AggregateVersion a = AggregateVersion b \<longrightarrow> a = b) \<and>
     (\<forall>b \<in> H. stock_event b \<and> 1 < AggregateVersion b \<longrightarrow>
        (\<exists>a \<in> H. item_event (TenantID b) (AggregateID b) (AggregateVersion b - 1) a \<and> event_after a = event_before b)) \<and>
     (\<forall>a \<in> H. \<not> stock_event a \<longrightarrow> AggregateVersion a = 1) \<and>
     (\<forall>a \<in> H. \<forall>b \<in> H. \<forall>tb h h'. envelope_hop a = Some (tb, h) \<and> envelope_hop b = Some (tb, h') \<and> hop_conflict tb h h' \<longrightarrow> a = b)"

lemma historyD:
  assumes "history H"
  shows "env \<in> H \<Longrightarrow> valid_envelope env"
    and "\<lbrakk> a \<in> H; b \<in> H; EventID a = EventID b \<rbrakk> \<Longrightarrow> a = b"
    and "\<lbrakk> a \<in> H; b \<in> H; item_event t i v a; item_event t i v b \<rbrakk> \<Longrightarrow> a = b"
    and "\<lbrakk> b \<in> H; stock_event b; 1 < AggregateVersion b \<rbrakk> \<Longrightarrow>
        \<exists>a \<in> H. item_event (TenantID b) (AggregateID b) (AggregateVersion b - 1) a \<and> event_after a = event_before b"
    and "\<lbrakk> a \<in> H; \<not> stock_event a \<rbrakk> \<Longrightarrow> AggregateVersion a = 1"
    and "\<lbrakk> a \<in> H; b \<in> H; envelope_hop a = Some (tb, h); envelope_hop b = Some (tb, h'); hop_conflict tb h h' \<rbrakk> \<Longrightarrow> a = b"
proof -
  show "env \<in> H \<Longrightarrow> valid_envelope env" "\<lbrakk> a \<in> H; b \<in> H; EventID a = EventID b \<rbrakk> \<Longrightarrow> a = b"
    "\<lbrakk> b \<in> H; stock_event b; 1 < AggregateVersion b \<rbrakk> \<Longrightarrow>
        \<exists>a \<in> H. item_event (TenantID b) (AggregateID b) (AggregateVersion b - 1) a \<and> event_after a = event_before b"
    "\<lbrakk> a \<in> H; \<not> stock_event a \<rbrakk> \<Longrightarrow> AggregateVersion a = 1"
    "\<lbrakk> a \<in> H; b \<in> H; envelope_hop a = Some (tb, h); envelope_hop b = Some (tb, h'); hop_conflict tb h h' \<rbrakk> \<Longrightarrow> a = b"
    using assms unfolding history_def inj_on_def by blast+
  assume ab: "a \<in> H" "b \<in> H" "item_event t i v a" "item_event t i v b"
  then have "valid_envelope a" "valid_envelope b" "stock_event a" "stock_event b"
    using assms by (auto simp: history_def item_event_def)
  then have "AggregateType a = AggregateType b" using stock_payload by metis
  moreover have "TenantID a = TenantID b" "AggregateID a = AggregateID b" "AggregateVersion a = AggregateVersion b"
    using ab(3,4) by (simp_all add: item_event_def)
  ultimately show "a = b" using ab(1,2) assms unfolding history_def by blast
qed

section \<open>The consumer tracks a history\<close>

definition settled :: "disposition \<Rightarrow> bool" where
  "settled d \<longleftrightarrow> d = DispositionApplied \<or> d = DispositionDuplicateNoop"

definition taken :: "seshat_db \<Rightarrow> envelope \<Rightarrow> bool" where
  "taken db env \<longleftrightarrow> (\<exists>r. find_inbox db (EventID env) = Some r \<and> settled (ib_disposition r))"

definition inbox_matches :: "envelope \<Rightarrow> inbox_row \<Rightarrow> bool" where
  "inbox_matches env r \<longleftrightarrow>
     ib_event r = EventID env \<and> ib_tenant r = TenantID env \<and> ib_atype r = AggregateType env \<and> ib_aid r = AggregateID env \<and>
     ib_version r = AggregateVersion env \<and> ContentHash env = Inr (ib_hash r) \<and>
     (settled (ib_disposition r) \<or>
      ib_disposition r = DispositionQuarantinedGap \<and> stock_event env \<and>
      (\<exists>b. CanonicalBytes env = Inr b \<and> ib_bytes r = Some b))"

definition level :: "seshat_db \<Rightarrow> string \<Rightarrow> string \<Rightarrow> int" where
  "level db t i = (case find_projection db t i of None \<Rightarrow> 0 | Some p \<Rightarrow> pr_version p)"

text \<open>Every inbox row is that of an event of the history, settled or a stored gap; every projection row
  shows an item as some event of the history left it; a stock event is settled exactly when its version
  has been reached; a lineage event is settled exactly when its hop is there; and all hops are of events.\<close>

definition inbox_ok :: "envelope set \<Rightarrow> seshat_db \<Rightarrow> bool" where
  "inbox_ok H db \<longleftrightarrow> keyed db \<and> (\<forall>e r. find_inbox db e = Some r \<longrightarrow> (\<exists>env \<in> H. inbox_matches env r))"

definition tracks :: "envelope set \<Rightarrow> seshat_db \<Rightarrow> bool" where
  "tracks H db \<longleftrightarrow>
     inbox_ok H db \<and>
     (\<forall>t i p. find_projection db t i = Some p \<longrightarrow>
        (\<exists>env \<in> H. item_event t i (pr_version p) env \<and> event_after env = pr_quantity p)) \<and>
     (\<forall>env \<in> H. stock_event env \<longrightarrow> (taken db env \<longleftrightarrow> AggregateVersion env \<le> level db (TenantID env) (AggregateID env))) \<and>
     (\<forall>env \<in> H. \<forall>tb h. envelope_hop env = Some (tb, h) \<longrightarrow> (taken db env \<longleftrightarrow> h \<in> set (hop_rows tb db))) \<and>
     (\<forall>tb. \<forall>h \<in> set (hop_rows tb db). \<exists>env \<in> H. envelope_hop env = Some (tb, h))"

lemma tracksD:
  assumes "tracks H db"
  shows "keyed db" "find_inbox db e = Some r \<Longrightarrow> \<exists>env \<in> H. inbox_matches env r"
    "inbox_ok H db"
    "find_projection db t i = Some p \<Longrightarrow> \<exists>env \<in> H. item_event t i (pr_version p) env \<and> event_after env = pr_quantity p"
    "\<lbrakk> env \<in> H; stock_event env \<rbrakk> \<Longrightarrow> taken db env \<longleftrightarrow> AggregateVersion env \<le> level db (TenantID env) (AggregateID env)"
    "\<lbrakk> env \<in> H; envelope_hop env = Some (tb, h) \<rbrakk> \<Longrightarrow> taken db env \<longleftrightarrow> h \<in> set (hop_rows tb db)"
    "h \<in> set (hop_rows tb db) \<Longrightarrow> \<exists>env \<in> H. envelope_hop env = Some (tb, h)"
  using assms unfolding tracks_def inbox_ok_def by blast+

lemma tracks_empty: "history H \<Longrightarrow> tracks H (empty_platform e)"
proof -
  assume H: "history H"
  have "hop_rows tb (empty_platform e) = []" for tb by (cases tb) (simp_all add: empty_platform_def)
  moreover have "1 \<le> AggregateVersion env" if "env \<in> H" for env
    using historyD(1) [OF H that] by (simp add: valid_envelope_def)
  ultimately show ?thesis
    unfolding tracks_def inbox_ok_def by (fastforce simp: keyed_def empty_platform_def find_inbox_def find_projection_def taken_def level_def)
qed

text \<open>The inbox row of an event of the history is its own.\<close>

lemma row_of_event:
  assumes "tracks H db" "history H" "env \<in> H" "find_inbox db (EventID env) = Some r"
  shows "inbox_matches env r"
proof -
  obtain env' where e: "env' \<in> H" "inbox_matches env' r" using tracksD(2) [OF assms(1,4)] by blast
  have "ib_event r = EventID env" using assms(4) find_inbox_iff [OF tracksD(1) [OF assms(1)]] by auto
  with e have "EventID env' = EventID env" by (simp add: inbox_matches_def)
  with e historyD(2) [OF assms(2)] assms(3) show ?thesis by metis
qed

text \<open>A new or updated row that fits its event keeps the invariant, once the level and the hops agree
  with its disposition.\<close>

lemma inbox_upsert:
  assumes T: "inbox_ok H db" and H: "history H" and env: "env \<in> H"
    and put: "put_inbox now (inbox_of env hash d x y b) db = Inr (u, db')" and hash: "ContentHash env = Inr hash"
    and fits: "settled d \<or> d = DispositionQuarantinedGap \<and> stock_event env \<and> b \<noteq> [] \<and> CanonicalBytes env = Inr b"
  shows "inbox_ok H db'" "inbox_only db db'" "taken db' env = settled d"
    "env' \<in> H \<Longrightarrow> env' \<noteq> env \<Longrightarrow> taken db' env' = taken db env'"
    "find_inbox db' (EventID env) \<noteq> None"
    "e \<noteq> EventID env \<Longrightarrow> find_inbox db' e = find_inbox db e"
proof -
  note L = put_inbox_lookup [OF put T [unfolded inbox_ok_def, THEN conjunct1]]
  let ?r = "stored_inbox now (inbox_of env hash d x y b) (find_inbox db (EventID env))"
  have upd: "find_inbox db' = (find_inbox db)(EventID env := Some ?r)"
    using L by (simp add: inbox_of_def)
  have nc: "d \<noteq> DispositionQuarantinedConflict" using fits by (auto simp: settled_def)
  then have r: "inbox_matches env ?r" "ib_disposition ?r = d"
    using fits hash by (auto simp: stored_inbox_def merge_inbox_def new_inbox_def inbox_of_def inbox_matches_def nullBytes_def
        split: option.split)
  have "\<exists>env \<in> H. inbox_matches env r" if "find_inbox db' e = Some r" for e r
    using that r(1) env T by (auto simp: upd inbox_ok_def split: if_splits)
  then show "inbox_ok H db'" "inbox_only db db'" using L by (auto simp: inbox_ok_def)
  show "taken db' env = settled d" using r(2) by (simp add: taken_def upd)
  show "taken db' env' = taken db env'" if "env' \<in> H" "env' \<noteq> env"
  proof -
    have "EventID env' \<noteq> EventID env" using that historyD(2) [OF H _ env] by blast
    then show ?thesis by (simp add: taken_def upd)
  qed
  show "find_inbox db' (EventID env) \<noteq> None" "e \<noteq> EventID env \<Longrightarrow> find_inbox db' e = find_inbox db e"
    by (simp_all add: upd)
qed

lemma level_inbox_only: "inbox_only db db' \<Longrightarrow> level db' = level db"
  by (auto simp: level_def fun_eq_iff dest: inbox_onlyD)

text \<open>Recording without any other change: right when the disposition agrees with the state.\<close>

lemma tracks_record:
  assumes T: "tracks H db" and H: "history H" and env: "env \<in> H"
    and put: "put_inbox now (inbox_of env hash d x y b) db = Inr (u, db')" and hash: "ContentHash env = Inr hash"
    and fits: "settled d \<or> d = DispositionQuarantinedGap \<and> stock_event env \<and> b \<noteq> [] \<and> CanonicalBytes env = Inr b"
    and same: "taken db env = settled d"
  shows "tracks H db'"
proof -
  note U = inbox_upsert [OF tracksD(3) [OF T] H env put hash fits]
  have tk: "taken db' env' = taken db env'" if "env' \<in> H" for env'
    using U(3) U(4) [of env'] same that by (cases "env' = env") auto
  note only = inbox_onlyD [OF U(2)] level_inbox_only [OF U(2)]
  show ?thesis
    unfolding tracks_def only using U(1) tracksD(4-7) [OF T] tk by simp
qed


section \<open>Applying a stock event\<close>

definition projection_set :: "seshat_db \<Rightarrow> string \<Rightarrow> string \<Rightarrow> projection_row \<Rightarrow> seshat_db \<Rightarrow> bool" where
  "projection_set db t i p db' \<longleftrightarrow>
     keyed db' \<and> db' = db\<lparr>projection := projection db'\<rparr> \<and>
     (\<forall>t' i'. find_projection db' t' i' = (if t' = t \<and> i' = i then Some p else find_projection db t' i'))"

lemma insertProjection_Inr [sql_simps]:
  "insertProjection t i q v db fs = (Inr u, db', fs') \<longleftrightarrow>
   \<not> fst (pop False fs) \<and> fs' = snd (pop False fs) \<and> list_all pg_text_ok [t, i] \<and> 0 \<le> q \<and> 0 \<le> v \<and>
   find_projection db t i = None \<and>
   db' = db\<lparr>projection := projection db @ [\<lparr>pr_tenant = t, pr_item = i, pr_quantity = q, pr_version = v\<rparr>]\<rparr>"
  by (auto simp: insertProjection_def tx_stmt_Inr)

lemma update_projection_Inr [sql_simps]:
  "update_projection t i q v db fs = (Inr u, db', fs') \<longleftrightarrow>
   \<not> fst (pop False fs) \<and> fs' = snd (pop False fs) \<and> list_all pg_text_ok [t, i] \<and> 0 \<le> q \<and> 0 \<le> v \<and>
   db' = db\<lparr>projection := map (\<lambda>r. if pr_tenant r = t \<and> pr_item r = i then r\<lparr>pr_quantity := q, pr_version := v\<rparr> else r)
           (projection db)\<rparr>"
  by (auto simp: update_projection_def tx_stmt_Inr)

lemma projection_insert_set:
  assumes "keyed db" "find_projection db t i = None" "pr_tenant p = t" "pr_item p = i"
  shows "projection_set db t i p (db\<lparr>projection := projection db @ [p]\<rparr>)"
proof -
  have "(t, i) \<notin> (\<lambda>p. (pr_tenant p, pr_item p)) ` set (projection db)"
    using assms(2) unfolding find_projection_pair find_key_None .
  then have "keyed (db\<lparr>projection := projection db @ [p]\<rparr>)" using assms(1,3,4) by (simp add: keyed_def)
  then show ?thesis using assms(2-4)
    by (auto simp: projection_set_def find_projection_def find_append1 split: option.split)
qed

lemma projection_update_set:
  assumes k: "keyed db" and p: "find_projection db t i = Some p"
  shows "projection_set db t i (p\<lparr>pr_quantity := q, pr_version := v\<rparr>)
    (db\<lparr>projection := map (\<lambda>r. if pr_tenant r = t \<and> pr_item r = i then r\<lparr>pr_quantity := q, pr_version := v\<rparr> else r) (projection db)\<rparr>)"
proof -
  let ?f = "\<lambda>p. (pr_tenant p, pr_item p)" and ?g = "\<lambda>r. r\<lparr>pr_quantity := q, pr_version := v\<rparr>"
  let ?rows = "map (\<lambda>r. if pr_tenant r = t \<and> pr_item r = i then ?g r else r) (projection db)"
  have rows: "?rows = map (\<lambda>r. if ?f r = (t, i) then ?g r else r) (projection db)" by simp
  have "map ?f ?rows = map ?f (projection db)" by simp
  with k have "keyed (db\<lparr>projection := ?rows\<rparr>)" unfolding keyed_def by (simp del: map_map)
  moreover have "find_projection (db\<lparr>projection := ?rows\<rparr>) t' i' =
      (if t' = t \<and> i' = i then Some (?g p) else find_projection db t' i')" for t' i'
    using find_key_map [of ?f "(t, i)" ?g "(t', i')" "projection db"] p
    unfolding find_projection_pair seshat_db.select_convs rows by auto
  ultimately show ?thesis unfolding projection_set_def by simp
qed

lemma projection_setD:
  assumes "projection_set db t i p db'"
  shows "keyed db'" "find_inbox db' = find_inbox db" "hop_rows tb db' = hop_rows tb db" "erp db' = erp db"
    "find_projection db' t' i' = (if t' = t \<and> i' = i then Some p else find_projection db t' i')"
    "processing_failures db' = processing_failures db"
proof -
  from assms obtain x where "db' = db\<lparr>projection := x\<rparr>" by (auto simp: projection_set_def)
  then show "find_inbox db' = find_inbox db" "hop_rows tb db' = hop_rows tb db" "erp db' = erp db"
    "processing_failures db' = processing_failures db"
    by (simp_all add: find_inbox_def fun_eq_iff)
qed (use assms in \<open>auto simp: projection_set_def\<close>)

lemma tracks_apply:
  assumes T: "tracks H db" and H: "history H" and env: "env \<in> H" "stock_event env"
    and lev: "AggregateVersion env = level db (TenantID env) (AggregateID env) + 1"
    and set: "projection_set db (TenantID env) (AggregateID env) p db1"
    and p: "pr_quantity p = event_after env" "pr_version p = AggregateVersion env"
    and put: "put_inbox now (inbox_of env hash DispositionApplied x y b) db1 = Inr (u, db')" and hash: "ContentHash env = Inr hash"
  shows "tracks H db'" "level db' (TenantID env) (AggregateID env) = AggregateVersion env" "inbox_only db1 db'"
proof -
  note S = projection_setD [OF set]
  have ok: "inbox_ok H db1" using tracksD(3) [OF T] S(1,2) by (simp add: inbox_ok_def)
  note U = inbox_upsert [OF ok H env(1) put hash, simplified settled_def, simplified]
  note only = inbox_onlyD [OF U(2)]
  have proj: "find_projection db' t i = (if t = TenantID env \<and> i = AggregateID env then Some p else find_projection db t i)" for t i
    by (simp add: only(2) S(5))
  then show lev': "level db' (TenantID env) (AggregateID env) = AggregateVersion env" by (simp add: level_def p)
  have other: "level db' t i = level db t i" if "\<not> (t = TenantID env \<and> i = AggregateID env)" for t i
    using that by (auto simp: level_def proj)
  show "inbox_only db1 db'" by (rule U(2))
  have taken1: "taken db1 = taken db" by (simp add: taken_def fun_eq_iff S(2))
  have stock: "taken db' env' \<longleftrightarrow> AggregateVersion env' \<le> level db' (TenantID env') (AggregateID env')"
    if e: "env' \<in> H" "stock_event env'" for env'
  proof (cases "TenantID env' = TenantID env \<and> AggregateID env' = AggregateID env")
    case True
    have "AggregateVersion env' = AggregateVersion env \<longleftrightarrow> env' = env"
      using historyD(3) [OF H e(1) env(1), of "TenantID env" "AggregateID env" "AggregateVersion env"] True e(2) env(2)
      by (auto simp: item_event_def)
    then show ?thesis
      using U(3) U(4) [OF e(1)] tracksD(5) [OF T e] taken1 lev lev' True by (cases "env' = env") auto
  next
    case False
    then have "env' \<noteq> env" by auto
    with U(4) [OF e(1)] tracksD(5) [OF T e] taken1 other [OF False] show ?thesis by simp
  qed
  show "tracks H db'"
    unfolding tracks_def
  proof (intro conjI allI ballI impI)
    show "inbox_ok H db'" by (rule U(1))
    show "\<exists>env \<in> H. item_event t i (pr_version q) env \<and> event_after env = pr_quantity q" if "find_projection db' t i = Some q" for t i q
      using that env p tracksD(4) [OF T] by (auto simp: proj item_event_def split: if_splits)
    show "taken db' e \<longleftrightarrow> AggregateVersion e \<le> level db' (TenantID e) (AggregateID e)" if "e \<in> H" "stock_event e" for e
      by (rule stock [OF that])
    show "taken db' e \<longleftrightarrow> h \<in> set (hop_rows tb db')" if "e \<in> H" "envelope_hop e = Some (tb, h)" for e tb h
    proof -
      have "e \<noteq> env" using that(2) stock_payload [OF historyD(1) [OF H env(1)] env(2)] by (metis option.distinct(1))
      then show ?thesis using U(4) [OF that(1)] tracksD(6) [OF T that] taken1 by (simp add: only(3) S(3))
    qed
    show "\<exists>env \<in> H. envelope_hop env = Some (tb, h)" if "h \<in> set (hop_rows tb db')" for tb h
      using that tracksD(7) [OF T] by (simp add: only(3) S(3))
  qed
qed

section \<open>Applying a lineage event\<close>

lemma hop_conflict_self: "hop_conflict tb h h" by (cases tb) auto

lemma hop_conflict_id: "hp_tenant a = hp_tenant b \<Longrightarrow> hp_id a = hp_id b \<Longrightarrow> hop_conflict tb a b"
  by (cases tb) auto

lemma tracks_hop:
  assumes T: "tracks H db" and H: "history H" and env: "env \<in> H" "envelope_hop env = Some (tb, h)" and new: "\<not> taken db env"
    and put: "put_inbox now (inbox_of env hash DispositionApplied x y b) (set_hop_rows tb (hop_rows tb db @ [h]) db) = Inr (u, db')"
    and hash: "ContentHash env = Inr hash"
  shows "tracks H db'" "inbox_only (set_hop_rows tb (hop_rows tb db @ [h]) db) db'"
proof -
  let ?db1 = "set_hop_rows tb (hop_rows tb db @ [h]) db"
  have h: "h \<notin> set (hop_rows tb db)" using tracksD(6) [OF T env] new by blast
  have same: "find_inbox ?db1 = find_inbox db" "find_projection ?db1 = find_projection db"
    by (simp_all add: find_inbox_def find_projection_def fun_eq_iff)
  have "keyed ?db1" using tracksD(1) [OF T] h by (auto simp: keyed_def)
  with tracksD(3) [OF T] have ok: "inbox_ok H ?db1" by (simp add: inbox_ok_def same)
  note U = inbox_upsert [OF ok H env(1) put hash, simplified settled_def, simplified]
  note only = inbox_onlyD [OF U(2)]
  show "inbox_only ?db1 db'" by (rule U(2))
  have taken1: "taken ?db1 = taken db" by (simp add: taken_def fun_eq_iff same)
  have lev: "level db' = level db" by (simp add: level_def fun_eq_iff only(2) same)
  have stock: "\<not> stock_event env" using env(2) stock_payload [OF historyD(1) [OF H env(1)]] by (metis option.distinct(1))
  show "tracks H db'"
    unfolding tracks_def lev only(2) same
  proof (intro conjI allI ballI impI)
    show "inbox_ok H db'" by (rule U(1))
    show "\<exists>env \<in> H. item_event t i (pr_version q) env \<and> event_after env = pr_quantity q" if "find_projection db t i = Some q" for t i q
      using that tracksD(4) [OF T] by blast
    show "taken db' e \<longleftrightarrow> AggregateVersion e \<le> level db (TenantID e) (AggregateID e)" if "e \<in> H" "stock_event e" for e
      using U(4) [OF that(1)] tracksD(5) [OF T that] taken1 stock that(2) by auto
    show "taken db' e \<longleftrightarrow> h' \<in> set (hop_rows tb' db')" if e: "e \<in> H" "envelope_hop e = Some (tb', h')" for e tb' h'
    proof (cases "e = env")
      case True
      with env e U(3) show ?thesis by (simp add: only(3))
    next
      case False
      have "\<not> (tb' = tb \<and> h' = h)" using historyD(6) [OF H e(1) env(1)] e(2) env(2) False hop_conflict_self by blast
      with U(4) [OF e(1) False] tracksD(6) [OF T e] taken1 show ?thesis by (auto simp: only(3))
    qed
    show "\<exists>env \<in> H. envelope_hop env = Some (tb', h')" if "h' \<in> set (hop_rows tb' db')" for tb' h'
      using that tracksD(7) [OF T, of h' tb'] env by (auto simp: only(3) split: if_splits)
  qed
qed

section \<open>What one transaction does\<close>

lemma upsertInbox_Inr [sql_simps]:
  "upsertInbox now row db fs = (Inr u, db', fs') \<longleftrightarrow>
   \<not> fst (pop False fs) \<and> fs' = snd (pop False fs) \<and>
   list_all pg_text_ok [ConsumerName, ir_EventID row, ir_TenantID row, ir_ContentHash row, ir_AggregateType row, ir_AggregateID row] \<and>
   put_inbox now row db = Inr (u, db')"
  by (simp add: upsertInbox_def tx_stmt_Inr)

lemma record_as_Inr [sql_simps]:
  "record_as now row db fs = (Inr d, db', fs') \<longleftrightarrow>
   \<not> fst (pop False fs) \<and> fs' = snd (pop False fs) \<and>
   list_all pg_text_ok [ConsumerName, ir_EventID row, ir_TenantID row, ir_ContentHash row, ir_AggregateType row, ir_AggregateID row] \<and>
   put_inbox now row db = Inr ((), db') \<and> d = ir_Disposition row"
  by (auto simp: record_as_def sql_simps)

lemma inbox_of_simps [simp]:
  "ir_EventID (inbox_of env hash d x y b) = EventID env" "ir_TenantID (inbox_of env hash d x y b) = TenantID env"
  "ir_ContentHash (inbox_of env hash d x y b) = hash" "ir_AggregateType (inbox_of env hash d x y b) = AggregateType env"
  "ir_AggregateID (inbox_of env hash d x y b) = AggregateID env"
  "ir_AggregateVersion (inbox_of env hash d x y b) = AggregateVersion env" "ir_Disposition (inbox_of env hash d x y b) = d"
  by (simp_all add: inbox_of_def)

text \<open>The outcome of delivering an event of the history: a duplicate, a gap, or an application.\<close>

definition took :: "envelope \<Rightarrow> disposition \<Rightarrow> seshat_db \<Rightarrow> seshat_db \<Rightarrow> bool" where
  "took env d db db' \<longleftrightarrow>
     find_inbox db' (EventID env) \<noteq> None \<and> (\<forall>e. e \<noteq> EventID env \<longrightarrow> find_inbox db' e = find_inbox db e) \<and>
     erp db' = erp db \<and> processing_failures db' = processing_failures db \<and>
     (case d of
        DispositionDuplicateNoop \<Rightarrow> taken db env \<and> taken db' env \<and> inbox_only db db'
      | DispositionQuarantinedGap \<Rightarrow> stock_event env \<and> \<not> taken db env \<and> \<not> taken db' env \<and> inbox_only db db' \<and>
          level db (TenantID env) (AggregateID env) + 1 < AggregateVersion env
      | DispositionApplied \<Rightarrow> \<not> taken db env \<and> taken db' env \<and>
          (if stock_event env
           then (\<forall>t i. level db' t i = (if t = TenantID env \<and> i = AggregateID env then AggregateVersion env else level db t i)) \<and>
                AggregateVersion env = level db (TenantID env) (AggregateID env) + 1 \<and>
                (\<forall>tb. hop_rows tb db' = hop_rows tb db)
           else find_projection db' = find_projection db)
      | _ \<Rightarrow> False)"

lemma CanonicalBytes_nonempty: "CanonicalBytes env = Inr b \<Longrightarrow> b \<noteq> []"
proof
  assume "CanonicalBytes env = Inr b" "b = []"
  then have "Parse [] = Inr env" using Parse_canonical by blast
  moreover have "Parse [] = Inl ErrMalformed"
    by (simp add: Parse_def decodeStrict_def ensureJCSCompatibleJSON_def rejectUnpairedSurrogateEscapes_def
        decodeValue.simps skip_ws_def)
  ultimately show False by simp
qed

lemma apply_stock:
  assumes T: "tracks H db" and H: "history H" and env: "env \<in> H" "stock_event env" and new: "\<not> taken db env"
    and bytes: "CanonicalBytes env = Inr canonical" and hash: "ContentHash env = Inr hash"
    and run: "applyProjection now env hash canonical db fs = (Inr d, db', fs')"
  shows "tracks H db' \<and> took env d db db'"
proof -
  let ?t = "TenantID env" and ?i = "AggregateID env" and ?v = "AggregateVersion env"
  have valid: "valid_envelope env" using historyD(1) [OF H env(1)] .
  obtain q where q: "AsQuantityDecremented env = Some q" "wrap64 (qd_QuantityBefore q - qd_QuantityDecremented q) = qd_QuantityAfter q"
    "qd_QuantityBefore q = event_before env" "qd_QuantityAfter q = event_after env"
    using stock_payload [OF valid env(2)] by metis
  have v: "1 \<le> ?v" "?v \<le> maxSafeInt" using valid by (auto simp: valid_envelope_def)
  have above: "level db ?t ?i < ?v" using tracksD(5) [OF T env] new by auto
  have gap: "tracks H db' \<and> took env d db db'"
    if put: "put_inbox now (inbox_of env hash DispositionQuarantinedGap x y canonical) db = Inr (u, db')"
      and d: "d = DispositionQuarantinedGap" and far: "level db ?t ?i + 1 < ?v" for x y u
  proof -
    have fits: "settled DispositionQuarantinedGap \<or>
        DispositionQuarantinedGap = DispositionQuarantinedGap \<and> stock_event env \<and> canonical \<noteq> [] \<and> CanonicalBytes env = Inr canonical"
      using env(2) bytes CanonicalBytes_nonempty by blast
    note U = inbox_upsert [OF tracksD(3) [OF T] H env(1) put hash fits]
    have "tracks H db'" by (rule tracks_record [OF T H env(1) put hash fits]) (simp add: new settled_def)
    moreover have "took env d db db'"
      using U(2,3,5,6) env(2) new far inbox_onlyD [OF U(2)] by (simp add: took_def d settled_def)
    ultimately show ?thesis by simp
  qed
  have applied: "tracks H db' \<and> took env d db db'"
    if put: "put_inbox now (inbox_of env hash DispositionApplied x y b) db1 = Inr (u, db')"
      and set: "projection_set db ?t ?i p db1" "pr_quantity p = event_after env" "pr_version p = ?v"
      and d: "d = DispositionApplied" and nxt: "?v = level db ?t ?i + 1" for x y u b p db1
  proof -
    note S = projection_setD [OF set(1)]
    note A = tracks_apply [OF T H env nxt set put hash]
    have ok: "inbox_ok H db1" using tracksD(3) [OF T] S(1,2) by (simp add: inbox_ok_def)
    note U = inbox_upsert [OF ok H env(1) put hash, simplified settled_def, simplified]
    note only = inbox_onlyD [OF U(2)]
    have "level db' t i = (if t = ?t \<and> i = ?i then ?v else level db t i)" for t i
      by (simp add: level_def only(2) S(5) set(3))
    with A(1) show ?thesis
      using U(3,5,6) env(2) new nxt by (simp add: took_def d only S)
  qed
  show ?thesis
  proof (cases "find_projection db ?t ?i")
    case None
    then have l0: "level db ?t ?i = 0" by (simp add: level_def)
    show ?thesis
    proof (cases "?v = 1")
      case True
      let ?p = "\<lparr>pr_tenant = ?t, pr_item = ?i, pr_quantity = qd_QuantityAfter q, pr_version = 1\<rparr>"
      from run None True q(1) obtain u where "put_inbox now (inbox_of env hash DispositionApplied None None [])
          (db\<lparr>projection := projection db @ [?p]\<rparr>) = Inr (u, db')" "d = DispositionApplied"
        by (auto simp: applyProjection_def sql_simps)
      then show ?thesis
        using projection_insert_set [OF tracksD(1) [OF T] None, of ?p] True q(4) l0 by (intro applied) auto
    next
      case False
      with run None q(1) obtain u where "put_inbox now (inbox_of env hash DispositionQuarantinedGap (Some 1) (Some ?v) canonical) db = Inr (u, db')"
        "d = DispositionQuarantinedGap" by (auto simp: applyProjection_def sql_simps)
      then show ?thesis using False v l0 by (intro gap) auto
    qed
  next
    case (Some p)
    then have lp: "level db ?t ?i = pr_version p" by (simp add: level_def)
    obtain a where a: "a \<in> H" "item_event ?t ?i (pr_version p) a" "event_after a = pr_quantity p"
      using tracksD(4) [OF T Some] by blast
    then have "1 \<le> pr_version p" using historyD(1) [OF H a(1)] by (auto simp: valid_envelope_def item_event_def)
    with above lp v have w: "wrap64 (pr_version p + 1) = pr_version p + 1"
      by (intro wrap64_id) (auto simp: int64_def maxSafeInt_def)
    show ?thesis
    proof (cases "?v = pr_version p + 1")
      case True
      with historyD(4) [OF H env] \<open>1 \<le> pr_version p\<close> obtain a' where a': "a' \<in> H" "item_event ?t ?i (pr_version p) a'"
        "event_after a' = event_before env" by auto
      have before: "qd_QuantityBefore q = pr_quantity p" using historyD(3) [OF H a(1) a'(1) a(2) a'(2)] a(3) a'(3) q(3) by simp
      from run Some True q(1,2) w before obtain u where "put_inbox now (inbox_of env hash DispositionApplied None None [])
          (db\<lparr>projection := map (\<lambda>r. if pr_tenant r = ?t \<and> pr_item r = ?i then r\<lparr>pr_quantity := qd_QuantityAfter q, pr_version := pr_version p + 1\<rparr> else r)
             (projection db)\<rparr>) = Inr (u, db')" "d = DispositionApplied"
        by (auto simp: applyProjection_def sql_simps)
      then show ?thesis
        using projection_update_set [OF tracksD(1) [OF T] Some, where q = "qd_QuantityAfter q" and v = "pr_version p + 1"] True q(4) lp by (intro applied) auto
    next
      case False
      with run Some q(1) w above lp obtain u where "put_inbox now (inbox_of env hash DispositionQuarantinedGap (Some (pr_version p + 1)) (Some ?v) canonical) db = Inr (u, db')"
        "d = DispositionQuarantinedGap" by (auto simp: applyProjection_def sql_simps split: if_splits)
      then show ?thesis using False above lp by (intro gap) auto
    qed
  qed
qed


lemma apply_lineage:
  assumes T: "tracks H db" and H: "history H" and env: "env \<in> H" "\<not> stock_event env" and new: "\<not> taken db env"
    and hash: "ContentHash env = Inr hash"
    and run: "applyLineage now env hash canonical db fs = (Inr d, db', fs')"
  shows "tracks H db' \<and> took env d db db'"
proof -
  let ?t = "TenantID env" and ?i = "AggregateID env"
  obtain tb h where h: "envelope_hop env = Some (tb, h)" "lineage_table_of (EventType env) = Some tb" "hp_tenant h = ?t" "hp_id h = ?i"
    "hp_version h = AggregateVersion env"
    using lineage_payload [OF historyD(1) [OF H env(1)] env(2)] by metis
  have v: "AggregateVersion env = 1" using historyD(5) [OF H env] .
  have alone: "\<not> list_ex (hop_conflict tb h) (hop_rows tb db)"
  proof
    assume "list_ex (hop_conflict tb h) (hop_rows tb db)"
    then obtain h' where h': "h' \<in> set (hop_rows tb db)" "hop_conflict tb h h'" by (auto simp: list_ex_iff)
    then obtain a where a: "a \<in> H" "envelope_hop a = Some (tb, h')" using tracksD(7) [OF T] by blast
    then have "env = a" using historyD(6) [OF H env(1) a(1) h(1) a(2) h'(2)] by simp
    with a h(1) h'(1) new tracksD(6) [OF T env(1) h(1)] show False by simp
  qed
  have none: "find_hop tb db ?t ?i = None"
    using alone hop_conflict_id [of h _ tb] h(3,4) by (auto simp: find_hop_def find_None_iff list_ex_iff)
  let ?db1 = "set_hop_rows tb (hop_rows tb db @ [h]) db"
  from run none h v alone obtain u where put: "put_inbox now (inbox_of env hash DispositionApplied None None []) ?db1 = Inr (u, db')"
    and d: "d = DispositionApplied"
    by (auto simp: applyLineage_def lockLineageVersion_def insertLineageHop_def sql_simps)
  note A = tracks_hop [OF T H env(1) h(1) new put hash]
  have same: "find_inbox ?db1 = find_inbox db" "find_projection ?db1 = find_projection db" "taken ?db1 = taken db"
    by (simp_all add: find_inbox_def find_projection_def taken_def fun_eq_iff)
  have "h \<notin> set (hop_rows tb db)" using tracksD(6) [OF T env(1) h(1)] new by blast
  then have "keyed ?db1" using tracksD(1) [OF T] by (auto simp: keyed_def)
  with tracksD(3) [OF T] have ok: "inbox_ok H ?db1" by (simp add: inbox_ok_def same)
  note U = inbox_upsert [OF ok H env(1) put hash, simplified settled_def, simplified]
  note only = inbox_onlyD [OF U(2)]
  have "took env d db db'" using U(3,5,6) env(2) new by (simp add: took_def d only same)
  with A(1) show ?thesis by simp
qed

lemma validated_tx_took:
  assumes T: "tracks H db" and H: "history H" and env: "env \<in> H"
    and bytes: "CanonicalBytes env = Inr canonical" and hash: "ContentHash env = Inr hash"
    and run: "validated_tx env hash canonical now db fs = (Inr d, db', fs')"
  shows "tracks H db' \<and> took env d db db'"
proof -
  have apply': "tracks H db' \<and> took env d db db'" if new: "\<not> taken db env" and ap: "applyEvent now env hash canonical db f = (Inr d, db', fs')" for f
    using apply_stock [OF T H env _ new bytes hash] apply_lineage [OF T H env _ new hash] ap
    by (auto simp: event_family(3) [OF historyD(1) [OF H env]] split: if_splits)
  show ?thesis
  proof (cases "find_inbox db (EventID env)")
    case None
    then show ?thesis using run by (intro apply') (auto simp: taken_def validated_tx_def lockInbox_def sql_simps)
  next
    case (Some r)
    have r: "inbox_matches env r" using row_of_event [OF T H env Some] .
    then have hr: "ib_hash r = hash" using hash by (simp add: inbox_matches_def)
    show ?thesis
    proof (cases "settled (ib_disposition r)")
      case True
      with run Some hr obtain u where put: "put_inbox now (inbox_of env hash DispositionDuplicateNoop None None []) db = Inr (u, db')"
        and d: "d = DispositionDuplicateNoop"
        by (auto simp: validated_tx_def lockInbox_def sql_simps settled_def)
      have tk: "taken db env" using Some True by (simp add: taken_def)
      note U = inbox_upsert [OF tracksD(3) [OF T] H env put hash, simplified settled_def, simplified]
      have "tracks H db'" by (rule tracks_record [OF T H env put hash]) (simp_all add: settled_def tk)
      moreover have "took env d db db'" using U(2,3,5,6) tk inbox_onlyD [OF U(2)] by (simp add: took_def d)
      ultimately show ?thesis by simp
    next
      case False
      with r have "ib_disposition r = DispositionQuarantinedGap" by (simp add: inbox_matches_def)
      with run Some hr False show ?thesis
        by (intro apply') (auto simp: taken_def validated_tx_def lockInbox_def sql_simps)
    qed
  qed
qed

section \<open>The handler on a site\<close>

abbreviation db_of :: "site \<Rightarrow> seshat_db" where "db_of s \<equiv> durable (store s)"

lemma on_store_cases:
  assumes "on_store f s = (r, s')"
  obtains w where "f (store s) = (r, w)" "s' = s\<lparr>store := w\<rparr>"
  using assms by (auto simp: on_store_def split: prod.splits)

definition outcome_of :: "envelope \<Rightarrow> disposition \<Rightarrow> Result" where
  "outcome_of env d = \<lparr>res_Disposition = Some d, res_EventID = EventID env, res_ShouldAck = True\<rparr>"

lemma processValidated_cases:
  assumes run: "processValidated env s = (r, s')" and H: "history H" and env: "env \<in> H" and T: "tracks H (db_of s)"
  obtains (failed) e where "r = Inl e" "db_of s' = db_of s" "notices s' = notices s"
  | (fine) d where "took env d (db_of s) (db_of s')" "tracks H (db_of s')" "r = Inr (outcome_of env d)"
  | (lost) d e where "took env d (db_of s) (db_of s')" "tracks H (db_of s')" "r = Inl e" "notices s' = notices s"
      "commit_reply (store s) = ReplyLost"
proof -
  have valid: "valid_envelope env" using historyD(1) [OF H env] .
  obtain canonical where b: "CanonicalBytes env = Inr canonical" using CanonicalBytes_total [OF valid] by blast
  obtain hash where h: "ContentHash env = Inr hash" using b by (simp add: ContentHash_def)
  let ?body = "validated_tx env hash canonical"
  obtain x w where t: "transact ErrTransient ErrTransient ?body (store s) = (x, w)" by fastforce
  have "durable w = db_of s \<and> (\<exists>e. x = Inl e) \<or>
      (\<exists>d. took env d (db_of s) (durable w) \<and> tracks H (durable w) \<and> (x = Inr d \<or> (\<exists>e. x = Inl e) \<and> commit_reply (store s) = ReplyLost))"
    using t
  proof (cases rule: transact_cases)
    case (committed now y fs fs')
    then show ?thesis using validated_tx_took [OF T H env b h committed(1)] by blast
  qed simp
  moreover have "AsQuantityDecremented env \<noteq> None" if "EventType env = EventTypeQuantityDecremented"
    using stock_payload [OF valid] that by (metis option.distinct(1) stock_event_def)
  ultimately show thesis
    using run t that by (auto simp: processValidated_def b h on_store_def notifyApplied_def outcome_of_def split: if_splits sum.splits)
qed

lemma query_auto_durable:
  assumes "query_auto err ps q w = (r, w')"
  shows "durable w' = durable w" "r = Inr x \<Longrightarrow> \<exists>now. x = q now (durable w)"
  using assms unfolding query_auto_def by (auto elim!: transact_cases simp: sql_simps)

lemma select_gap_durable:
  assumes "select_gap t ty a s = (r, s')"
  shows "db_of s' = db_of s" "notices s' = notices s" "r = Inr x \<Longrightarrow> x = next_gap t ty a (db_of s)"
  using assms unfolding select_gap_def by (auto elim!: on_store_cases dest: query_auto_durable)

section \<open>The re-drive loop ends\<close>

definition gap_ids :: "seshat_db \<Rightarrow> string set" where
  "gap_ids db = {e. \<exists>r. find_inbox db e = Some r \<and> ib_disposition r = DispositionQuarantinedGap}"

lemma finite_gap_ids: "keyed db \<Longrightarrow> finite (gap_ids db)"
  by (rule finite_subset [of _ "set (map ib_event (inbox db))"]) (auto simp: gap_ids_def find_inbox_iff)

lemma gap_ids_took:
  assumes "took env DispositionApplied db db'" "EventID env \<in> gap_ids db"
  shows "gap_ids db' = gap_ids db - {EventID env}"
proof -
  have gone: "EventID env \<notin> gap_ids db'" using assms(1) by (auto simp: took_def taken_def gap_ids_def settled_def)
  have rest: "e \<in> gap_ids db' \<longleftrightarrow> e \<in> gap_ids db" if "e \<noteq> EventID env" for e
    using assms(1) that by (simp add: took_def gap_ids_def)
  show ?thesis
  proof (rule set_eqI)
    fix e show "e \<in> gap_ids db' \<longleftrightarrow> e \<in> gap_ids db - {EventID env}"
      using gone rest by (cases "e = EventID env") auto
  qed
qed

text \<open>The row the loop selects is the stored gap of an event whose turn it is.\<close>

lemma next_gap_event:
  assumes T: "tracks H db" and H: "history H" and row: "next_gap t ty a db = Some row"
  obtains env b where "env \<in> H" "item_event t a (level db t a + 1) env" "CanonicalBytes env = Inr b" "ib_bytes row = Some b"
    "ContentHash env = Inr (ib_hash row)" "EventID env \<in> gap_ids db" "\<not> taken db env" "ty = AggregateTypeInventoryItem"
proof -
  have k: "keyed db" using tracksD(1) [OF T] .
  from row have r: "row \<in> set (inbox db)" "ib_tenant row = t" "ib_atype row = ty" "ib_aid row = a"
    "ib_disposition row = DispositionQuarantinedGap"
    and "list_ex (\<lambda>p. pr_tenant p = ib_tenant row \<and> pr_item p = ib_aid row \<and> ib_version row = pr_version p + 1) (projection db)"
    unfolding next_gap_def by (auto simp: find_Some_iff2 find_Some_iff)
  then obtain p where "p \<in> set (projection db)" "pr_tenant p = t" "pr_item p = a" "ib_version row = pr_version p + 1"
    by (auto simp: list_ex_iff)
  then have lev: "level db t a + 1 = ib_version row" using find_projection_iff [OF k, of t a p] by (simp add: level_def)
  have f: "find_inbox db (ib_event row) = Some row" using r(1) find_inbox_iff [OF k] by simp
  then obtain env where env: "env \<in> H" "inbox_matches env row" using tracksD(2) [OF T] by blast
  with r obtain b where "stock_event env" "CanonicalBytes env = Inr b" "ib_bytes row = Some b"
    by (auto simp: inbox_matches_def settled_def)
  moreover have "AggregateType env = AggregateTypeInventoryItem"
    using stock_payload [OF historyD(1) [OF H env(1)] \<open>stock_event env\<close>] by metis
  ultimately show thesis
    using env r lev f by (intro that [of env b])
      (auto simp: inbox_matches_def item_event_def gap_ids_def taken_def settled_def)
qed

text \<open>In that situation the handler can only apply.\<close>

lemma took_due:
  assumes "took env d db db'" "\<not> taken db env" "item_event t a (level db t a + 1) env"
  shows "d = DispositionApplied"
  using assms by (auto simp: took_def item_event_def split: disposition.splits)

lemma redrive_step:
  assumes T: "tracks H (db_of s)" and H: "history H"
    and sel: "select_gap t ty a s = (Inr (Some row), s1)"
  obtains env b where "redriveGaps t ty a s =
      (case processValidated env s1 of (Inl e, s2) \<Rightarrow> Some (Some e, s2)
       | (Inr res, s2) \<Rightarrow> if res_Disposition res \<noteq> Some DispositionApplied then Some (None, s2) else redriveGaps t ty a s2)"
    "env \<in> H" "item_event t a (level (db_of s) t a + 1) env" "EventID env \<in> gap_ids (db_of s)" "\<not> taken (db_of s) env"
    "db_of s1 = db_of s" "notices s1 = notices s"
proof -
  note S = select_gap_durable [OF sel]
  obtain env b where e: "env \<in> H" "item_event t a (level (db_of s) t a + 1) env" "CanonicalBytes env = Inr b" "ib_bytes row = Some b"
    "ContentHash env = Inr (ib_hash row)" "EventID env \<in> gap_ids (db_of s)" "\<not> taken (db_of s) env"
    using next_gap_event [OF T H] S(3) by metis
  moreover have "Parse b = Inr env" using Parse_canonical e(3) .
  ultimately show thesis
    using S(1,2) by (intro that [of env]) (simp_all add: redriveGaps.simps [of t ty a s] sel)
qed

lemma redrive_ends:
  assumes H: "history H" and "tracks H (db_of s)"
  shows "\<exists>e s'. redriveGaps t ty a s = Some (e, s') \<and> tracks H (db_of s')"
  using assms(2)
proof (induction "card (gap_ids (db_of s))" arbitrary: s rule: less_induct)
  case less
  obtain r s1 where sel: "select_gap t ty a s = (r, s1)" by (cases "select_gap t ty a s")
  note S = select_gap_durable [OF sel]
  consider (err) e where "r = Inl e" | (none) "r = Inr None" | (row) row where "r = Inr (Some row)"
    by (metis old.sum.exhaust option.exhaust)
  then show ?case
  proof cases
    case (row row)
    obtain env where e: "redriveGaps t ty a s =
      (case processValidated env s1 of (Inl e, s2) \<Rightarrow> Some (Some e, s2)
       | (Inr res, s2) \<Rightarrow> if res_Disposition res \<noteq> Some DispositionApplied then Some (None, s2) else redriveGaps t ty a s2)"
      "env \<in> H" "item_event t a (level (db_of s) t a + 1) env" "EventID env \<in> gap_ids (db_of s)" "\<not> taken (db_of s) env"
      by (rule redrive_step [OF less.prems H sel [unfolded row]])
    obtain x s2 where pv: "processValidated env s1 = (x, s2)" by (cases "processValidated env s1")
    have T1: "tracks H (db_of s1)" using less.prems S(1) by simp
    from pv H e(2) T1 show ?thesis
    proof (cases rule: processValidated_cases)
      case (fine d)
      have d: "d = DispositionApplied" using took_due [OF _ e(5,3)] fine(1) S(1) by simp
      have "gap_ids (db_of s2) = gap_ids (db_of s) - {EventID env}"
        using gap_ids_took fine(1) e(4) d S(1) by simp
      then have "card (gap_ids (db_of s2)) < card (gap_ids (db_of s))"
        using e(4) finite_gap_ids [OF tracksD(1) [OF less.prems]] by (metis card_Diff1_less)
      from less.hyps [OF this fine(2)] show ?thesis by (simp add: e(1) pv fine(3) outcome_of_def d)
    qed (use T1 in \<open>simp_all add: e(1) pv\<close>)
  qed (use less.prems S(1) in \<open>simp_all add: redriveGaps.simps [of t ty a s] sel\<close>)
qed

end
