(* ===== verification/Platform_Delivery.thy ===== *)
theory Platform_Delivery
  imports Platform_Tracking
begin

text \<open>
  Deliveries: \<^verbatim>\<open>ProcessRecord\<close> always returns and keeps the invariant whatever the faults, an acknowledged
  delivery has left a durable decision, and without faults every authentic delivery is decided,
  acknowledged, and leaves no gap that could be closed.
\<close>

section \<open>One delivery\<close>

text \<open>The tables other than the failure records.\<close>

definition same_tables :: "seshat_db \<Rightarrow> seshat_db \<Rightarrow> bool" where
  "same_tables db db' \<longleftrightarrow> db' = db\<lparr>processing_failures := processing_failures db'\<rparr>"

lemma same_tables_refl [simp]: "same_tables db db" by (simp add: same_tables_def)

lemma same_tables_update [intro]:
  "same_tables db db1 \<Longrightarrow> same_tables db (db1\<lparr>processing_failures := x\<rparr>)"
  unfolding same_tables_def by (metis seshat_db.surjective seshat_db.update_convs(8))

lemma same_tablesD:
  assumes "same_tables db db'"
  shows "find_inbox db' = find_inbox db" "find_projection db' = find_projection db" "hop_rows tb db' = hop_rows tb db"
    "erp db' = erp db" "keyed db' = keyed db" "inbox db' = inbox db" "projection db' = projection db"
proof -
  from assms obtain x where "db' = db\<lparr>processing_failures := x\<rparr>" by (auto simp: same_tables_def)
  then show "find_inbox db' = find_inbox db" "find_projection db' = find_projection db" "hop_rows tb db' = hop_rows tb db"
    "erp db' = erp db" "keyed db' = keyed db" "inbox db' = inbox db" "projection db' = projection db"
    by (simp_all add: find_inbox_def find_projection_def keyed_def fun_eq_iff)
qed

lemma tracks_same_tables:
  assumes "same_tables db db'" shows "tracks H db' = tracks H db"
proof -
  note S = same_tablesD [OF assms]
  have "taken db' = taken db" "level db' = level db" by (simp_all add: taken_def level_def fun_eq_iff S)
  then show ?thesis by (simp add: tracks_def inbox_ok_def S)
qed

lemma put_failure_tables: "put_failure now i row db = Inr (x, db') \<Longrightarrow> same_tables db db'"
  by (auto simp: put_failure_def same_tables_def split: option.splits if_splits)

lemma upsertFailureReturning_tables:
  assumes "upsertFailureReturning rnd now row db fs = (Inr x, db', fs')" shows "same_tables db db'"
  using assms by (auto simp: upsertFailureReturning_def sql_simps split: sum.splits intro: put_failure_tables)

lemma persist_failure_tables:
  assumes "persist_failure rnd row s = (out, s')"
  shows "same_tables (db_of s) (db_of s')" "notices s' = notices s"
proof -
  obtain x w where t: "transact ErrTransient ErrTransient (\<lambda>now. upsertFailure rnd now row) (store s) = (x, w)"
    by (cases "transact ErrTransient ErrTransient (\<lambda>now. upsertFailure rnd now row) (store s)")
  then have "same_tables (db_of s) (durable w)"
    by (cases rule: transact_cases)
      (auto simp: upsertFailure_def sql_simps dest: upsertFailureReturning_tables)
  with assms t show "same_tables (db_of s) (db_of s')" "notices s' = notices s"
    by (auto simp: persist_failure_def on_store_def split: sum.splits)
qed

text \<open>A delivery is authentic if its bytes either are no event at all or are an event of the history under
  its own key.\<close>

definition authentic :: "envelope set \<Rightarrow> string \<Rightarrow> string \<Rightarrow> bool" where
  "authentic H key value \<longleftrightarrow>
     (case Parse value of
        Inl e \<Rightarrow> True
      | Inr env \<Rightarrow> env \<in> H \<and> key = AggregateKey (TenantID env) (AggregateType env) (AggregateID env))"

lemma ProcessRecord_authentic:
  assumes H: "history H" and a: "env \<in> H" "Parse value = Inr env" "key = AggregateKey (TenantID env) (AggregateType env) (AggregateID env)"
  shows "ProcessRecord False rnd key value pos s = process_and_redrive rnd env value (with_topic pos) s"
  using event_family [OF historyD(1) [OF H a(1)]] a(2,3) by (simp add: ProcessRecord_def Let_def)

lemma bumpPoison_tables:
  assumes "bumpPoisonAttempt rnd env value pos code s = (out, s')"
  shows "same_tables (db_of s) (db_of s')"
proof -
  obtain rc hash where fi: "failureIdentity env = (rc, hash)" by (cases "failureIdentity env")
  let ?row = "failure_of rc hash ''handler_poison'' code (receivedBytesHash value) pos Retrying"
  obtain x w where t: "transact ErrTransient ErrTransient (poison_tx rnd ?row) (store s) = (x, w)"
    by (cases "transact ErrTransient ErrTransient (poison_tx rnd ?row) (store s)")
  have "same_tables db db'" if "poison_tx rnd ?row now db fs = (Inr y, db', fs')" for now db fs y db' fs'
    using that by (auto simp: poison_tx_def sql_simps quarantine_failures_def split: if_splits
        dest!: upsertFailureReturning_tables)
  with t have "same_tables (db_of s) (durable w)"
    by (cases rule: transact_cases) auto
  with assms t fi show ?thesis
    by (auto simp: bumpPoisonAttempt_def on_store_def split: sum.splits bool.splits)
qed

lemma delivery_tracks:
  assumes H: "history H" and T: "tracks H (db_of s)" and a: "authentic H key value"
  shows "\<exists>out s'. ProcessRecord False rnd key value pos s = Some (out, s') \<and> tracks H (db_of s')"
proof (cases "Parse value")
  case (Inl e)
  obtain out s' where p: "persistParseFailure rnd value (with_topic pos) e s = (out, s')"
    by (cases "persistParseFailure rnd value (with_topic pos) e s")
  then have "same_tables (db_of s) (db_of s')" using persist_failure_tables(1) by (auto simp: persistParseFailure_def Let_def)
  then show ?thesis using T by (simp add: ProcessRecord_def Let_def Inl p tracks_same_tables)
next
  case (Inr env)
  with a have env: "env \<in> H" "key = AggregateKey (TenantID env) (AggregateType env) (AggregateID env)"
    by (simp_all add: authentic_def)
  note PR = ProcessRecord_authentic [OF H env(1) Inr env(2)]
  obtain r s1 where pv: "processValidated env s = (r, s1)" by (cases "processValidated env s")
  have T1: "tracks H (db_of s1)"
    using pv H env(1) T by (cases rule: processValidated_cases) (use T in \<open>simp_all\<close>)
  show ?thesis
  proof (cases r)
    case (Inl e)
    obtain out s2 where b: "bumpPoisonAttempt rnd env value (with_topic pos) ''handler_poison'' s1 = (out, s2)"
      by (cases "bumpPoisonAttempt rnd env value (with_topic pos) ''handler_poison'' s1")
    show ?thesis using T1 tracks_same_tables [OF bumpPoison_tables [OF b]]
      by (simp add: PR process_and_redrive_def pv Inl b)
  next
    case (Inr res)
    obtain e s2 where rd: "redriveGaps (TenantID env) (AggregateType env) (AggregateID env) s1 = Some (e, s2)" "tracks H (db_of s2)"
      using redrive_ends [OF H T1] by blast
    show ?thesis using T1 rd by (simp add: PR process_and_redrive_def pv Inr split: option.split)
  qed
qed

section \<open>Runs of the consumer\<close>

inductive consumer_run :: "envelope set \<Rightarrow> site \<Rightarrow> site \<Rightarrow> bool" for H s where
  start: "consumer_run H s s"
| deliver: "\<lbrakk> consumer_run H s s1; authentic H key value; ProcessRecord False rnd key value pos s1 = Some (out, s2) \<rbrakk> \<Longrightarrow>
    consumer_run H s s2"

lemma consumer_run_tracks:
  assumes "consumer_run H s s'" "history H" "tracks H (db_of s)" shows "tracks H (db_of s')"
  using assms(1)
proof induction
  case (deliver s1 k v rnd pos out s2)
  with delivery_tracks [OF assms(2) deliver.IH deliver.hyps(2), of rnd pos] show ?case by auto
qed (use assms in \<open>simp\<close>)

section \<open>Decisions are durable before they are acknowledged\<close>

definition inbox_grows :: "seshat_db \<Rightarrow> seshat_db \<Rightarrow> bool" where
  "inbox_grows db db' \<longleftrightarrow> (\<forall>e. find_inbox db e \<noteq> None \<longrightarrow> find_inbox db' e \<noteq> None)"

lemma inbox_grows_refl [simp]: "inbox_grows db db" by (simp add: inbox_grows_def)

lemma inbox_grows_trans: "inbox_grows a b \<Longrightarrow> inbox_grows b c \<Longrightarrow> inbox_grows a c" by (simp add: inbox_grows_def)

lemma find_map_None: "(\<And>x. P (f x) = P x) \<Longrightarrow> find P (map f xs) = None \<longleftrightarrow> find P xs = None"
  by (induction xs) auto

lemma put_inbox_grows:
  assumes "put_inbox now row db = Inr (u, db')"
  shows "inbox_grows db db'" "find_inbox db' (ir_EventID row) \<noteq> None"
proof -
  let ?m = "\<lambda>r. if ib_consumer r = ConsumerName \<and> ib_event r = ir_EventID row then merge_inbox r (new_inbox now row) else r"
  have n: "ib_event (new_inbox now row) = ir_EventID row" "ib_consumer (new_inbox now row) = ConsumerName"
    by (simp_all add: new_inbox_def)
  then have "ib_consumer (?m r) = ConsumerName \<and> ib_event (?m r) = e \<longleftrightarrow> ib_consumer r = ConsumerName \<and> ib_event r = e" for r e
    by (auto simp: merge_inbox_def)
  note m = find_map_None [of "\<lambda>r. ib_consumer r = ConsumerName \<and> ib_event r = _" ?m, OF this]
  from assms consider "find_inbox db (ir_EventID row) = None" "db' = db\<lparr>inbox := inbox db @ [new_inbox now row]\<rparr>"
    | "find_inbox db (ir_EventID row) \<noteq> None" "db' = db\<lparr>inbox := map ?m (inbox db)\<rparr>"
    by (auto simp: put_inbox_def split: if_splits)
  then have "inbox_grows db db' \<and> find_inbox db' (ir_EventID row) \<noteq> None"
  proof cases
    case 1
    then show ?thesis using n by (auto simp: inbox_grows_def find_inbox_def find_append1 split: option.split)
  next
    case 2
    then show ?thesis using m by (simp add: inbox_grows_def find_inbox_def del: not_None_eq)
  qed
  then show "inbox_grows db db'" "find_inbox db' (ir_EventID row) \<noteq> None" by blast+
qed

lemma find_inbox_update [simp]:
  "find_inbox (db\<lparr>projection := p\<rparr>) = find_inbox db" "find_inbox (set_hop_rows tb rs db) = find_inbox db"
  "find_inbox (db\<lparr>processing_failures := f\<rparr>) = find_inbox db"
  by (simp_all add: find_inbox_def fun_eq_iff)

lemma inbox_grows_update [simp]:
  "inbox_grows (db\<lparr>projection := p\<rparr>) db' = inbox_grows db db'" "inbox_grows (set_hop_rows tb rs db) db' = inbox_grows db db'"
  by (simp_all add: inbox_grows_def)

text \<open>A transaction body that keeps the inbox rows and leaves one for the event.\<close>

definition leaves_row :: "string \<Rightarrow> disposition ptx \<Rightarrow> bool" where
  "leaves_row e m \<longleftrightarrow> (\<forall>db fs d db' fs'. m db fs = (Inr d, db', fs') \<longrightarrow> inbox_grows db db' \<and> find_inbox db' e \<noteq> None)"

definition keeps_inbox :: "'a ptx \<Rightarrow> bool" where
  "keeps_inbox m \<longleftrightarrow> (\<forall>db fs x db' fs'. m db fs = (Inr x, db', fs') \<longrightarrow> find_inbox db' = find_inbox db)"

named_theorems leaves_intros \<open>structure of the handlers\<close>

lemma record_as_leaves [leaves_intros]: "ir_EventID row = e \<Longrightarrow> leaves_row e (record_as now row)"
  by (auto simp: leaves_row_def sql_simps dest: put_inbox_grows)

lemma tx_fail_leaves [leaves_intros]: "leaves_row e (tx_fail x)"
  by (simp add: leaves_row_def tx_fail_Inr)

lemma tx_bind_leaves [leaves_intros]:
  assumes "keeps_inbox m" "\<And>x. leaves_row e (k x)" shows "leaves_row e (tx_bind m k)"
  using assms unfolding leaves_row_def keeps_inbox_def tx_bind_Inr inbox_grows_def by metis

lemma keeps_inbox_simple [leaves_intros]:
  "keeps_inbox (tx_return x)" "keeps_inbox (tx_query err ps q)" "keeps_inbox (tx_fail y)"
  "keeps_inbox (insertProjection t i qty v)" "keeps_inbox (update_projection t i qty v)"
  by (auto simp: keeps_inbox_def sql_simps)

lemma keeps_inbox_bind [leaves_intros]:
  assumes "keeps_inbox m" "\<And>x. keeps_inbox (k x)" shows "keeps_inbox (tx_bind m k)"
  using assms unfolding keeps_inbox_def tx_bind_Inr by metis

lemma keeps_inbox_lineage [leaves_intros]:
  "keeps_inbox (lockLineageVersion env)" "keeps_inbox (lineageSourceEventID env)" "keeps_inbox (insertLineageHop env)"
  by (auto simp: keeps_inbox_def lockLineageVersion_def lineageSourceEventID_def insertLineageHop_def sql_simps
      split: option.splits prod.splits if_splits)

lemma leaves_cases [leaves_intros]:
  "\<lbrakk> b \<Longrightarrow> leaves_row e m; \<not> b \<Longrightarrow> leaves_row e m' \<rbrakk> \<Longrightarrow> leaves_row e (if b then m else m')"
  "\<lbrakk> o' = None \<Longrightarrow> leaves_row e m; \<And>x. o' = Some x \<Longrightarrow> leaves_row e (f x) \<rbrakk> \<Longrightarrow> leaves_row e (case o' of None \<Rightarrow> m | Some x \<Rightarrow> f x)"
  "\<lbrakk> b \<Longrightarrow> keeps_inbox n; \<not> b \<Longrightarrow> keeps_inbox n' \<rbrakk> \<Longrightarrow> keeps_inbox (if b then n else n')"
  by (auto split: option.split)

lemma applyEvent_leaves: "leaves_row (EventID env) (applyEvent now env hash canonical)"
  unfolding applyEvent_def applyProjection_def applyLineage_def
  by (intro leaves_intros) simp_all

lemma validated_tx_leaves: "leaves_row (EventID env) (validated_tx env hash canonical now)"
proof -
  have rec: "leaves_row (EventID env) (record_as now (inbox_of env h d None None []))" for h d
    by (rule record_as_leaves) simp
  show ?thesis
    using applyEvent_leaves [of env now hash canonical] rec
    unfolding leaves_row_def validated_tx_def lockInbox_def
    by (fastforce simp: sql_simps split: option.splits if_splits disposition.splits)
qed

lemma transact_leaves:
  assumes "on_store (transact be ce body) s = (r, s')" "\<And>now. leaves_row e (body now)"
  shows "inbox_grows (db_of s) (db_of s') \<and> (\<forall>d. r = Inr d \<longrightarrow> find_inbox (db_of s') e \<noteq> None)"
proof -
  obtain w where t: "transact be ce body (store s) = (r, w)" "s' = s\<lparr>store := w\<rparr>" using on_store_cases [OF assms(1)] by blast
  from t(1) have "inbox_grows (db_of s) (durable w) \<and> (\<forall>d. r = Inr d \<longrightarrow> find_inbox (durable w) e \<noteq> None)"
  proof (cases rule: transact_cases)
    case (committed now x fs fs')
    then show ?thesis using assms(2) [of now] unfolding leaves_row_def by blast
  qed simp
  then show ?thesis using t(2) by simp
qed

lemma processValidated_leaves:
  assumes "processValidated env s = (r, s')"
  shows "inbox_grows (db_of s) (db_of s') \<and> (\<forall>res. r = Inr res \<longrightarrow> find_inbox (db_of s') (EventID env) \<noteq> None)"
  using assms by (auto simp: processValidated_def notifyApplied_def split: sum.splits if_splits option.splits prod.splits
      dest!: transact_leaves [OF _ validated_tx_leaves])

lemma quarantineInbox_leaves:
  assumes "quarantineInbox env d x y s = (r, s')"
  shows "inbox_grows (db_of s) (db_of s') \<and> (\<forall>res. r = Inr res \<longrightarrow> find_inbox (db_of s') (EventID env) \<noteq> None)"
  using assms by (auto simp: quarantineInbox_def Let_def split: sum.splits prod.splits
      dest!: transact_leaves [OF _ record_as_leaves [OF inbox_of_simps(1)]])

lemma redriveGaps_grows:
  assumes "redriveGaps t ty a s = Some (e, s')" shows "inbox_grows (db_of s) (db_of s')"
proof -
  have "inbox_grows (db_of s) (db_of (snd (e, s')))"
  proof (rule redriveGaps.raw_induct [where P = "\<lambda>t ty a s y. inbox_grows (db_of s) (db_of (snd y))", OF _ assms])
    fix rec t ty a s y
    assume IH: "\<And>t ty a s y. rec t ty a s = Some y \<Longrightarrow> inbox_grows (db_of s) (db_of (snd y))"
      and run: "(case select_gap t ty a s of (Inl e, s1) \<Rightarrow> Some (Some e, s1) | (Inr None, s1) \<Rightarrow> Some (None, s1)
        | (Inr (Some row), s1) \<Rightarrow>
          (case Parse (the (ib_bytes row)) of Inl e \<Rightarrow> Some (Some (PlatEvent e), s1)
           | Inr env \<Rightarrow> (case ContentHash env of Inl e \<Rightarrow> Some (Some (PlatEvent e), s1)
              | Inr gotHash \<Rightarrow>
                  if gotHash \<noteq> ib_hash row then
                    (case quarantineInbox env DispositionQuarantinedConflict None None s1 of
                       (Inl e, s2) \<Rightarrow> Some (Some e, s2) | (Inr _, s2) \<Rightarrow> rec t ty a s2)
                  else (case processValidated env s1 of (Inl e, s2) \<Rightarrow> Some (Some e, s2)
                     | (Inr res, s2) \<Rightarrow> if res_Disposition res \<noteq> Some DispositionApplied then Some (None, s2) else rec t ty a s2)))) = Some y"
    obtain r s1 where sel: "select_gap t ty a s = (r, s1)" by (cases "select_gap t ty a s")
    note S = select_gap_durable(1) [OF sel]
    have again: "inbox_grows (db_of s) (db_of (snd y))" if "rec t ty a s2 = Some y" "inbox_grows (db_of s) (db_of s2)" for s2
      using IH [OF that(1)] that(2) inbox_grows_trans by blast
    show "inbox_grows (db_of s) (db_of (snd y))"
      using run sel S by (auto split: sum.splits option.splits prod.splits if_splits
          dest!: processValidated_leaves quarantineInbox_leaves elim: again)
  qed
  then show ?thesis by simp
qed


section \<open>An acknowledged delivery is durable\<close>

lemma find_SomeD: "find P xs = Some x \<Longrightarrow> P x \<and> x \<in> set xs"
  by (auto simp: find_Some_iff)

lemma at_position_keep [simp]:
  "at_position pos (x\<lparr>ft_status := st\<rparr>) = at_position pos x" "at_position pos (x\<lparr>ft_updated := now\<rparr>) = at_position pos x"
  "at_position pos (x\<lparr>ft_attempts := n\<rparr>) = at_position pos x" "at_position pos (x\<lparr>ft_code := c\<rparr>) = at_position pos x"
  "at_position pos (x\<lparr>ft_category := k\<rparr>) = at_position pos x"
  by (simp_all add: at_position_def)

lemma at_position_new: "at_position (fr_Source row) (new_failure now i row)"
  by (simp add: at_position_def new_failure_def)

lemma list_ex_map_keep:
  "\<lbrakk> \<And>x. P x \<Longrightarrow> P (f x); list_ex P xs \<rbrakk> \<Longrightarrow> list_ex P (map (\<lambda>x. if P x then f x else x) xs)"
  by (induction xs) auto

lemma put_failure_present:
  assumes "put_failure now i row db = Inr (x, db')" shows "list_ex (at_position (fr_Source row)) (processing_failures db')"
proof (cases "find (at_position (fr_Source row)) (processing_failures db)")
  case None
  with assms show ?thesis by (auto simp: put_failure_def at_position_new split: if_splits)
next
  case (Some r)
  then have "list_ex (at_position (fr_Source row)) (processing_failures db)" using find_SomeD by (fastforce simp: list_ex_iff)
  with assms Some show ?thesis by (auto simp: put_failure_def simp del: map_eq_conv split: if_splits intro!: list_ex_map_keep)
qed

lemma upsertFailureReturning_present:
  "upsertFailureReturning rnd now row db fs = (Inr x, db', fs') \<Longrightarrow> list_ex (at_position (fr_Source row)) (processing_failures db')"
  by (auto simp: upsertFailureReturning_def sql_simps split: sum.splits intro: put_failure_present)

lemma persist_failure_present:
  assumes "persist_failure rnd row s = ((res, err), s')" "res_ShouldAck res"
  shows "list_ex (at_position (fr_Source row)) (processing_failures (db_of s'))"
proof -
  obtain x w where t: "transact ErrTransient ErrTransient (\<lambda>now. upsertFailure rnd now row) (store s) = (Inr x, w)" "s' = s\<lparr>store := w\<rparr>"
    using assms by (auto simp: persist_failure_def on_store_def no_result_def split: sum.splits prod.splits)
  then show ?thesis
    by (auto elim!: transact_success simp: upsertFailure_def sql_simps dest: upsertFailureReturning_present)
qed

lemma bumpPoison_present:
  assumes "bumpPoisonAttempt rnd env value pos code s = ((res, err), s')" "res_ShouldAck res"
  shows "list_ex (at_position pos) (processing_failures (db_of s'))"
proof -
  obtain rc hash where fi: "failureIdentity env = (rc, hash)" by (cases "failureIdentity env")
  let ?row = "failure_of rc hash ''handler_poison'' code (receivedBytesHash value) pos Retrying"
  have src: "fr_Source ?row = pos" by (simp add: failure_of_def)
  obtain w where t: "transact ErrTransient ErrTransient (poison_tx rnd ?row) (store s) = (Inr True, w)" "s' = s\<lparr>store := w\<rparr>"
    using assms fi by (auto simp: bumpPoisonAttempt_def on_store_def no_result_def split: sum.splits bool.splits prod.splits)
  obtain now fs fs' where p: "poison_tx rnd ?row now (db_of s) fs = (Inr True, durable w, fs')"
    using transact_success [OF t(1)] by blast
  then obtain x db1 fs1 where u: "upsertFailureReturning rnd now ?row (db_of s) fs = (Inr x, db1, fs1)"
    and d: "processing_failures (durable w) = map (\<lambda>x. if at_position pos x then x\<lparr>ft_status := FailureQuarantined, ft_updated := now\<rparr> else x)
        (processing_failures db1)"
    by (auto simp: poison_tx_def sql_simps quarantine_failures_def src split: if_splits)
  show ?thesis
    using upsertFailureReturning_present [OF u] unfolding src t(2) by (simp add: d list_ex_map_keep)
qed

lemma process_and_redrive_ack:
  assumes "process_and_redrive rnd env value pos s = Some ((res, err), s')" "res_ShouldAck res"
  shows "find_inbox (db_of s') (EventID env) \<noteq> None \<or> list_ex (at_position pos) (processing_failures (db_of s'))"
proof -
  obtain r s1 where pv: "processValidated env s = (r, s1)" by (cases "processValidated env s")
  note L = processValidated_leaves [OF pv]
  show ?thesis
  proof (cases r)
    case (Inl e)
    with assms pv bumpPoison_present show ?thesis
      by (auto simp: process_and_redrive_def no_result_def split: if_splits)
  next
    case (Inr res1)
    with L have row: "find_inbox (db_of s1) (EventID env) \<noteq> None" by blast
    have "find_inbox (db_of s2) (EventID env) \<noteq> None"
      if "redriveGaps (TenantID env) (AggregateType env) (AggregateID env) s1 = Some (e, s2)" for e s2
      using redriveGaps_grows [OF that] row by (simp add: inbox_grows_def)
    with row Inr assms(1) pv show ?thesis
      by (auto simp: process_and_redrive_def split: if_splits option.splits prod.splits)
  qed
qed

lemma ProcessRecord_ack:
  assumes run: "ProcessRecord hook rnd key value pos s = Some ((res, err), s')" and ack: "res_ShouldAck res"
  shows "(\<exists>env. Parse value = Inr env \<and> find_inbox (db_of s') (EventID env) \<noteq> None) \<or>
    list_ex (at_position (with_topic pos)) (processing_failures (db_of s'))"
proof (cases "Parse value")
  case (Inl e)
  then have "persist_failure rnd (failure_of (recoveredParseIdentity value) None (if e = ErrUnsupported then ''unsupported_contract'' else ''malformed_envelope'')
      (if e = ErrUnsupported then ''unsupported_contract'' else ''malformed_envelope'') (receivedBytesHash value) (with_topic pos) FailureQuarantined) s = ((res, err), s')"
    using run by (simp add: ProcessRecord_def Let_def persistParseFailure_def)
  from persist_failure_present [OF this ack] show ?thesis by (simp add: failure_of_def)
next
  case (Inr env)
  note fam = event_family [OF Parse_valid [OF Inr]]
  show ?thesis
  proof (cases "key \<noteq> AggregateKey (TenantID env) (AggregateType env) (AggregateID env)")
    case True
    then obtain r where "quarantineInbox env DispositionQuarantinedMismatch None None s = (r, s')" "as_outcome (r, s') = ((res, err), s')"
      using run fam Inr by (cases "quarantineInbox env DispositionQuarantinedMismatch None None s")
        (auto simp: ProcessRecord_def as_outcome_def split: sum.splits)
    then show ?thesis using quarantineInbox_leaves ack Inr
      by (auto simp: as_outcome_def no_result_def split: sum.splits)
  next
    case False
    with run fam Inr consider "bumpPoisonAttempt rnd env value (with_topic pos) ''handler_poison'' s = ((res, err), s')"
      | "process_and_redrive rnd env value (with_topic pos) s = Some ((res, err), s')"
      by (auto simp: ProcessRecord_def Let_def split: if_splits)
    then show ?thesis
      using bumpPoison_present [OF _ ack] process_and_redrive_ack [OF _ ack] Inr by cases blast+
  qed
qed

section \<open>Without faults every delivery is decided\<close>

text \<open>What a text column can hold: only the identifiers that the event contract leaves open need a check.\<close>

definition storable :: "envelope \<Rightarrow> bool" where
  "storable env \<longleftrightarrow> pg_text_ok (AggregateID env) \<and>
     (case envelope_hop env of None \<Rightarrow> True | Some (tb, h) \<Rightarrow> list_all pg_text_ok (hop_texts h))"

lemma tx_query_calm [simp]: "list_all pg_text_ok ps \<Longrightarrow> tx_query err ps q db [] = (Inr (q db), db, [])"
  by (simp add: tx_query_def)

lemma tx_bind_calm: "m db [] = (Inr x, db1, []) \<Longrightarrow> tx_bind m k db [] = k x db1 []"
  by (simp add: tx_bind_def)

lemma ConsumerName_storable: "pg_text_ok ConsumerName"
  by (simp add: pg_text_ok_def ConsumerName_def valid_utf8_ascii)

lemma aggregate_type_storable:
  assumes "valid_envelope env" shows "pg_text_ok (AggregateType env)"
proof -
  obtain p where "AggregateType env = payload_aggregate p" using assms by (auto simp: valid_envelope_def split: option.splits)
  then show ?thesis by (cases p) (simp_all add: aggregate_type_defs pg_text_ok_def valid_utf8_ascii)
qed

lemma record_as_calm:
  assumes "valid_envelope env" "storable env" "CanonicalBytes env = Inr b" "ContentHash env = Inr hash"
  shows "\<exists>db'. record_as now (inbox_of env hash d x y z) db [] = (Inr d, db', [])"
proof -
  let ?row = "inbox_of env hash d x y z"
  have "list_all pg_text_ok [ConsumerName, EventID env, TenantID env, hash, AggregateType env, AggregateID env]"
    using assms ConsumerName_storable aggregate_type_storable [OF assms(1)]
    by (auto simp: ContentHash_def storable_def valid_envelope_def sha256_hex_storable intro: uuid_storable)
  moreover have "\<exists>db'. put_inbox now ?row db = Inr ((), db')"
    using assms(1) by (simp add: put_inbox_def valid_envelope_def)
  ultimately have "\<exists>db'. upsertInbox now ?row db [] = (Inr (), db', [])" by (auto simp: upsertInbox_def)
  then show ?thesis by (auto simp: record_as_def tx_bind_def tx_return_def)
qed

lemma applyProjection_calm:
  assumes T: "tracks H db" and H: "history H" and env: "env \<in> H" "stock_event env" and new: "\<not> taken db env"
    and st: "storable env" and bytes: "CanonicalBytes env = Inr canonical" "ContentHash env = Inr hash"
  shows "\<exists>d db'. applyProjection now env hash canonical db [] = (Inr d, db', [])"
proof -
  let ?t = "TenantID env" and ?i = "AggregateID env"
  have valid: "valid_envelope env" using historyD(1) [OF H env(1)] .
  obtain q where q: "AsQuantityDecremented env = Some q" "0 \<le> qd_QuantityAfter q" using stock_payload [OF valid env(2)] by metis
  have texts: "pg_text_ok ?t" "pg_text_ok ?i" using valid st by (auto simp: valid_envelope_def storable_def intro: uuid_storable)
  have v: "1 \<le> AggregateVersion env" using valid by (simp add: valid_envelope_def)
  have rec: "\<exists>d' db'. record_as now (inbox_of env hash d x y z) db1 [] = (Inr d', db', [])" for d x y z db1
    using record_as_calm [OF valid st bytes] by blast
  show ?thesis
  proof (cases "find_projection db ?t ?i")
    case None
    then show ?thesis using rec texts q
      by (auto simp: applyProjection_def tx_bind_calm insertProjection_def)
  next
    case (Some p)
    then show ?thesis using rec texts q v
      by (auto simp: applyProjection_def tx_bind_calm update_projection_def)
  qed
qed

lemma applyLineage_calm:
  assumes T: "tracks H db" and H: "history H" and env: "env \<in> H" "\<not> stock_event env" and new: "\<not> taken db env"
    and st: "storable env" and bytes: "CanonicalBytes env = Inr canonical" "ContentHash env = Inr hash"
  shows "\<exists>d db'. applyLineage now env hash canonical db [] = (Inr d, db', [])"
proof -
  have valid: "valid_envelope env" using historyD(1) [OF H env(1)] .
  obtain tb h where h: "envelope_hop env = Some (tb, h)" "lineage_table_of (EventType env) = Some tb" "hp_version h = AggregateVersion env"
    using lineage_payload [OF valid env(2)] by metis
  have texts: "pg_text_ok (TenantID env)" "pg_text_ok (AggregateID env)" "list_all pg_text_ok (hop_texts h)"
    using valid st h(1) by (auto simp: valid_envelope_def storable_def intro: uuid_storable)
  have v: "1 \<le> hp_version h" using valid h(3) by (simp add: valid_envelope_def)
  have rec: "\<exists>d' db'. record_as now (inbox_of env hash d x y z) db1 [] = (Inr d', db', [])" for d x y z db1
    using record_as_calm [OF valid st bytes] by blast
  have src: "lineageSourceEventID env db1 [] = (Inr (map_option hp_event (find_hop tb db1 (TenantID env) (AggregateID env))), db1, [])" for db1
    using texts by (simp add: lineageSourceEventID_def h(2))
  have lock: "lockLineageVersion env db [] = (Inr (map_option hp_version (find_hop tb db (TenantID env) (AggregateID env))), db, [])"
    using texts by (simp add: lockLineageVersion_def h(2))
  have ins: "\<exists>b db1. insertLineageHop env db [] = (Inr b, db1, [])"
    using texts v by (cases "list_ex (hop_conflict tb h) (hop_rows tb db)") (auto simp: insertLineageHop_def h(1) tx_stmt_def)
  show ?thesis
  proof (cases "find_hop tb db (TenantID env) (AggregateID env)")
    case None
    then show ?thesis using rec ins src by (auto simp: applyLineage_def tx_bind_def lock src)
  next
    case (Some g)
    then show ?thesis using rec by (auto simp: applyLineage_def tx_bind_def tx_return_def lock src)
  qed
qed

lemma validated_tx_calm:
  assumes T: "tracks H db" and H: "history H" and env: "env \<in> H" and st: "storable env"
    and bytes: "CanonicalBytes env = Inr canonical" "ContentHash env = Inr hash"
  shows "\<exists>d db'. validated_tx env hash canonical now db [] = (Inr d, db', [])"
proof -
  have valid: "valid_envelope env" using historyD(1) [OF H env] .
  have lock: "lockInbox (EventID env) db [] = (Inr (find_inbox db (EventID env)), db, [])"
    using valid ConsumerName_storable by (simp add: lockInbox_def valid_envelope_def uuid_storable)
  have ap: "\<exists>d db'. applyEvent now env hash canonical db [] = (Inr d, db', [])" if "\<not> taken db env"
    using applyProjection_calm [OF T H env _ that st bytes] applyLineage_calm [OF T H env _ that st bytes]
    by (simp add: event_family(3) [OF valid])
  show ?thesis
  proof (cases "find_inbox db (EventID env)")
    case None
    then show ?thesis using ap by (simp add: validated_tx_def tx_bind_def lock taken_def)
  next
    case (Some r)
    have "ib_hash r = hash" using row_of_event [OF T H env Some] bytes by (simp add: inbox_matches_def)
    moreover have "\<exists>d db'. record_as now (inbox_of env hash DispositionDuplicateNoop None None []) db [] = (Inr d, db', [])"
      using record_as_calm [OF valid st bytes] by blast
    ultimately show ?thesis using Some ap
      by (auto simp: validated_tx_def tx_bind_def lock taken_def settled_def tx_return_def split: disposition.splits)
  qed
qed

lemma processValidated_calm:
  assumes T: "tracks H (db_of s)" and H: "history H" and env: "env \<in> H" and st: "storable env" and c: "calm (store s)"
  shows "\<exists>d s'. processValidated env s = (Inr (outcome_of env d), s') \<and> calm (store s') \<and> tracks H (db_of s') \<and>
    took env d (db_of s) (db_of s')"
proof -
  have valid: "valid_envelope env" using historyD(1) [OF H env] .
  obtain canonical where b: "CanonicalBytes env = Inr canonical" using CanonicalBytes_total [OF valid] by blast
  obtain hash where h: "ContentHash env = Inr hash" using b by (simp add: ContentHash_def)
  obtain d db' where run: "validated_tx env hash canonical (next_now (store s)) (db_of s) [] = (Inr d, db', [])"
    using validated_tx_calm [OF T H env st b h] by blast
  obtain w where w: "transact ErrTransient ErrTransient (validated_tx env hash canonical) (store s) = (Inr d, w)" "calm w" "durable w = db'"
    using transact_calm [where body = "validated_tx env hash canonical", OF c run] by blast
  have "AsQuantityDecremented env \<noteq> None" if "EventType env = EventTypeQuantityDecremented"
    using stock_payload [OF valid] that by (metis option.distinct(1) stock_event_def)
  moreover have "tracks H db'" "took env d (db_of s) db'" using validated_tx_took [OF T H env b h run] by blast+
  ultimately show ?thesis
    using w by (auto simp: processValidated_def b h on_store_def notifyApplied_def outcome_of_def)
qed

section \<open>Without faults the gaps are closed\<close>

text \<open>No stored gap is next in line: the next event of an item has not been delivered.\<close>

definition closed_at :: "envelope set \<Rightarrow> seshat_db \<Rightarrow> string \<Rightarrow> string \<Rightarrow> bool" where
  "closed_at H db t i \<longleftrightarrow> (\<forall>env \<in> H. item_event t i (level db t i + 1) env \<longrightarrow> find_inbox db (EventID env) = None)"

definition closed :: "envelope set \<Rightarrow> seshat_db \<Rightarrow> bool" where
  "closed H db \<longleftrightarrow> (\<forall>t i. closed_at H db t i)"

lemma closed_empty: "closed H (empty_platform e)"
  by (simp add: closed_def closed_at_def empty_platform_def find_inbox_def)

lemma no_gap_closed:
  assumes T: "tracks H db" and H: "history H" and none: "next_gap t AggregateTypeInventoryItem i db = None"
    and some: "find_projection db t i \<noteq> None"
  shows "closed_at H db t i"
  unfolding closed_at_def
proof (intro ballI impI)
  fix env assume env: "env \<in> H" and ev: "item_event t i (level db t i + 1) env"
  obtain p where p: "find_projection db t i = Some p" using some by blast
  have k: "keyed db" using tracksD(1) [OF T] .
  show "find_inbox db (EventID env) = None"
  proof (rule ccontr)
    assume "find_inbox db (EventID env) \<noteq> None"
    then obtain r where r: "find_inbox db (EventID env) = Some r" by blast
    have m: "inbox_matches env r" using row_of_event [OF T H env r] .
    have "\<not> taken db env" using tracksD(5) [OF T env] ev by (simp add: item_event_def)
    with r m obtain b where g: "ib_disposition r = DispositionQuarantinedGap" "ib_bytes r = Some b"
      by (auto simp: taken_def inbox_matches_def)
    have ty: "AggregateType env = AggregateTypeInventoryItem"
      using stock_payload [OF historyD(1) [OF H env]] ev by (metis item_event_def)
    have "r \<in> set (inbox db)" using r find_inbox_iff [OF k] by blast
    moreover have "ib_consumer r = ConsumerName" using calculation k by (simp add: keyed_def list_all_iff)
    moreover have "ib_tenant r = t" "ib_atype r = AggregateTypeInventoryItem" "ib_aid r = i" "ib_version r = pr_version p + 1"
      using m ev ty p by (simp_all add: inbox_matches_def item_event_def level_def)
    moreover have "p \<in> set (projection db)" "pr_tenant p = t" "pr_item p = i" using p find_projection_iff [OF k] by blast+
    ultimately show False using none g unfolding next_gap_def find_None_iff list_ex_iff by (metis option.distinct(1))
  qed
qed

text \<open>What a call leaves alone: the ERP schema, and every other item.\<close>

definition settles :: "envelope set \<Rightarrow> string \<Rightarrow> string \<Rightarrow> site \<Rightarrow> site \<Rightarrow> bool" where
  "settles H t i s s' \<longleftrightarrow>
     calm (store s') \<and> tracks H (db_of s') \<and> erp (db_of s') = erp (db_of s) \<and>
     processing_failures (db_of s') = processing_failures (db_of s) \<and>
     (\<forall>e. find_inbox (db_of s') e = None \<longleftrightarrow> find_inbox (db_of s) e = None) \<and>
     (\<forall>t' i'. \<not> (t' = t \<and> i' = i) \<longrightarrow> level (db_of s') t' i' = level (db_of s) t' i') \<and>
     level (db_of s) t i \<le> level (db_of s') t i"

lemma settles_trans: "settles H t i a b \<Longrightarrow> settles H t i b c \<Longrightarrow> settles H t i a c"
  by (auto simp: settles_def)

lemma query_auto_calm:
  assumes "calm w" "list_all pg_text_ok ps"
  shows "\<exists>w' now. query_auto err ps q w = (Inr (q now (durable w)), w') \<and> calm w' \<and> durable w' = durable w"
proof -
  have "tx_query err ps (q (next_now w)) (durable w) [] = (Inr (q (next_now w) (durable w)), durable w, [])" using assms(2) by simp
  from transact_calm [where body = "\<lambda>now. tx_query err ps (q now)", OF assms(1) this] show ?thesis
    unfolding query_auto_def by blast
qed

lemma select_gap_calm:
  assumes "calm (store s)" "list_all pg_text_ok [t, ty, a]"
  shows "\<exists>s1. select_gap t ty a s = (Inr (next_gap t ty a (db_of s)), s1) \<and> calm (store s1) \<and> db_of s1 = db_of s"
  using query_auto_calm [OF assms(1), of "[ConsumerName, t, ty, a]" ErrTransient "\<lambda>_. next_gap t ty a"] assms(2) ConsumerName_storable
  by (auto simp: select_gap_def on_store_def)

lemma redrive_calm:
  assumes H: "history H" and st: "\<forall>env \<in> H. storable env" and texts: "list_all pg_text_ok [t, ty, a]"
    and "tracks H (db_of s)" "calm (store s)"
  shows "\<exists>s'. redriveGaps t ty a s = Some (None, s') \<and> settles H t a s s' \<and> next_gap t ty a (db_of s') = None"
  using assms(4,5)
proof (induction "card (gap_ids (db_of s))" arbitrary: s rule: less_induct)
  case less
  obtain s1 where sel: "select_gap t ty a s = (Inr (next_gap t ty a (db_of s)), s1)" "calm (store s1)" "db_of s1 = db_of s"
    using select_gap_calm [OF less.prems(2) texts] by blast
  show ?case
  proof (cases "next_gap t ty a (db_of s)")
    case None
    with sel less.prems show ?thesis by (auto simp: redriveGaps.simps [of t ty a s] settles_def)
  next
    case (Some row)
    obtain env where e: "redriveGaps t ty a s =
      (case processValidated env s1 of (Inl e, s2) \<Rightarrow> Some (Some e, s2)
       | (Inr res, s2) \<Rightarrow> if res_Disposition res \<noteq> Some DispositionApplied then Some (None, s2) else redriveGaps t ty a s2)"
      "env \<in> H" "item_event t a (level (db_of s) t a + 1) env" "EventID env \<in> gap_ids (db_of s)" "\<not> taken (db_of s) env"
      by (rule redrive_step [OF less.prems(1) H sel(1) [unfolded Some]])
    obtain d s2 where pv: "processValidated env s1 = (Inr (outcome_of env d), s2)" "calm (store s2)" "tracks H (db_of s2)"
      "took env d (db_of s) (db_of s2)"
      using processValidated_calm [of H s1 env] less.prems(1) H e(2) st sel(2,3) by auto
    have d: "d = DispositionApplied" using took_due [OF pv(4) e(5,3)] .
    have "gap_ids (db_of s2) = gap_ids (db_of s) - {EventID env}" using gap_ids_took pv(4) e(4) d by simp
    then have "card (gap_ids (db_of s2)) < card (gap_ids (db_of s))"
      using e(4) finite_gap_ids [OF tracksD(1) [OF less.prems(1)]] by (metis card_Diff1_less)
    from less.hyps [OF this pv(3,2)] obtain s' where s': "redriveGaps t ty a s2 = Some (None, s')" "settles H t a s2 s'"
      "next_gap t ty a (db_of s') = None" by blast
    have row: "find_inbox (db_of s) (EventID env) \<noteq> None" using e(4) by (auto simp: gap_ids_def)
    have "find_inbox (db_of s2) e = None \<longleftrightarrow> find_inbox (db_of s) e = None" for e
      using pv(4) row by (cases "e = EventID env") (auto simp: took_def)
    then have "settles H t a s s2"
      using pv(2-4) e(3) unfolding settles_def took_def d item_event_def by auto
    with s' settles_trans show ?thesis by (auto simp: e(1) pv(1) outcome_of_def d)
  qed
qed


section \<open>A delivery without faults\<close>

lemma closed_cong:
  assumes "closed H db" "\<And>t i. level db' t i = level db t i"
    and "\<And>env. \<lbrakk> env \<in> H; stock_event env; find_inbox db (EventID env) = None; find_inbox db' (EventID env) \<noteq> None \<rbrakk> \<Longrightarrow>
      AggregateVersion env \<noteq> level db (TenantID env) (AggregateID env) + 1"
  shows "closed H db'"
  using assms unfolding closed_def closed_at_def item_event_def by metis

lemma redrive_lineage:
  assumes T: "tracks H (db_of s)" and H: "history H" and "calm (store s)" "list_all pg_text_ok [t, ty, a]" "ty \<noteq> AggregateTypeInventoryItem"
  shows "\<exists>s'. redriveGaps t ty a s = Some (None, s') \<and> calm (store s') \<and> db_of s' = db_of s"
proof -
  have "next_gap t ty a (db_of s) = None" using next_gap_event [OF T H] assms(5) by (metis option.exhaust)
  with select_gap_calm [OF assms(3,4)] show ?thesis by (auto simp: redriveGaps.simps [of t ty a s])
qed

lemma redrive_stock:
  assumes H: "history H" and st: "\<forall>env \<in> H. storable env" and texts: "list_all pg_text_ok [t, AggregateTypeInventoryItem, i]"
    and T: "tracks H (db_of s)" and c: "calm (store s)" and lev: "1 \<le> level (db_of s) t i"
    and others: "\<And>t' i'. \<not> (t' = t \<and> i' = i) \<Longrightarrow> closed_at G (db_of s) t' i'" and G: "G \<subseteq> H"
  shows "\<exists>s'. redriveGaps t AggregateTypeInventoryItem i s = Some (None, s') \<and> settles H t i s s' \<and> closed G (db_of s')"
proof -
  obtain s' where s': "redriveGaps t AggregateTypeInventoryItem i s = Some (None, s')" "settles H t i s s'"
    "next_gap t AggregateTypeInventoryItem i (db_of s') = None"
    using redrive_calm [OF H st texts T c] by blast
  have T': "tracks H (db_of s')" using s'(2) by (simp add: settles_def)
  have "1 \<le> level (db_of s') t i" using s'(2) lev by (simp add: settles_def)
  then have "find_projection (db_of s') t i \<noteq> None" by (simp add: level_def split: option.splits)
  then have own: "closed_at G (db_of s') t i" using no_gap_closed [OF T' H s'(3)] G by (auto simp: closed_at_def)
  have other: "closed_at G (db_of s') t' i'" if "\<not> (t' = t \<and> i' = i)" for t' i'
    using others [OF that] s'(2) that by (simp add: closed_at_def settles_def)
  have "closed_at G (db_of s') t' i'" for t' i' using own other by (cases "t' = t \<and> i' = i") auto
  then have "closed G (db_of s')" by (simp add: closed_def)
  with s' show ?thesis by blast
qed

lemma delivery_calm:
  assumes H: "history H" and st: "\<forall>env \<in> H. storable env" and T: "tracks H (db_of s)" and C: "closed G (db_of s)" and G: "G \<subseteq> H"
    and c: "calm (store s)" and env: "env \<in> H" "Parse value = Inr env" "key = AggregateKey (TenantID env) (AggregateType env) (AggregateID env)"
  shows "\<exists>d s'. ProcessRecord False rnd key value pos s = Some ((outcome_of env d, None), s') \<and>
    (d = DispositionApplied \<or> d = DispositionDuplicateNoop \<or> d = DispositionQuarantinedGap) \<and>
    calm (store s') \<and> tracks H (db_of s') \<and> closed G (db_of s') \<and> erp (db_of s') = erp (db_of s) \<and>
    processing_failures (db_of s') = processing_failures (db_of s) \<and>
    (\<forall>e. find_inbox (db_of s') e = None \<longleftrightarrow> find_inbox (db_of s) e = None \<and> e \<noteq> EventID env)"
proof -
  let ?t = "TenantID env" and ?i = "AggregateID env"
  have valid: "valid_envelope env" using historyD(1) [OF H env(1)] .
  note PR = ProcessRecord_authentic [OF H env]
  obtain d s1 where pv: "processValidated env s = (Inr (outcome_of env d), s1)" "calm (store s1)" "tracks H (db_of s1)"
    "took env d (db_of s) (db_of s1)"
    using processValidated_calm [OF T H env(1) _ c] st env(1) by blast
  have dom: "find_inbox (db_of s1) e = None \<longleftrightarrow> find_inbox (db_of s) e = None \<and> e \<noteq> EventID env" for e
    using pv(4) by (cases "e = EventID env") (auto simp: took_def)
  have erp: "erp (db_of s1) = erp (db_of s)" "processing_failures (db_of s1) = processing_failures (db_of s)" using pv(4) by (simp_all add: took_def)
  have new: "env' = env"
    if "find_inbox (db_of s) (EventID env') = None" "find_inbox (db_of s1) (EventID env') \<noteq> None" "env' \<in> H" for env'
  proof -
    from that(1,2) dom [of "EventID env'"] have "EventID env' = EventID env" by simp
    then show ?thesis using historyD(2) [OF H that(3) env(1)] by simp
  qed
  have texts: "list_all pg_text_ok [?t, AggregateType env, ?i]"
    using valid st env(1) aggregate_type_storable [OF valid] by (auto simp: valid_envelope_def storable_def intro: uuid_storable)
  have decided: ?thesis
    if "redriveGaps ?t (AggregateType env) ?i s1 = Some (None, s')" "d = DispositionApplied \<or> d = DispositionDuplicateNoop"
      "calm (store s')" "tracks H (db_of s')" "closed G (db_of s')" "erp (db_of s') = erp (db_of s1)"
      "processing_failures (db_of s') = processing_failures (db_of s1)"
      "\<And>e. find_inbox (db_of s') e = None \<longleftrightarrow> find_inbox (db_of s1) e = None" for s'
    using that dom erp by (auto simp: PR process_and_redrive_def pv(1) outcome_of_def)
  have redriven: ?thesis
    if d: "d = DispositionApplied \<or> d = DispositionDuplicateNoop"
      and others: "\<And>t' i'. \<not> (stock_event env \<and> t' = ?t \<and> i' = ?i) \<Longrightarrow> closed_at G (db_of s1) t' i'"
  proof (cases "stock_event env")
    case True
    have "taken (db_of s1) env" using pv(4) d by (auto simp: took_def)
    then have lev: "1 \<le> level (db_of s1) ?t ?i"
      using tracksD(5) [OF pv(3) env(1) True] valid by (simp add: valid_envelope_def)
    have ty: "AggregateType env = AggregateTypeInventoryItem" using stock_payload [OF valid True] by metis
    obtain s' where "redriveGaps ?t AggregateTypeInventoryItem ?i s1 = Some (None, s')" "settles H ?t ?i s1 s'" "closed G (db_of s')"
      using redrive_stock [OF H st texts [unfolded ty] pv(3,2) lev _ G] others by blast
    then show ?thesis using d by (intro decided [of s']) (auto simp: ty settles_def)
  next
    case False
    have ty: "AggregateType env \<noteq> AggregateTypeInventoryItem" using lineage_payload [OF valid False] by metis
    obtain s' where "redriveGaps ?t (AggregateType env) ?i s1 = Some (None, s')" "calm (store s')" "db_of s' = db_of s1"
      using redrive_lineage [OF pv(3) H pv(2) texts ty] by blast
    then show ?thesis using d others False pv(3) by (intro decided [of s']) (auto simp: closed_def)
  qed
  from pv(4) consider (dup) "d = DispositionDuplicateNoop" | (gap) "d = DispositionQuarantinedGap" | (app) "d = DispositionApplied"
    by (cases d) (simp_all add: took_def)
  then show ?thesis
  proof cases
    case gap
    have lev: "level (db_of s1) = level (db_of s)" using pv(4) level_inbox_only by (simp add: took_def gap)
    have "closed G (db_of s1)"
      by (rule closed_cong [OF C]) (use lev new pv(4) G in \<open>auto simp: took_def gap\<close>)
    then show ?thesis using pv dom erp by (auto simp: PR process_and_redrive_def outcome_of_def gap)
  next
    case dup
    have lev: "level (db_of s1) = level (db_of s)" using pv(4) level_inbox_only by (simp add: took_def dup)
    have "closed G (db_of s1)"
      by (rule closed_cong [OF C]) (use lev new pv(4) G in \<open>auto simp: took_def dup taken_def\<close>)
    then show ?thesis using dup by (intro redriven) (simp_all add: closed_def)
  next
    case app
    have "closed_at G (db_of s1) t' i'" if o: "\<not> (stock_event env \<and> t' = ?t \<and> i' = ?i)" for t' i'
    proof -
      have lev: "level (db_of s1) t' i' = level (db_of s) t' i'"
        using pv(4) o by (auto simp: took_def app level_def split: if_splits)
      show ?thesis
        unfolding closed_at_def lev
      proof (intro ballI impI)
        fix env' assume e': "env' \<in> G" "item_event t' i' (level (db_of s) t' i' + 1) env'"
        then have "env' \<noteq> env" using o by (auto simp: item_event_def)
        moreover have "find_inbox (db_of s) (EventID env') = None" using C e' by (auto simp: closed_def closed_at_def)
        ultimately show "find_inbox (db_of s1) (EventID env') = None" using new [of env'] G e'(1) by blast
      qed
    qed
    then show ?thesis using app by (intro redriven) simp_all
  qed
qed

end
