(* ===== verification/Platform_Ledger.thy ===== *)
theory Platform_Ledger
  imports Platform_Delivery
begin

text \<open>
  The outbox of the ERP as the history the platform consumes.

  \<open>edges_ok\<close> is a third invariant of the source: the hop of every lineage event is an edge of the source
  tables, and the \<^verbatim>\<open>UNIQUE\<close> constraints of \<^verbatim>\<open>erp/migrate.sql\<close> keep the edges apart. With the ledger and
  the lineage invariants it gives \<open>ledger_history\<close>: the events of a reachable outbox form a \<open>history\<close>, which
  is all the platform's theories assume of their source.
\<close>

section \<open>The edges of the source\<close>

text \<open>The hop of a lineage event is an edge of the source tables.\<close>

fun edge_recorded :: "erp_db \<Rightarrow> lineage_table \<Rightarrow> hop_row \<Rightarrow> bool" where
  "edge_recorded db SupplierTable h = True"
| "edge_recorded db LotTable h =
     (\<exists>x \<in> set (lots db). lo_tenant x = hp_tenant h \<and> lo_lot x = hp_id h \<and> lo_supplier x = hp_parent h)"
| "edge_recorded db BatchTable h =
     (\<exists>x \<in> set (batches db). ba_tenant x = hp_tenant h \<and> ba_batch x = hp_id h \<and> ba_lot x = hp_parent h)"
| "edge_recorded db ShipmentTable h =
     (\<exists>x \<in> set (shipments db). sh_tenant x = hp_tenant h \<and> sh_shipment x = hp_id h \<and> sh_batch x = hp_parent h \<and>
        sh_order x = hp_order h)"

definition row_edge_ok :: "erp_db \<Rightarrow> outbox_row \<Rightarrow> bool" where
  "row_edge_ok db r \<longleftrightarrow> (\<forall>env tb h. row_envelope r = Some env \<and> envelope_hop env = Some (tb, h) \<longrightarrow>
     edge_recorded db tb h \<and> ob_tenant r = hp_tenant h)"

definition edges_unique :: "erp_db \<Rightarrow> bool" where
  "edges_unique db \<longleftrightarrow>
     inj_on (\<lambda>x. (lo_tenant x, lo_supplier x)) (set (lots db)) \<and>
     inj_on (\<lambda>x. (ba_tenant x, ba_lot x)) (set (batches db)) \<and>
     inj_on (\<lambda>x. (sh_tenant x, sh_batch x)) (set (shipments db)) \<and>
     inj_on (\<lambda>x. (sh_tenant x, sh_order x)) (set (shipments db))"

definition edges_ok :: "erp_db \<Rightarrow> bool" where
  "edges_ok db \<longleftrightarrow> edges_unique db \<and> (\<forall>r \<in> set (outbox db). row_edge_ok db r)"

lemma edges_ok_empty: "edges_ok empty_erp"
  by (simp add: edges_ok_def edges_unique_def empty_erp_def)

lemma hop_of_sel [simp]:
  "hp_tenant (hop_of env i p it ord) = TenantID env" "hp_id (hop_of env i p it ord) = i"
  "hp_parent (hop_of env i p it ord) = p" "hp_order (hop_of env i p it ord) = ord"
  by (simp_all add: hop_of_def)

text \<open>Adding rows to the tables keeps the edges that are there.\<close>

lemma edge_recorded_mono:
  assumes "edge_recorded db tb h" "set (lots db) \<subseteq> set (lots db')" "set (batches db) \<subseteq> set (batches db')"
    "set (shipments db) \<subseteq> set (shipments db')"
  shows "edge_recorded db' tb h"
  using assms by (cases tb) auto

lemma edges_ok_add:
  assumes inv: "edges_ok db" and a: "outbox_added env b db1 db'" and same: "outbox db1 = outbox db"
    and mono: "set (lots db) \<subseteq> set (lots db1)" "set (batches db) \<subseteq> set (batches db1)" "set (shipments db) \<subseteq> set (shipments db1)"
    and u: "edges_unique db1" and new: "\<And>tb h. envelope_hop env = Some (tb, h) \<Longrightarrow> edge_recorded db1 tb h \<and> TenantID env = hp_tenant h"
  shows "edges_ok db'"
proof -
  from a obtain r where r: "db' = db1\<lparr>outbox := outbox db1 @ [r]\<rparr>" "row_envelope r = Some env" "ob_tenant r = TenantID env"
    by (rule outbox_addedE)
  have tabs: "lots db' = lots db1" "batches db' = batches db1" "shipments db' = shipments db1" using r(1) by simp_all
  have keep: "edge_recorded db' tb h" if "edge_recorded db tb h \<or> edge_recorded db1 tb h" for tb h
    using that edge_recorded_mono [of _ tb h db'] mono unfolding tabs by blast
  have "row_edge_ok db' r" using new keep r(2,3) by (simp add: row_edge_ok_def)
  moreover have "row_edge_ok db' x" if "x \<in> set (outbox db)" for x
    using inv that keep unfolding edges_ok_def row_edge_ok_def by blast
  moreover have "edges_unique db'" using u by (simp add: edges_unique_def tabs)
  ultimately show ?thesis using r(1) same by (auto simp: edges_ok_def)
qed

lemma edges_ok_lot: "edges_ok db \<Longrightarrow> lot_effect cmd res db db' \<Longrightarrow> edges_ok db'"
  unfolding lot_effect_def
  by (elim exE conjE, rule edges_ok_add, assumption, assumption)
    (auto simp: edges_ok_def edges_unique_def new_lot_def lot_envelope_def envelope_hop_def AsIngredientLotReceived_def inj_on_def)

lemma edges_ok_batch: "edges_ok db \<Longrightarrow> batch_effect cmd res db db' \<Longrightarrow> edges_ok db'"
  unfolding batch_effect_def
  by (elim exE conjE, rule edges_ok_add, assumption, assumption)
    (auto simp: edges_ok_def edges_unique_def new_batch_def batch_envelope_def envelope_hop_def AsProductionBatchProduced_def inj_on_def)

lemma edges_ok_shipment: "edges_ok db \<Longrightarrow> shipment_effect cmd res db db' \<Longrightarrow> edges_ok db'"
  unfolding shipment_effect_def
  by (elim exE conjE, rule edges_ok_add, assumption, assumption)
    (auto simp: edges_ok_def edges_unique_def new_shipment_def shipment_envelope_def envelope_hop_def AsShipmentDispatched_def inj_on_def)

lemma edges_ok_supplier: "edges_ok db \<Longrightarrow> supplier_effect cmd res db db' \<Longrightarrow> edges_ok db'"
  unfolding supplier_effect_def
  by (elim exE conjE, rule edges_ok_add, assumption, assumption)
    (auto simp: edges_ok_def edges_unique_def supplier_envelope_def envelope_hop_def AsSupplierRegistered_def)

lemma edges_ok_order: "edges_ok db \<Longrightarrow> order_effect cmd res db db' \<Longrightarrow> edges_ok db'"
  unfolding order_effect_def
  by (elim exE conjE, rule edges_ok_add, assumption, assumption)
    (auto simp: edges_ok_def edges_unique_def order_envelope_def envelope_hop_def)

lemma edges_ok_seed: "edges_ok db \<Longrightarrow> seed_effect c u db db' \<Longrightarrow> edges_ok db'"
proof -
  have same: "edge_recorded (db\<lparr>items := x\<rparr>) tb h = edge_recorded db tb h" for x tb h by (cases tb) simp_all
  show "edges_ok db \<Longrightarrow> seed_effect c u db db' \<Longrightarrow> edges_ok db'"
    by (auto simp: seed_effect_def edges_ok_def edges_unique_def row_edge_ok_def same)
qed

text \<open>A reset drops whole tenants, and a hop and its edge are of one tenant.\<close>

lemma edges_ok_reset:
  assumes "edges_ok db" "reset_effect t u db db'" shows "edges_ok db'"
proof -
  have db': "db' = keep_tenants t db" using assms(2) by (simp add: reset_effect_def)
  have keep: "edge_recorded db' tb h" if "edge_recorded db tb h" "hp_tenant h \<noteq> t" for tb h
    using that by (cases tb) (auto simp: db' keep_tenants_def)
  have "edges_unique db'"
    using assms(1) by (auto simp: edges_ok_def edges_unique_def db' keep_tenants_def elim: inj_on_subset)
  moreover have "row_edge_ok db' r" if "r \<in> set (outbox db')" for r
  proof -
    have "row_edge_ok db r" "ob_tenant r \<noteq> t" using that assms(1) by (auto simp: db' keep_tenants_def edges_ok_def)
    then show ?thesis using keep by (auto simp: row_edge_ok_def)
  qed
  ultimately show ?thesis by (simp add: edges_ok_def)
qed

lemma edges_ok_moves:
  assumes m: "outbox_moves db db'" and inv: "edges_ok db" shows "edges_ok db'"
proof -
  have db': "db' = db\<lparr>outbox := outbox db'\<rparr>" using m by (simp add: outbox_moves_def)
  then have tabs: "lots db' = lots db" "batches db' = batches db" "shipments db' = shipments db"
    by (metis erp_db.surjective erp_db.update_convs(7) erp_db.select_convs)+
  have keep: "edge_recorded db' tb h = edge_recorded db tb h" for tb h by (cases tb) (simp_all add: tabs)
  have "row_edge_ok db' r'" if r': "r' \<in> set (outbox db')" for r'
  proof -
    have ids: "map ob_ident (outbox db') = map ob_ident (outbox db)" using m moves_ident by (auto simp: outbox_moves_def)
    obtain r where r: "r \<in> set (outbox db)" "ob_ident r = ob_ident r'" using set_ident [OF ids r'] by blast
    have "row_envelope r = row_envelope r'" "ob_tenant r = ob_tenant r'" using ident_fields [OF r(2)] by (simp_all add: row_envelope_def)
    then show ?thesis using inv r(1) by (auto simp: edges_ok_def row_edge_ok_def keep)
  qed
  then show ?thesis using inv by (simp add: edges_ok_def edges_unique_def tabs)
qed

lemma run_command_edges:
  assumes "edges_ok (durable w)" shows "edges_ok (durable (run_command c w))"
proof (cases c)
  case (CmdOrder d)
  then show ?thesis using accept.invariant [OF surjective_pairing, of edges_ok, OF assms] edges_ok_order by simp
next
  case (CmdSupplier d)
  then show ?thesis using register.invariant [OF surjective_pairing, of edges_ok, OF assms] edges_ok_supplier by simp
next
  case (CmdLot d)
  then show ?thesis using receive.invariant [OF surjective_pairing, of edges_ok, OF assms] edges_ok_lot by simp
next
  case (CmdBatch d)
  then show ?thesis using produce.invariant [OF surjective_pairing, of edges_ok, OF assms] edges_ok_batch by simp
next
  case (CmdShipment d)
  then show ?thesis using dispatch.invariant [OF surjective_pairing, of edges_ok, OF assms] edges_ok_shipment by simp
next
  case (CmdSeed t i q)
  with seed.change [of "(t, i, q)" w] assms show ?thesis
    by (cases "seed_inventory t i q w") (auto intro: edges_ok_seed)
qed

lemma step_edges: "source_step a b \<Longrightarrow> source_inv a \<Longrightarrow> edges_ok (durable (source (fst a))) \<Longrightarrow> edges_ok (durable (source (fst b)))"
proof (induction rule: source_step.induct)
  case (reset t s x w)
  then show ?case using reset.invariant [OF reset.hyps, of edges_ok] edges_ok_reset by simp
next
  case (claim owner ttl limit s recs w fl)
  then show ?case using edges_ok_moves [OF claiming.moves [OF source_inv_distinct [OF claim.prems(1)] claim.hyps]] by simp
next
  case (claim_error owner ttl limit s e w fl)
  then show ?case using edges_ok_moves [OF claiming.moves [OF source_inv_distinct [OF claim_error.prems(1)] claim_error.hyps]] by simp
next
  case (publish owner rec fl s x s')
  then show ?case using edges_ok_moves [OF publishOne_moves [OF publish.hyps(2) source_inv_distinct [OF publish.prems(1)]]] by simp
next
  case (release t i s x w fl)
  then show ?case using edges_ok_moves [OF released.moves [OF source_inv_distinct [OF release.prems(1)] release.hyps]] by simp
qed (simp_all add: run_command_edges)

lemma source_reach_edges: "source_reach a \<Longrightarrow> edges_ok (durable (source (fst a)))"
  by (induction rule: source_reach.induct) (auto simp: edges_ok_empty intro: step_edges source_reach_inv)

section \<open>The ledger is a history\<close>

definition ledger :: "erp_db \<Rightarrow> envelope set" where
  "ledger db = {env. \<exists>r \<in> set (outbox db). row_envelope r = Some env}"

lemma ledger_row:
  assumes "erp_inv db" "r \<in> set (outbox db)" "row_envelope r = Some env"
  shows "valid_envelope env" "ob_event r = EventID env" "row_key r = (TenantID env, AggregateType env, AggregateID env, AggregateVersion env)"
proof -
  have "row_ok r" using assms(1,2) by (simp add: erp_inv_def list_all_iff)
  then show "ob_event r = EventID env" "row_key r = (TenantID env, AggregateType env, AggregateID env, AggregateVersion env)"
    using assms(3) by (auto simp: row_ok_def row_key_def)
  show "valid_envelope env" using assms(3) Parse_valid by (auto simp: row_envelope_def split: sum.splits)
qed

lemma ledger_key:
  assumes "erp_inv db" "a \<in> ledger db" "b \<in> ledger db"
    and "AggregateType a = AggregateType b" "TenantID a = TenantID b" "AggregateID a = AggregateID b" "AggregateVersion a = AggregateVersion b"
  shows "a = b"
proof -
  obtain r x where r: "r \<in> set (outbox db)" "row_envelope r = Some a" and x: "x \<in> set (outbox db)" "row_envelope x = Some b"
    using assms(2,3) by (auto simp: ledger_def)
  have "row_key r = row_key x" using ledger_row(3) [OF assms(1) r] ledger_row(3) [OF assms(1) x] assms(4-7) by simp
  then have "r = x" using assms(1) r(1) x(1) by (auto simp: erp_inv_def distinct_map dest: inj_onD)
  then show ?thesis using r x by simp
qed

lemma ledger_event:
  assumes "erp_inv db" "a \<in> ledger db" "b \<in> ledger db" "EventID a = EventID b" shows "a = b"
proof -
  obtain r x where r: "r \<in> set (outbox db)" "row_envelope r = Some a" and x: "x \<in> set (outbox db)" "row_envelope x = Some b"
    using assms(2,3) by (auto simp: ledger_def)
  have "ob_event r = ob_event x" using ledger_row(2) [OF assms(1) r] ledger_row(2) [OF assms(1) x] assms(4) by simp
  then have "r = x" using assms(1) r(1) x(1) by (auto simp: erp_inv_def distinct_map dest: inj_onD)
  then show ?thesis using r x by simp
qed

text \<open>Consecutive events of a replay meet, and the last one ends at its result.\<close>

lemma replay_meet:
  assumes "replay q rs = Some q'" "Suc n < length rs" "row_envelope (rs ! n) = Some a" "row_envelope (rs ! Suc n) = Some b"
  shows "event_after a = event_before b"
  using assms
proof (induction rs arbitrary: q n)
  case (Cons r rs)
  show ?case
  proof (cases n)
    case 0
    with Cons.prems show ?thesis
      by (cases rs) (auto simp: event_after_def event_before_def split: option.splits bind_splits if_splits)
  next
    case (Suc m)
    with Cons show ?thesis by (auto split: option.splits if_splits)
  qed
qed simp

lemma replay_last:
  assumes "replay q rs = Some q'" "rs \<noteq> []" "row_envelope (last rs) = Some a"
  shows "event_after a = q'"
  using assms
proof (induction rs arbitrary: q)
  case (Cons r rs)
  then show ?case by (cases rs) (auto simp: event_after_def split: option.splits bind_splits if_splits)
qed simp

lemma stock_of_type:
  assumes "valid_envelope env" shows "stock_event env \<longleftrightarrow> AggregateType env = AggregateTypeInventoryItem"
proof -
  obtain p where "Payload env = Some p" "valid_payload p (EventType env) (AggregateID env)" "AggregateType env = payload_aggregate p"
    using assms by (auto simp: valid_envelope_def split: option.splits)
  then show ?thesis by (cases p) (auto simp: stock_event_def)
qed

text \<open>The rows of an item, by version.\<close>

lemma item_row_at:
  assumes inv: "erp_inv db" and it: "it \<in> set (items db)" and v: "1 \<le> v" "v \<le> ii_version it"
  obtains r env where "item_rows db it ! nat (v - 1) = r" "nat (v - 1) < length (item_rows db it)" "r \<in> set (outbox db)"
    "row_envelope r = Some env" "item_event (ii_tenant it) (ii_item it) v env"
proof -
  let ?rs = "item_rows db it" and ?n = "nat (v - 1)"
  have vs: "map ob_version ?rs = [1..ii_version it]" using inv it by (simp add: erp_inv_def list_all_iff item_ok_def)
  have len: "length ?rs = nat (ii_version it)" using arg_cong [OF vs, of length] by simp
  then have n: "?n < length ?rs" using v by linarith
  have "ob_version (?rs ! ?n) = [1..ii_version it] ! ?n" using n vs by (metis nth_map)
  then have ver: "ob_version (?rs ! ?n) = v" using n v len by (simp add: nth_upto)
  have mem: "?rs ! ?n \<in> set ?rs" using n by simp
  then have r: "?rs ! ?n \<in> set (outbox db)" "ob_tenant (?rs ! ?n) = ii_tenant it"
    "ob_atype (?rs ! ?n) = AggregateTypeInventoryItem" "ob_aid (?rs ! ?n) = ii_item it"
    by (auto simp: item_rows_def aggregate_rows_def)
  have "row_ok (?rs ! ?n)" using inv r(1) by (simp add: erp_inv_def list_all_iff)
  then obtain env where env: "row_envelope (?rs ! ?n) = Some env" by (auto simp: row_ok_def)
  have "item_event (ii_tenant it) (ii_item it) v env"
    using ledger_row [OF inv r(1) env] r ver stock_of_type by (simp add: item_event_def row_key_def)
  then show thesis using that n r(1) env by blast
qed

lemma ledger_item:
  assumes inv: "erp_inv db" and env: "env \<in> ledger db" "stock_event env"
  obtains it where "it \<in> set (items db)" "ii_tenant it = TenantID env" "ii_item it = AggregateID env"
    "1 \<le> AggregateVersion env" "AggregateVersion env \<le> ii_version it"
proof -
  obtain r where r: "r \<in> set (outbox db)" "row_envelope r = Some env" using env(1) by (auto simp: ledger_def)
  note row = ledger_row [OF inv r]
  have ty: "ob_atype r = AggregateTypeInventoryItem" using row env(2) stock_of_type by (simp add: row_key_def)
  then have "(ob_tenant r, ob_aid r) \<in> item_key ` set (items db)" using inv r(1) by (simp add: erp_inv_def)
  then obtain it where it: "it \<in> set (items db)" "ii_tenant it = ob_tenant r" "ii_item it = ob_aid r" by (auto simp: item_key_def)
  have "r \<in> set (item_rows db it)" using r(1) ty it by (simp add: item_rows_def aggregate_rows_def)
  then have "ob_version r \<in> set (map ob_version (item_rows db it))" by simp
  moreover have "map ob_version (item_rows db it) = [1..ii_version it]" using inv it(1) by (simp add: erp_inv_def list_all_iff item_ok_def)
  ultimately have "1 \<le> ob_version r" "ob_version r \<le> ii_version it" by simp_all
  then show thesis using that it row(3) by (simp add: row_key_def)
qed

lemma ledger_chain:
  assumes inv: "erp_inv db" and b: "b \<in> ledger db" "stock_event b" "1 < AggregateVersion b"
  shows "\<exists>a \<in> ledger db. item_event (TenantID b) (AggregateID b) (AggregateVersion b - 1) a \<and> event_after a = event_before b"
proof -
  let ?v = "AggregateVersion b"
  obtain it where it: "it \<in> set (items db)" "ii_tenant it = TenantID b" "ii_item it = AggregateID b" "?v \<le> ii_version it"
    using ledger_item [OF inv b(1,2)] by metis
  obtain r a where r: "item_rows db it ! nat (?v - 1 - 1) = r" "r \<in> set (outbox db)" "row_envelope r = Some a"
    "item_event (ii_tenant it) (ii_item it) (?v - 1) a"
    by (rule item_row_at [OF inv it(1), of "?v - 1"]) (use b(3) it(4) in auto)
  obtain x c where x: "item_rows db it ! nat (?v - 1) = x" "nat (?v - 1) < length (item_rows db it)" "x \<in> set (outbox db)"
    "row_envelope x = Some c" "item_event (ii_tenant it) (ii_item it) ?v c"
    by (rule item_row_at [OF inv it(1), of ?v]) (use b(3) it(4) in auto)
  have c: "c \<in> ledger db" using x(3,4) by (auto simp: ledger_def)
  have vb: "valid_envelope b" "valid_envelope c" using b(1) c ledger_row(1) [OF inv] by (auto simp: ledger_def)
  have "c = b" using ledger_key [OF inv c b(1)] x(5) b(2) it stock_of_type vb by (simp add: item_event_def)
  have n: "nat (?v - 1) = Suc (nat (?v - 1 - 1))" using b(3) by simp
  obtain q where "replay q (item_rows db it) = Some (ii_quantity it)"
    using inv it(1) by (auto simp: erp_inv_def list_all_iff item_ok_def)
  from replay_meet [OF this, of "nat (?v - 1 - 1)" a b] have "event_after a = event_before b"
    using x r \<open>c = b\<close> unfolding n by simp
  then show ?thesis using r it by (auto simp: ledger_def)
qed

fun hop_aggregate :: "lineage_table \<Rightarrow> string" where
  "hop_aggregate SupplierTable = AggregateTypeSupplier"
| "hop_aggregate LotTable = AggregateTypeIngredientLot"
| "hop_aggregate BatchTable = AggregateTypeProductionBatch"
| "hop_aggregate ShipmentTable = AggregateTypeShipment"

lemma hop_shape:
  assumes "valid_envelope env" "envelope_hop env = Some (tb, h)"
  shows "hp_tenant h = TenantID env" "hp_id h = AggregateID env" "AggregateType env = hop_aggregate tb"
proof -
  obtain p where "Payload env = Some p" "valid_payload p (EventType env) (AggregateID env)" "AggregateType env = payload_aggregate p"
    using assms by (auto simp: valid_envelope_def split: option.splits)
  then show "hp_tenant h = TenantID env" "hp_id h = AggregateID env" "AggregateType env = hop_aggregate tb"
    using assms(2) by (cases p; auto simp: envelope_hop_def AsSupplierRegistered_def AsIngredientLotReceived_def
      AsProductionBatchProduced_def AsShipmentDispatched_def split: if_splits)+
qed

lemma edge_target:
  assumes u: "edges_unique db" and e: "edge_recorded db tb h" "edge_recorded db tb h'" and c: "hop_conflict tb h h'"
  shows "hp_tenant h = hp_tenant h' \<and> hp_id h = hp_id h'"
proof (cases tb)
  case SupplierTable
  with c show ?thesis by simp
next
  case LotTable
  obtain x where x: "x \<in> set (lots db)" "lo_tenant x = hp_tenant h" "lo_lot x = hp_id h" "lo_supplier x = hp_parent h"
    using e(1) LotTable by auto
  obtain y where y: "y \<in> set (lots db)" "lo_tenant y = hp_tenant h'" "lo_lot y = hp_id h'" "lo_supplier y = hp_parent h'"
    using e(2) LotTable by auto
  have "hp_tenant h = hp_tenant h'" "hp_parent h = hp_parent h' \<Longrightarrow> x = y"
    using inj_onD [of "\<lambda>x. (lo_tenant x, lo_supplier x)" "set (lots db)" x y] u x y c LotTable by (auto simp: edges_unique_def)
  with x y c LotTable show ?thesis by auto
next
  case BatchTable
  obtain x where x: "x \<in> set (batches db)" "ba_tenant x = hp_tenant h" "ba_batch x = hp_id h" "ba_lot x = hp_parent h"
    using e(1) BatchTable by auto
  obtain y where y: "y \<in> set (batches db)" "ba_tenant y = hp_tenant h'" "ba_batch y = hp_id h'" "ba_lot y = hp_parent h'"
    using e(2) BatchTable by auto
  have "hp_tenant h = hp_tenant h'" "hp_parent h = hp_parent h' \<Longrightarrow> x = y"
    using inj_onD [of "\<lambda>x. (ba_tenant x, ba_lot x)" "set (batches db)" x y] u x y c BatchTable by (auto simp: edges_unique_def)
  with x y c BatchTable show ?thesis by auto
next
  case ShipmentTable
  obtain x where x: "x \<in> set (shipments db)" "sh_tenant x = hp_tenant h" "sh_shipment x = hp_id h" "sh_batch x = hp_parent h" "sh_order x = hp_order h"
    using e(1) ShipmentTable by auto
  obtain y where y: "y \<in> set (shipments db)" "sh_tenant y = hp_tenant h'" "sh_shipment y = hp_id h'" "sh_batch y = hp_parent h'" "sh_order y = hp_order h'"
    using e(2) ShipmentTable by auto
  have "hp_tenant h = hp_tenant h'" "hp_parent h = hp_parent h' \<Longrightarrow> x = y" "hp_order h = hp_order h' \<Longrightarrow> x = y"
    using inj_onD [of "\<lambda>x. (sh_tenant x, sh_batch x)" "set (shipments db)" x y]
      inj_onD [of "\<lambda>x. (sh_tenant x, sh_order x)" "set (shipments db)" x y] u x y c ShipmentTable by (auto simp: edges_unique_def)
  with x y c ShipmentTable show ?thesis by auto
qed

lemma ledger_hops:
  assumes inv: "erp_inv db" "causal db" "edges_ok db" and a: "a \<in> ledger db" and b: "b \<in> ledger db"
    and hop: "envelope_hop a = Some (tb, h)" "envelope_hop b = Some (tb, h')" "hop_conflict tb h h'"
  shows "a = b"
proof -
  obtain r x where r: "r \<in> set (outbox db)" "row_envelope r = Some a" and x: "x \<in> set (outbox db)" "row_envelope x = Some b"
    using a b by (auto simp: ledger_def)
  note va = ledger_row [OF inv(1) r] and vb = ledger_row [OF inv(1) x]
  note sa = hop_shape [OF va(1) hop(1)] and sb = hop_shape [OF vb(1) hop(2)]
  have e: "edge_recorded db tb h" "edge_recorded db tb h'"
    using inv(3) r x hop(1,2) unfolding edges_ok_def row_edge_ok_def by blast+
  have "edges_unique db" using inv(3) by (simp add: edges_ok_def)
  from edge_target [OF this e hop(3)] have "hp_tenant h = hp_tenant h' \<and> hp_id h = hp_id h'" .
  moreover have "AggregateVersion a = firstAggregateVersion" "AggregateVersion b = firstAggregateVersion"
    using inv(2) r(1) x(1) va(3) vb(3) sa(3) sb(3) by (cases tb; auto simp: causal_def row_key_def)+
  ultimately show ?thesis using ledger_key [OF inv(1) a b] sa sb by simp
qed

lemma ledger_history:
  assumes "source_reach (s, fl)" shows "history (ledger (durable (source s)))"
proof -
  let ?db = "durable (source s)"
  have inv: "erp_inv ?db" "causal ?db" using source_reach_inv [OF assms] by (simp_all add: source_inv_def Let_def source_ok_def)
  have ed: "edges_ok ?db" using source_reach_edges [OF assms] by simp
  have valid: "valid_envelope env" if "env \<in> ledger ?db" for env using that ledger_row(1) [OF inv(1)] by (auto simp: ledger_def)
  have first: "AggregateVersion env = 1" if "env \<in> ledger ?db" "\<not> stock_event env" for env
    using that valid [OF that(1)] stock_of_type inv(2) ledger_row(3) [OF inv(1)]
    by (auto simp: ledger_def causal_def row_key_def firstAggregateVersion_def)
  show ?thesis
    unfolding history_def inj_on_def
    using valid ledger_event [OF inv(1)] ledger_key [OF inv(1)] ledger_chain [OF inv(1)] first ledger_hops [OF inv ed] by blast
qed

end
