(* ===== verification/Platform_Convergence.thy ===== *)
theory Platform_Convergence
  imports Platform_Ledger
begin

text \<open>
  Convergence of the consumer.

  \<^item> \<open>stock_spec\<close> and \<open>lineage_spec\<close> say what the projections promise for a set of delivered events.
  \<^item> \<open>projection_refines\<close> and \<open>lineage_refines\<close> show that the tables of a consumer that has caught up are
    what the specification says; \<open>caught_up\<close> is kept by every poll.
  \<^item> The properties: polls converge, deliveries always return, the projection follows the history under all
    failures, acknowledgements are durable, and the composition with the source.
\<close>

section \<open>The specification\<close>

text \<open>What the projection of an item promises: starting before version 1, follow the delivered events one
  version at a time as far as they go, and show what the last one left. The order and the number of
  deliveries do not matter.\<close>

definition shown_version :: "(int \<times> int) option \<Rightarrow> int" where
  "shown_version shown = (case shown of None \<Rightarrow> 0 | Some (q, v) \<Rightarrow> v)"

function climb :: "string \<Rightarrow> string \<Rightarrow> (int \<times> int) option \<Rightarrow> envelope list \<Rightarrow> (int \<times> int) option" where
  "climb t i shown D =
     (case find (item_event t i (shown_version shown + 1)) D of
        None \<Rightarrow> shown
      | Some env \<Rightarrow> climb t i (Some (event_after env, AggregateVersion env)) (removeAll env D))"
  by pat_completeness auto

termination
  by (relation "measure (\<lambda>(t, i, shown, D). length D)")
    (auto simp: find_Some_iff intro!: length_removeAll_less)

declare climb.simps [simp del]

definition stock_spec :: "envelope list \<Rightarrow> string \<Rightarrow> string \<Rightarrow> (int \<times> int) option" where
  "stock_spec D t i = climb t i None D"

definition lineage_spec :: "envelope list \<Rightarrow> lineage_table \<Rightarrow> hop_row set" where
  "lineage_spec D tb = {h. \<exists>env \<in> set D. envelope_hop env = Some (tb, h)}"

text \<open>When events are told apart by their versions, only the set of delivered events matters.\<close>

lemma climb_cong:
  assumes "set D = set D'" "\<And>a b v. \<lbrakk> a \<in> set D; b \<in> set D; item_event t i v a; item_event t i v b \<rbrakk> \<Longrightarrow> a = b"
  shows "climb t i shown D = climb t i shown D'"
  using assms
proof (induction t i shown D arbitrary: D' rule: climb.induct)
  case (1 t i shown D)
  let ?P = "item_event t i (shown_version shown + 1)"
  show ?case
  proof (cases "find ?P D")
    case None
    then have "find ?P D' = None" using "1.prems"(1) by (simp add: find_None_iff)
    with None show ?thesis by (simp add: climb.simps [of t i shown])
  next
    case (Some env)
    then have env: "env \<in> set D" "?P env" by (auto dest: find_SomeD)
    then obtain x where x: "find ?P D' = Some x" using "1.prems"(1) by (metis find_None_iff not_Some_eq)
    then have "x \<in> set D" "?P x" using "1.prems"(1) by (auto dest: find_SomeD)
    then have "x = env" using "1.prems"(2) env by blast
    moreover have "climb t i (Some (event_after env, AggregateVersion env)) (removeAll env D) =
        climb t i (Some (event_after env, AggregateVersion env)) (removeAll env D')"
      by (rule "1.IH" [OF Some]) (use "1.prems" in auto)
    ultimately show ?thesis using Some x by (simp add: climb.simps [of t i shown])
  qed
qed

lemma stock_spec_cong:
  assumes "history H" "set D \<subseteq> H" "set D = set D'" shows "stock_spec D t i = stock_spec D' t i"
  unfolding stock_spec_def by (rule climb_cong [OF assms(3)]) (use assms(2) in \<open>blast intro: historyD(3) [OF assms(1)]\<close>)

lemma climb_reaches:
  assumes "\<And>v. shown_version shown < v \<Longrightarrow> v \<le> k \<Longrightarrow> \<exists>env \<in> set D. item_event t i v env"
    and "\<And>env. env \<in> set D \<Longrightarrow> \<not> item_event t i (k + 1) env"
    and "\<And>a b v. \<lbrakk> a \<in> set D; b \<in> set D; item_event t i v a; item_event t i v b \<rbrakk> \<Longrightarrow> a = b"
    and "shown_version shown \<le> k" "shown_version shown < k \<Longrightarrow> e \<in> set D \<and> item_event t i k e"
  shows "climb t i shown D = (if shown_version shown = k then shown else Some (event_after e, k))"
  using assms
proof (induction t i shown D rule: climb.induct)
  case (1 t i shown D)
  let ?v = "shown_version shown"
  show ?case
  proof (cases "?v = k")
    case True
    then have "find (item_event t i (?v + 1)) D = None" using "1.prems"(2) by (auto simp: find_None_iff)
    with True show ?thesis by (simp add: climb.simps [of t i shown D])
  next
    case False
    then obtain env where "env \<in> set D" "item_event t i (?v + 1) env" using "1.prems"(1) [of "?v + 1"] "1.prems"(4) by auto
    then obtain env where f: "find (item_event t i (?v + 1)) D = Some env"
      by (metis find_None_iff not_Some_eq)
    then have env: "env \<in> set D" "item_event t i (?v + 1) env" by (auto dest: find_SomeD)
    let ?shown = "Some (event_after env, AggregateVersion env)"
    have sv: "shown_version ?shown = ?v + 1" using env(2) by (simp add: shown_version_def item_event_def)
    have "climb t i ?shown (removeAll env D) =
        (if shown_version ?shown = k then ?shown else Some (event_after e, k))"
    proof (rule "1.IH" [OF f])
      show "\<exists>x \<in> set (removeAll env D). item_event t i v x" if v: "shown_version ?shown < v" "v \<le> k" for v
      proof -
        obtain x where "x \<in> set D" "item_event t i v x" using "1.prems"(1) [of v] v sv by auto
        moreover have "x \<noteq> env" using calculation(2) env(2) v(1) sv by (auto simp: item_event_def)
        ultimately show ?thesis by auto
      qed
      show "shown_version ?shown \<le> k" using False "1.prems"(4) sv by simp
      show "e \<in> set (removeAll env D) \<and> item_event t i k e" if "shown_version ?shown < k"
        using "1.prems"(5) that sv env(2) by (auto simp: item_event_def)
    qed (use "1.prems"(2,3) in auto)
    moreover have "env = e" if "?v + 1 = k"
      using "1.prems"(3) [OF env(1) _ env(2)] "1.prems"(5) that False by auto
    ultimately show ?thesis
      using f False sv env(2) by (auto simp: climb.simps [of t i shown D] item_event_def)
  qed
qed

section \<open>The projection is what the specification shows\<close>

definition delivered :: "envelope list \<Rightarrow> seshat_db \<Rightarrow> bool" where
  "delivered D db \<longleftrightarrow> (\<forall>e. find_inbox db e \<noteq> None \<longleftrightarrow> e \<in> EventID ` set D)"

lemma delivered_iff:
  assumes "delivered D db" "history H" "set D \<subseteq> H" "env \<in> H"
  shows "find_inbox db (EventID env) \<noteq> None \<longleftrightarrow> env \<in> set D"
proof -
  have "EventID env \<in> EventID ` set D \<longleftrightarrow> env \<in> set D"
    using historyD(2) [OF assms(2)] assms(3,4) by blast
  then show ?thesis using assms(1) by (simp add: delivered_def)
qed

text \<open>Below an event of the history there is one of every version.\<close>

lemma history_below:
  assumes H: "history H" and e: "e \<in> H" "item_event t i k e"
  shows "\<lbrakk> 1 \<le> v; v \<le> k \<rbrakk> \<Longrightarrow> \<exists>env \<in> H. item_event t i v env"
  using e
proof (induction "nat (k - v)" arbitrary: k e)
  case 0
  then show ?case by force
next
  case (Suc n)
  then have "1 < k" by simp
  then obtain a where "a \<in> H" "item_event t i (k - 1) a"
    using historyD(4) [OF H Suc.prems(3)] Suc.prems(4) by (auto simp: item_event_def)
  with Suc.hyps(1) [of "k - 1" a] Suc.hyps(2) Suc.prems(1) show ?case by simp
qed

lemma projection_refines:
  assumes T: "tracks H db" and H: "history H" and C: "closed_at H db t i" and D: "delivered D db" "set D \<subseteq> H"
  shows "map_option (\<lambda>p. (pr_quantity p, pr_version p)) (find_projection db t i) = stock_spec D t i"
proof -
  note inD = delivered_iff [OF D(1) H D(2)]
  have uniq: "\<lbrakk> a \<in> set D; b \<in> set D; item_event t i v a; item_event t i v b \<rbrakk> \<Longrightarrow> a = b" for a b v
    using historyD(3) [OF H] D(2) by blast
  have top: "\<not> item_event t i (level db t i + 1) env" if "env \<in> set D" for env
  proof -
    have "env \<in> H" using that D(2) by blast
    then show ?thesis using C inD [of env] that by (auto simp: closed_at_def)
  qed
  show ?thesis
  proof (cases "find_projection db t i")
    case None
    then have "level db t i = 0" by (simp add: level_def)
    then have "climb t i None D = None"
      using climb_reaches [where shown = None and k = 0 and D = D and t = t and i = i] top uniq by (simp add: shown_version_def)
    with None show ?thesis by (simp add: stock_spec_def)
  next
    case (Some p)
    then have lev: "level db t i = pr_version p" by (simp add: level_def)
    obtain e where e: "e \<in> H" "item_event t i (pr_version p) e" "event_after e = pr_quantity p" using tracksD(4) [OF T Some] by blast
    have pos: "1 \<le> pr_version p" using historyD(1) [OF H e(1)] e(2) by (simp add: valid_envelope_def item_event_def)
    have got: "env \<in> set D" if "env \<in> H" "item_event t i v env" "v \<le> pr_version p" for env v
    proof -
      have "taken db env" using tracksD(5) [OF T that(1)] that lev by (simp add: item_event_def)
      then show ?thesis using inD [OF that(1)] by (auto simp: taken_def)
    qed
    have below: "\<exists>env \<in> set D. item_event t i v env" if "0 < v" "v \<le> pr_version p" for v
      using history_below [OF H e(1,2), of v] got that by fastforce
    have "climb t i None D = Some (event_after e, pr_version p)"
      using climb_reaches [where shown = None and k = "pr_version p" and D = D and t = t and i = i and e = e]
        below top uniq pos got [OF e(1,2)] e(2) lev by (simp add: shown_version_def)
    with Some e(3) show ?thesis by (simp add: stock_spec_def)
  qed
qed

lemma lineage_refines:
  assumes T: "tracks H db" and H: "history H" and D: "delivered D db" "set D \<subseteq> H"
  shows "set (hop_rows tb db) = lineage_spec D tb"
proof (rule set_eqI)
  fix h
  have got: "taken db env \<longleftrightarrow> env \<in> set D" if "env \<in> H" "envelope_hop env = Some (tb, h)" for env
  proof -
    have "\<not> stock_event env" using that stock_payload [OF historyD(1) [OF H that(1)]] by (metis option.distinct(1))
    then have "find_inbox db (EventID env) \<noteq> None \<Longrightarrow> taken db env"
      using row_of_event [OF T H that(1)] by (auto simp: taken_def inbox_matches_def)
    then show ?thesis using delivered_iff [OF D(1) H D(2) that(1)] by (auto simp: taken_def)
  qed
  show "h \<in> set (hop_rows tb db) \<longleftrightarrow> h \<in> lineage_spec D tb"
    using tracksD(6,7) [OF T] got D(2) unfolding lineage_spec_def by blast
qed

section \<open>Polls\<close>

text \<open>The events of a list of records, and that each record is one of the history, under its own key.\<close>

definition record_events :: "kgo_record list \<Rightarrow> envelope list" where
  "record_events rs = concat (map (\<lambda>r. case Parse (kr_Value r) of Inl e \<Rightarrow> [] | Inr env \<Rightarrow> [env]) rs)"

definition genuine :: "envelope set \<Rightarrow> kgo_record \<Rightarrow> bool" where
  "genuine H r \<longleftrightarrow> (\<exists>env \<in> H. Parse (kr_Value r) = Inr env \<and> kr_Key r = AggregateKey (TenantID env) (AggregateType env) (AggregateID env))"

lemma record_events_simps [simp]:
  "record_events [] = []" "record_events (rs @ rs') = record_events rs @ record_events rs'"
  "Parse (kr_Value r) = Inr env \<Longrightarrow> record_events (r # rs) = env # record_events rs"
  by (simp_all add: record_events_def)

lemma genuine_events: "\<forall>r \<in> set rs. genuine H r \<Longrightarrow> set (record_events rs) \<subseteq> H"
  by (induction rs) (auto simp: genuine_def)

text \<open>Where a consumer stands that has taken the events of a list: the state tracks the history, no event of
  \<open>G\<close> that could be applied waits, and the inbox has just these events.\<close>

definition caught_up :: "envelope set \<Rightarrow> envelope set \<Rightarrow> envelope list \<Rightarrow> site \<Rightarrow> bool" where
  "caught_up H G D s \<longleftrightarrow> calm (store s) \<and> tracks H (db_of s) \<and> closed G (db_of s) \<and> delivered D (db_of s)"

text \<open>What a run of deliveries keeps.\<close>

definition beside :: "site \<Rightarrow> site \<Rightarrow> bool" where
  "beside s s' \<longleftrightarrow> erp (db_of s') = erp (db_of s) \<and> processing_failures (db_of s') = processing_failures (db_of s)"

lemma caught_up_start: "\<lbrakk> history H; calm (store s); db_of s = empty_platform e \<rbrakk> \<Longrightarrow> caught_up H G [] s"
  by (simp add: caught_up_def tracks_empty closed_empty delivered_def) (simp add: empty_platform_def find_inbox_def)

lemma delivery_caught_up:
  assumes H: "history H" and st: "\<forall>env \<in> H. storable env" and G: "G \<subseteq> H" and c: "caught_up H G D s"
    and env: "env \<in> H" "Parse v = Inr env" "k = AggregateKey (TenantID env) (AggregateType env) (AggregateID env)"
  shows "\<exists>d s'. ProcessRecord False rnd k v pos s = Some ((outcome_of env d, None), s') \<and>
    (d = DispositionApplied \<or> d = DispositionDuplicateNoop \<or> d = DispositionQuarantinedGap) \<and>
    caught_up H G (D @ [env]) s' \<and> beside s s'"
proof -
  have c': "calm (store s)" "tracks H (db_of s)" "closed G (db_of s)" "delivered D (db_of s)" using c by (simp_all add: caught_up_def)
  obtain d s' where p: "ProcessRecord False rnd k v pos s = Some ((outcome_of env d, None), s')"
    "d = DispositionApplied \<or> d = DispositionDuplicateNoop \<or> d = DispositionQuarantinedGap" "calm (store s')"
    "tracks H (db_of s')" "closed G (db_of s')" "erp (db_of s') = erp (db_of s)"
    "processing_failures (db_of s') = processing_failures (db_of s)"
    "\<forall>e. find_inbox (db_of s') e = None \<longleftrightarrow> find_inbox (db_of s) e = None \<and> e \<noteq> EventID env"
    using delivery_calm [OF H st c'(2,3) G c'(1) env, of rnd pos] by blast
  have "delivered (D @ [env]) (db_of s')" using p(8) c'(4) unfolding delivered_def by auto
  with p show ?thesis by (auto simp: caught_up_def beside_def)
qed

lemma consume_records_calm:
  assumes H: "history H" and st: "\<forall>env \<in> H. storable env" and G: "G \<subseteq> H"
  shows "\<lbrakk> caught_up H G D s; \<forall>r \<in> set rs. genuine H r \<rbrakk> \<Longrightarrow>
    \<exists>out' s'. consume_records rnd i rs out done' s = Some ((out', done' @ rs, None), s') \<and>
      cr_Acked out' = cr_Acked out \<and> caught_up H G (D @ record_events rs) s' \<and> beside s s'"
proof (induction rs arbitrary: D i out done' s)
  case (Cons r rs)
  obtain env where env: "env \<in> H" "Parse (kr_Value r) = Inr env"
    "kr_Key r = AggregateKey (TenantID env) (AggregateType env) (AggregateID env)"
    using Cons.prems(2) by (auto simp: genuine_def)
  obtain d s1 where p: "ProcessRecord False (rnd i) (kr_Key r) (kr_Value r) (record_position r) s = Some ((outcome_of env d, None), s1)"
    "caught_up H G (D @ [env]) s1" "beside s s1"
    using delivery_caught_up [OF H st G Cons.prems(1) env, of "rnd i" "record_position r"] by blast
  from Cons.IH [OF p(2), of "i + 1" "out\<lparr>cr_Fetched := cr_Fetched out + 1, cr_Processed := cr_Processed out + 1\<rparr>" "done' @ [r]"]
  show ?case using Cons.prems(2) p(1,3) env(2) by (simp add: beside_def outcome_of_def)
qed (simp add: beside_def)

text \<open>Polls one after the other, with offset commits that may fail.\<close>

inductive polls :: "site \<Rightarrow> kgo_record list \<Rightarrow> site \<Rightarrow> bool" for s where
  start: "polls s [] s"
| poll: "\<lbrakk> polls s rs s1; ConsumeOnce rnd (Fetches ps) ok s1 = Some (x, s2) \<rbrakk> \<Longrightarrow>
    polls s (rs @ concat (map fp_Records ps)) s2"
| failed: "\<lbrakk> polls s rs s1; ConsumeOnce rnd FetchFailed ok s1 = Some (x, s2) \<rbrakk> \<Longrightarrow> polls s rs s2"

lemma observe_lag_acked: "cr_Acked (fold observe_lag ps out) = cr_Acked out"
  by (induction ps arbitrary: out) (simp_all add: observe_lag_def Let_def split: list.splits)

lemma ConsumeOnce_calm:
  assumes "history H" "\<forall>env \<in> H. storable env" "G \<subseteq> H" "caught_up H G D s" "\<forall>r \<in> set (concat (map fp_Records ps)). genuine H r"
  shows "\<exists>out rs s'. ConsumeOnce rnd (Fetches ps) ok s = Some ((out, rs, if rs = concat (map fp_Records ps) then None else Some ConsumeCommit), s') \<and>
    (ok \<longrightarrow> rs = concat (map fp_Records ps)) \<and> cr_Acked out = length rs \<and>
    caught_up H G (D @ record_events (concat (map fp_Records ps))) s' \<and> beside s s'"
proof -
  let ?rs = "concat (map fp_Records ps)" and ?o = "fold observe_lag ps empty_consume"
  have z: "cr_Acked ?o = 0" by (simp add: observe_lag_acked empty_consume_def)
  obtain out s' where c: "consume_records rnd 0 ?rs ?o [] s = Some ((out, ?rs, None), s')" "cr_Acked out = 0"
    "caught_up H G (D @ record_events ?rs) s'" "beside s s'"
    using consume_records_calm [OF assms, of rnd 0 ?o "[]"] z by auto
  show ?thesis
  proof (cases "?rs = []")
    case True
    then show ?thesis using c by (simp add: ConsumeOnce_def)
  next
    case False
    then show ?thesis using c by (cases ok) (simp_all add: ConsumeOnce_def)
  qed
qed

lemma polls_caught_up:
  assumes "polls s rs s'" "history H" "\<forall>env \<in> H. storable env" "caught_up H H [] s" "\<forall>r \<in> set rs. genuine H r"
  shows "caught_up H H (record_events rs) s'"
  using assms(1,5)
proof induction
  case start
  then show ?case using assms(4) by simp
next
  case (poll rs s1 rnd ps ok x s2)
  then have "caught_up H H (record_events rs) s1" by auto
  from ConsumeOnce_calm [OF assms(2,3) subset_refl this, of ps rnd ok] poll show ?case by auto
qed (simp add: ConsumeOnce_def)

lemma caught_up_shows:
  assumes "caught_up H G D s" "history H" "set D \<subseteq> H"
  shows "{env \<in> H. TenantID env = t} \<subseteq> G \<Longrightarrow>
      map_option (\<lambda>p. (pr_quantity p, pr_version p)) (find_projection (db_of s) t i) = stock_spec D t i"
    and "set (hop_rows tb (db_of s)) = lineage_spec D tb"
proof -
  have T: "tracks H (db_of s)" "delivered D (db_of s)" "closed G (db_of s)" using assms(1) by (simp_all add: caught_up_def)
  show "set (hop_rows tb (db_of s)) = lineage_spec D tb" using lineage_refines [OF T(1) assms(2) T(2) assms(3)] .
  assume "{env \<in> H. TenantID env = t} \<subseteq> G"
  then have "closed_at H (db_of s) t i" using T(3) by (auto simp: closed_def closed_at_def item_event_def)
  then show "map_option (\<lambda>p. (pr_quantity p, pr_version p)) (find_projection (db_of s) t i) = stock_spec D t i"
    using projection_refines [OF T(1) assms(2) _ T(2) assms(3)] by blast
qed

section \<open>From the ledger to the projection\<close>

definition row_record :: "outbox_row \<Rightarrow> string \<times> string" where
  "row_record r = (AggregateKey (ob_tenant r) (ob_atype r) (ob_aid r), ob_bytes r)"

abbreviation key_value :: "kgo_record \<Rightarrow> string \<times> string" where
  "key_value k \<equiv> (kr_Key k, kr_Value k)"

lemma genuine_row:
  assumes "erp_inv db" "r \<in> set (outbox db)" "key_value k = row_record r"
  shows "\<exists>env \<in> ledger db. row_envelope r = Some env \<and> Parse (kr_Value k) = Inr env \<and>
    kr_Key k = AggregateKey (TenantID env) (AggregateType env) (AggregateID env)"
proof -
  have "row_ok r" using assms(1,2) by (simp add: erp_inv_def list_all_iff)
  then obtain env where env: "row_envelope r = Some env" by (auto simp: row_ok_def)
  moreover have "Parse (ob_bytes r) = Inr env" using env by (auto simp: row_envelope_def split: sum.splits)
  ultimately show ?thesis
    using assms(2,3) ledger_row(3) [OF assms(1,2) env] by (auto simp: ledger_def row_record_def row_key_def)
qed

lemma record_events_ledger:
  assumes inv: "erp_inv db" and rs: "key_value ` set rs = row_record ` set (outbox db)"
  shows "set (record_events rs) = ledger db" "\<forall>k \<in> set rs. genuine (ledger db) k"
proof -
  show g: "\<forall>k \<in> set rs. genuine (ledger db) k"
  proof
    fix k assume "k \<in> set rs"
    then obtain r where "r \<in> set (outbox db)" "key_value k = row_record r" using rs by blast
    from genuine_row [OF inv this] show "genuine (ledger db) k" by (auto simp: genuine_def)
  qed
  have "env \<in> set (record_events rs)" if "env \<in> ledger db" for env
  proof -
    obtain r where r: "r \<in> set (outbox db)" "row_envelope r = Some env" using \<open>env \<in> ledger db\<close> by (auto simp: ledger_def)
    have "row_record r \<in> key_value ` set rs" using r(1) rs by simp
    then obtain k where k: "row_record r = key_value k" "k \<in> set rs" by (rule imageE)
    obtain x where "row_envelope r = Some x" "Parse (kr_Value k) = Inr x" using genuine_row [OF inv r(1) k(1) [symmetric]] by blast
    then have "Parse (kr_Value k) = Inr env" using r(2) by simp
    then show ?thesis using k(2) by (force simp: record_events_def)
  qed
  then show "set (record_events rs) = ledger db" using genuine_events [OF g] by blast
qed

lemma stock_spec_ledger:
  assumes inv: "erp_inv db" and it: "it \<in> set (items db)" "1 \<le> ii_version it" and D: "set D \<subseteq> ledger db" "{env \<in> ledger db. TenantID env = ii_tenant it} \<subseteq> set D"
  shows "stock_spec D (ii_tenant it) (ii_item it) = Some (ii_quantity it, ii_version it)"
proof -
  let ?t = "ii_tenant it" and ?i = "ii_item it" and ?k = "ii_version it" and ?rs = "item_rows db it"
  obtain q where q: "replay q ?rs = Some (ii_quantity it)" and len: "map ob_version ?rs = [1..?k]"
    using inv it(1) by (auto simp: erp_inv_def list_all_iff item_ok_def)
  have n: "length ?rs = nat ?k" using arg_cong [OF len, of length] by simp
  obtain r e where e: "?rs ! nat (?k - 1) = r" "r \<in> set (outbox db)" "row_envelope r = Some e" "item_event ?t ?i ?k e"
    by (rule item_row_at [OF inv it(1), of ?k]) (use it(2) in auto)
  have ne: "?rs \<noteq> []" using n it(2) by auto
  moreover have "length ?rs - 1 = nat (?k - 1)" using n by simp
  ultimately have "last ?rs = r" using e(1) last_conv_nth [OF ne] by simp
  with ne have after: "event_after e = ii_quantity it" using replay_last [OF q] e(3) by simp
  have "climb ?t ?i None D = Some (event_after e, ?k)"
  proof (subst climb_reaches [where k = ?k and e = e])
    fix v assume v: "shown_version None < v" "v \<le> ?k"
    show "\<exists>env \<in> set D. item_event ?t ?i v env"
      by (rule item_row_at [OF inv it(1), of v]) (use v D(2) in \<open>auto simp: shown_version_def ledger_def item_event_def\<close>)
  next
    fix env assume "env \<in> set D"
    show "\<not> item_event ?t ?i (?k + 1) env"
    proof
      assume ev: "item_event ?t ?i (?k + 1) env"
      have "env \<in> ledger db" "stock_event env" using \<open>env \<in> set D\<close> D(1) ev by (auto simp: item_event_def)
      then obtain it' where it': "it' \<in> set (items db)" "ii_tenant it' = TenantID env" "ii_item it' = AggregateID env"
        "1 \<le> AggregateVersion env" "AggregateVersion env \<le> ii_version it'" by (rule ledger_item [OF inv])
      then have "it' = it" using item_key_inj [OF inv it'(1) it(1)] ev by (simp add: item_key_def item_event_def)
      with it'(5) ev show False by (simp add: item_event_def)
    qed
  next
    fix a b v assume ab: "a \<in> set D" "b \<in> set D" "item_event ?t ?i v a" "item_event ?t ?i v b"
    have "valid_envelope a" "valid_envelope b" using ab(1,2) D(1) ledger_row(1) [OF inv] by (auto simp: ledger_def)
    moreover have "a \<in> ledger db" "b \<in> ledger db" using ab(1,2) D(1) by auto
    ultimately show "a = b" using ledger_key [OF inv] ab(3,4) stock_of_type by (simp add: item_event_def)
  qed (use it(2) e D(2) in \<open>auto simp: shown_version_def ledger_def item_event_def\<close>)
  then show ?thesis by (simp add: stock_spec_def after)
qed

section \<open>A sample consumer\<close>

definition sample_site :: site where
  "sample_site = \<lparr>store = \<lparr>durable = empty_platform empty_erp, clock = 0, ticks = [], stmt_faults = [], commits = []\<rparr>, notices = []\<rparr>"

lemma sample_site_simps [simp]: "calm (store sample_site)" "db_of sample_site = empty_platform empty_erp"
  by (simp_all add: sample_site_def calm_def)

definition sample_bytes :: string where
  "sample_bytes = (case CanonicalBytes sample_decremented of Inr b \<Rightarrow> b | Inl e \<Rightarrow> [])"

definition sample_record :: kgo_record where
  "sample_record = \<lparr>kr_Topic = Topic, kr_Partition = 0, kr_Offset = 0,
     kr_Key = AggregateKey (TenantID sample_decremented) (AggregateType sample_decremented) (AggregateID sample_decremented),
     kr_Value = sample_bytes\<rparr>"

definition sample_poll :: "fetch_partition list" where
  "sample_poll = [\<lparr>fp_HighWatermark = 2, fp_Records = [sample_record, sample_record]\<rparr>]"

lemma sample_bytes_parse: "Parse sample_bytes = Inr sample_decremented"
  using CanonicalBytes_total [OF sample_valid] Parse_canonical by (auto simp: sample_bytes_def)

lemma sample_is_stock: "stock_event sample_decremented"
  by (simp add: stock_event_def sample_decremented_def)

lemma sample_no_hop: "envelope_hop sample_decremented = None"
  using stock_payload [OF sample_valid sample_is_stock] by metis

lemma sample_history: "history {sample_decremented}"
  using sample_valid sample_is_stock sample_no_hop
  by (simp add: history_def) (simp add: sample_decremented_def)

lemma sample_storable: "storable sample_decremented"
  by (simp add: storable_def sample_no_hop) (simp add: sample_decremented_def pg_text_ok_def)

lemma sample_genuine: "genuine {sample_decremented} sample_record"
  by (simp add: genuine_def sample_record_def sample_bytes_parse)

lemma sample_authentic: "authentic {sample_decremented} (kr_Key sample_record) (kr_Value sample_record)"
  by (simp add: authentic_def sample_record_def sample_bytes_parse)

lemma sample_events: "record_events [sample_record, sample_record] = [sample_decremented, sample_decremented]"
  by (simp add: record_events_def sample_record_def sample_bytes_parse)

lemma sample_stock_spec:
  "stock_spec [sample_decremented, sample_decremented] ''22222222-2222-4222-9222-2222222222ab'' ''item-1'' = Some (7, 1)"
  by (simp add: stock_spec_def climb.simps shown_version_def item_event_def sample_is_stock)
    (simp add: sample_decremented_def event_after_def AsQuantityDecremented_def)

section \<open>Properties\<close>

text \<open>C18. A poll refines the specification: when nothing fails and every record is a genuine event of the
  source's history, polling into an empty platform handles and acknowledges every record without error, and
  then each item of the projection shows what the specification shows for the delivered events, whatever
  their order and however often each was delivered, and each lineage table holds the hops of the delivered
  events.\<close>

theorem consume_converges:
  assumes "history H" "\<forall>env \<in> H. storable env" "calm (store s)" "db_of s = empty_platform e"
    and "rs = concat (map fp_Records ps)" "\<forall>r \<in> set rs. genuine H r"
  shows "\<exists>out s'. ConsumeOnce rnd (Fetches ps) True s = Some ((out, rs, None), s') \<and> cr_Acked out = length rs \<and>
    (\<forall>t i. map_option (\<lambda>p. (pr_quantity p, pr_version p)) (find_projection (db_of s') t i) = stock_spec (record_events rs) t i) \<and>
    (\<forall>tb. set (hop_rows tb (db_of s')) = lineage_spec (record_events rs) tb)"
proof -
  have up: "caught_up H H [] s" by (rule caught_up_start [OF assms(1,3,4)])
  obtain out s' where s': "ConsumeOnce rnd (Fetches ps) True s = Some ((out, rs, None), s')" "cr_Acked out = length rs"
    "caught_up H H (record_events rs) s'"
    using ConsumeOnce_calm [OF assms(1,2) subset_refl up, of ps rnd True] assms(5,6) by auto
  have D: "set (record_events rs) \<subseteq> H" by (rule genuine_events [OF assms(6)])
  show ?thesis
    using s' caught_up_shows [OF s'(3) assms(1) D] by blast
qed

theorem consume_converges_witness:
  "\<exists>out s'. ConsumeOnce (\<lambda>_. None) (Fetches sample_poll) True sample_site = Some ((out, [sample_record, sample_record], None), s') \<and>
     cr_Acked out = 2 \<and>
     map_option (\<lambda>p. (pr_quantity p, pr_version p)) (find_projection (db_of s') ''22222222-2222-4222-9222-2222222222ab'' ''item-1'') = Some (7, 1)"
  using consume_converges [of "{sample_decremented}" sample_site empty_erp "[sample_record, sample_record]" sample_poll "\<lambda>_. None"]
    sample_history sample_storable sample_genuine sample_stock_spec
  by (auto simp: sample_poll_def sample_events simp del: map_option_eq_Some)

text \<open>C19. Handling a delivery always ends, whatever statements and commits fail before or during it: in every
  state a consumer can reach by deliveries of a source's history, the handler and the loop that re-drives
  stored gaps return.\<close>

theorem delivery_returns:
  assumes "history H" "db_of s0 = empty_platform e" "consumer_run H s0 s" "authentic H key value"
  shows "\<exists>out s'. ProcessRecord False rnd key value pos s = Some (out, s')"
proof -
  have "tracks H (db_of s)"
    by (rule consumer_run_tracks [OF assms(3,1)]) (simp add: assms(2) tracks_empty [OF assms(1)])
  from delivery_tracks [OF assms(1) this assms(4)] show ?thesis by blast
qed

theorem delivery_returns_witness:
  "\<exists>out s'. ProcessRecord False None (kr_Key sample_record) (kr_Value sample_record) (record_position sample_record) sample_site = Some (out, s')"
  by (rule delivery_returns [OF sample_history sample_site_simps(2) consumer_run.start sample_authentic])

text \<open>C20. The projection never invents: in every state a consumer can reach, under any failures and any order
  of deliveries, each projection row shows an item exactly as some event of the history left it, each lineage
  row is the hop of an event of the history, and every event below a row's version has been settled.\<close>

theorem projection_follows_history:
  assumes "history H" "db_of s0 = empty_platform e" "consumer_run H s0 s"
  shows "(\<forall>t i p. find_projection (db_of s) t i = Some p \<longrightarrow>
      (\<exists>env \<in> H. item_event t i (pr_version p) env \<and> event_after env = pr_quantity p) \<and>
      (\<forall>env \<in> H. \<forall>v \<le> pr_version p. item_event t i v env \<longrightarrow> taken (db_of s) env)) \<and>
    (\<forall>tb. \<forall>h \<in> set (hop_rows tb (db_of s)). \<exists>env \<in> H. envelope_hop env = Some (tb, h))"
proof -
  have T: "tracks H (db_of s)"
    by (rule consumer_run_tracks [OF assms(3,1)]) (simp add: assms(2) tracks_empty [OF assms(1)])
  have "taken (db_of s) env" if "find_projection (db_of s) t i = Some p" "env \<in> H" "v \<le> pr_version p" "item_event t i v env" for t i p env v
    using tracksD(5) [OF T that(2)] that by (simp add: item_event_def level_def)
  with tracksD(4,7) [OF T] show ?thesis by blast
qed

theorem projection_follows_history_witness:
  "\<exists>s p. consumer_run {sample_decremented} sample_site s \<and>
     find_projection (db_of s) ''22222222-2222-4222-9222-2222222222ab'' ''item-1'' = Some p \<and>
     (\<exists>env \<in> {sample_decremented}. item_event ''22222222-2222-4222-9222-2222222222ab'' ''item-1'' (pr_version p) env \<and> event_after env = pr_quantity p)"
proof -
  let ?k = "kr_Key sample_record" and ?v = "kr_Value sample_record" and ?H = "{sample_decremented}"
  have up: "caught_up ?H ?H [] sample_site" by (rule caught_up_start [OF sample_history]) simp_all
  obtain d s where s: "ProcessRecord False None ?k ?v (record_position sample_record) sample_site = Some ((outcome_of sample_decremented d, None), s)"
    "caught_up ?H ?H [sample_decremented] s"
    using delivery_caught_up [OF sample_history _ subset_refl up, of sample_decremented ?v ?k None "record_position sample_record"]
      sample_storable sample_genuine by (auto simp: genuine_def)
  have run: "consumer_run ?H sample_site s" by (rule consumer_run.deliver [OF consumer_run.start sample_authentic s(1)])
  have "stock_spec [sample_decremented] ''22222222-2222-4222-9222-2222222222ab'' ''item-1'' = Some (7, 1)"
    using sample_stock_spec stock_spec_cong [OF sample_history, of "[sample_decremented]" "[sample_decremented, sample_decremented]"] by simp
  then obtain p where "find_projection (db_of s) ''22222222-2222-4222-9222-2222222222ab'' ''item-1'' = Some p"
    using caught_up_shows(1) [OF s(2) sample_history, of "''22222222-2222-4222-9222-2222222222ab''" "''item-1''"] by auto
  then show ?thesis using projection_follows_history [OF sample_history sample_site_simps(2) run] run by blast
qed

text \<open>C21. No acknowledgement without a durable decision: whenever the handler says that an offset may be
  committed, the database holds either the inbox row of the event or a failure row for the position of the
  record, under any input and any failures.\<close>

theorem ack_is_durable:
  assumes "ProcessRecord hook rnd key value pos s = Some ((res, err), s')" "res_ShouldAck res"
  shows "(\<exists>env. Parse value = Inr env \<and> find_inbox (db_of s') (EventID env) \<noteq> None) \<or>
    list_ex (at_position (with_topic pos)) (processing_failures (db_of s'))"
  by (rule ProcessRecord_ack [OF assms])

theorem ack_is_durable_witness:
  "\<exists>d s'. ProcessRecord False None (kr_Key sample_record) (kr_Value sample_record) (record_position sample_record) sample_site =
       Some ((outcome_of sample_decremented d, None), s') \<and>
     ((\<exists>env. Parse (kr_Value sample_record) = Inr env \<and> find_inbox (db_of s') (EventID env) \<noteq> None) \<or>
      list_ex (at_position (with_topic (record_position sample_record))) (processing_failures (db_of s')))"
proof -
  let ?k = "kr_Key sample_record" and ?v = "kr_Value sample_record" and ?H = "{sample_decremented}"
  have up: "caught_up ?H ?H [] sample_site" by (rule caught_up_start [OF sample_history]) simp_all
  obtain d s where s: "ProcessRecord False None ?k ?v (record_position sample_record) sample_site = Some ((outcome_of sample_decremented d, None), s)"
    using delivery_caught_up [OF sample_history _ subset_refl up, of sample_decremented ?v ?k None "record_position sample_record"]
      sample_storable sample_genuine by (auto simp: genuine_def)
  show ?thesis using ack_is_durable [OF s] s by (auto simp: outcome_of_def)
qed



end
