(* ===== verification/Platform_Rebuild.thy ===== *)
theory Platform_Rebuild
  imports Platform_Convergence
begin

text \<open>
  Resetting, rebuilding and comparing the derived state.

  \<^item> \<open>without_tenant\<close> is the effect of a tenant reset; it keeps \<open>tracks\<close>.
  \<^item> The checksum texts only depend on which rows there are, because the comparison functions given to
    \<^verbatim>\<open>sort.Slice\<close> are strict total orders on rows with different keys.
  \<^item> A rebuild of a tenant from its retained history, run without faults, ends complete.
\<close>

section \<open>Resetting a tenant\<close>

definition without_tenant :: "string \<Rightarrow> seshat_db \<Rightarrow> seshat_db" where
  "without_tenant t db =
     db\<lparr>inbox := filter (\<lambda>r. ib_tenant r \<noteq> t) (inbox db), projection := filter (\<lambda>r. pr_tenant r \<noteq> t) (projection db),
        lineage_suppliers := filter (\<lambda>h. hp_tenant h \<noteq> t) (lineage_suppliers db),
        lineage_lots := filter (\<lambda>h. hp_tenant h \<noteq> t) (lineage_lots db),
        lineage_batches := filter (\<lambda>h. hp_tenant h \<noteq> t) (lineage_batches db),
        lineage_shipments := filter (\<lambda>h. hp_tenant h \<noteq> t) (lineage_shipments db),
        processing_failures := filter (\<lambda>r. ft_tenant r \<noteq> Some t) (processing_failures db)\<rparr>"

lemma tenant_reset_tx:
  "run_deletes ps (tenant_reset_queries t) db fs = (Inr u, db', fs') \<Longrightarrow> db' = without_tenant t db"
  by (auto simp: tenant_reset_queries_def derivedLineageDeletesForTenant_def derivedLineageDeletes_def delete_from_def
      sql_simps without_tenant_def)

lemma tenant_reset_outcome:
  assumes "ResetDerivedStateForTenant t s = (r, s')"
  shows "(\<exists>e. r = Inl e) \<and> db_of s' = db_of s \<or>
    db_of s' = without_tenant t (db_of s) \<and> (r = Inr () \<or> (\<exists>e. r = Inl e) \<and> commit_reply (store s) = ReplyLost)"
proof (cases "t = []")
  case True
  then show ?thesis using assms by (auto simp: ResetDerivedStateForTenant_def)
next
  case False
  with assms obtain w where w: "transact PlatDB PlatDB (\<lambda>_. run_deletes [t] (tenant_reset_queries t)) (store s) = (r, w)"
    "s' = s\<lparr>store := w\<rparr>" by (auto simp: ResetDerivedStateForTenant_def elim: on_store_cases)
  show ?thesis using w(1)
    by (rule transact_cases) (use w(2) in \<open>auto dest: tenant_reset_tx\<close>)
qed

lemma run_deletes_calm: "list_all pg_text_ok ps \<Longrightarrow> \<exists>db'. run_deletes ps qs db [] = (Inr (), db', [])"
  by (induction qs arbitrary: db) (simp_all add: delete_from_def tx_bind_def tx_return_def)

lemma tenant_reset_calm:
  assumes "calm (store s)" "t \<noteq> []" "pg_text_ok t"
  shows "\<exists>s'. ResetDerivedStateForTenant t s = (Inr (), s') \<and> calm (store s') \<and> db_of s' = without_tenant t (db_of s)"
proof -
  obtain db' where d: "run_deletes [t] (tenant_reset_queries t) (db_of s) [] = (Inr (), db', [])"
    using run_deletes_calm [of "[t]" "tenant_reset_queries t" "db_of s"] assms(3) by auto
  from transact_calm [where body = "\<lambda>_. run_deletes [t] (tenant_reset_queries t)", OF assms(1) d]
  obtain w where "transact PlatDB PlatDB (\<lambda>_. run_deletes [t] (tenant_reset_queries t)) (store s) = (Inr (), w)" "calm w" "durable w = db'"
    by blast
  then show ?thesis using tenant_reset_tx [OF d] assms(2) by (auto simp: ResetDerivedStateForTenant_def on_store_def)
qed

text \<open>Without a tenant the state still tracks the history, as if none of its events had been delivered.\<close>

lemma find_filter: "distinct (map f xs) \<Longrightarrow> find (\<lambda>x. f x = k) (filter P xs) =
    (case find (\<lambda>x. f x = k) xs of None \<Rightarrow> None | Some x \<Rightarrow> if P x then Some x else None)"
proof (induction xs)
  case (Cons a xs)
  have "find (\<lambda>x. f x = f a) xs = None" using Cons.prems by (simp add: find_None_iff) (metis imageI)
  with Cons show ?case by auto
qed simp

lemma without_tenant_keyed: "keyed db \<Longrightarrow> keyed (without_tenant t db)"
proof -
  have hops: "hop_rows tb (without_tenant t db) = filter (\<lambda>h. hp_tenant h \<noteq> t) (hop_rows tb db)" for tb
    by (cases tb) (simp_all add: without_tenant_def)
  show "keyed db \<Longrightarrow> keyed (without_tenant t db)"
    unfolding keyed_def hops by (simp add: without_tenant_def list_all_iff distinct_map_filter)
qed

lemma without_tenant_rows:
  assumes "keyed db"
  shows "find_inbox (without_tenant t db) e =
      (case find_inbox db e of None \<Rightarrow> None | Some r \<Rightarrow> if ib_tenant r \<noteq> t then Some r else None)"
    "find_projection (without_tenant t db) t' i = (if t' = t then None else find_projection db t' i)"
    "hop_rows tb (without_tenant t db) = filter (\<lambda>h. hp_tenant h \<noteq> t) (hop_rows tb db)"
proof -
  show "hop_rows tb (without_tenant t db) = filter (\<lambda>h. hp_tenant h \<noteq> t) (hop_rows tb db)"
    by (cases tb) (simp_all add: without_tenant_def)
  show "find_inbox (without_tenant t db) e =
      (case find_inbox db e of None \<Rightarrow> None | Some r \<Rightarrow> if ib_tenant r \<noteq> t then Some r else None)"
    unfolding find_inbox_keyed [OF assms] find_inbox_keyed [OF without_tenant_keyed [OF assms]]
    using assms by (simp add: without_tenant_def find_filter keyed_def)
  have "find_projection (without_tenant t db) t' i =
      (case find_projection db t' i of None \<Rightarrow> None | Some p \<Rightarrow> if pr_tenant p \<noteq> t then Some p else None)"
    unfolding find_projection_pair
    using find_filter [of "\<lambda>p. (pr_tenant p, pr_item p)" "projection db" "(t', i)"] assms
    by (simp add: without_tenant_def keyed_def del: prod.inject)
  then show "find_projection (without_tenant t db) t' i = (if t' = t then None else find_projection db t' i)"
    by (auto simp: find_projection_def dest!: find_SomeD split: option.splits)
qed

lemma without_tenant_tracks:
  assumes T: "tracks H db" and H: "history H"
  shows "tracks H (without_tenant t db)"
proof -
  let ?db = "without_tenant t db"
  note k = tracksD(1) [OF T] and rows = without_tenant_rows [OF tracksD(1) [OF T]]
  have taken: "taken ?db env \<longleftrightarrow> taken db env \<and> TenantID env \<noteq> t" if "env \<in> H" for env
  proof (cases "find_inbox db (EventID env)")
    case (Some r)
    then have "ib_tenant r = TenantID env" using row_of_event [OF T H that Some] by (simp add: inbox_matches_def)
    with Some show ?thesis by (auto simp: taken_def rows(1))
  qed (simp add: taken_def rows(1))
  have level: "level ?db t' i = (if t' = t then 0 else level db t' i)" for t' i by (simp add: level_def rows(2))
  have pos: "1 \<le> AggregateVersion env" if "env \<in> H" for env using historyD(1) [OF H that] by (simp add: valid_envelope_def)
  have "inbox_ok H ?db"
    using tracksD(2) [OF T] without_tenant_keyed [OF k] by (auto simp: inbox_ok_def rows(1) split: option.splits if_splits)
  moreover have "\<exists>env \<in> H. item_event t' i (pr_version p) env \<and> event_after env = pr_quantity p"
    if "find_projection ?db t' i = Some p" for t' i p
    using that tracksD(4) [OF T] by (simp add: rows(2) split: if_splits)
  moreover have "taken ?db env \<longleftrightarrow> AggregateVersion env \<le> level ?db (TenantID env) (AggregateID env)"
    if "env \<in> H" "stock_event env" for env
    using tracksD(5) [OF T that] taken [OF that(1)] pos [OF that(1)] by (simp add: level)
  moreover have "taken ?db env \<longleftrightarrow> h \<in> set (hop_rows tb ?db)" if "env \<in> H" "envelope_hop env = Some (tb, h)" for env tb h
    using tracksD(6) [OF T that] taken [OF that(1)] hop_shape(1) [OF historyD(1) [OF H that(1)] that(2)] by (auto simp: rows(3))
  moreover have "\<exists>env \<in> H. envelope_hop env = Some (tb, h)" if "h \<in> set (hop_rows tb ?db)" for tb h
    using that tracksD(7) [OF T] by (simp add: rows(3))
  ultimately show ?thesis unfolding tracks_def by blast
qed

lemma delivered_exists:
  assumes "tracks H db" shows "\<exists>D. delivered D db \<and> set D \<subseteq> H"
proof -
  have k: "keyed db" using tracksD(1) [OF assms] .
  have "\<forall>r \<in> set (inbox db). \<exists>env. env \<in> H \<and> EventID env = ib_event r"
    using tracksD(2) [OF assms] find_inbox_iff [OF k] by (metis inbox_matches_def)
  then obtain f where f: "\<forall>r \<in> set (inbox db). f r \<in> H \<and> EventID (f r) = ib_event r" by (rule bchoice [THEN exE])
  have "delivered (map f (inbox db)) db"
    unfolding delivered_def using f find_inbox_iff [OF k] by (force simp: image_iff)
  with f show ?thesis by (intro exI [of _ "map f (inbox db)"]) auto
qed

section \<open>Checksums\<close>

lemma lex_trans:
  assumes "if a \<noteq> b then str_less a b else P" "if b \<noteq> c then str_less b c else Q" "\<lbrakk> a = b; b = c; P; Q \<rbrakk> \<Longrightarrow> R"
  shows "if a \<noteq> c then str_less a c else R"
proof -
  have step: "str_less a c \<and> a \<noteq> c" if "str_less a b" "str_less b c"
    using that bytewise.lt_trans [of a b c] bytewise.lt_asym [of a b] by auto
  show ?thesis using assms step by (cases "a = b"; cases "b = c") auto
qed

lemma projection_order:
  assumes "inj_on (\<lambda>r. (pr_tenant r, pr_item r)) D" shows "go_less projection_before D"
proof
  show "\<not> projection_before x x" if "x \<in> D" for x using bytewise.lt_irrefl by (simp add: projection_before_def)
  show "projection_before x z" if "x \<in> D" "y \<in> D" "z \<in> D" "projection_before x y" "projection_before y z" for x y z
    using that(4,5) unfolding projection_before_def by (rule lex_trans) (use bytewise.lt_trans in blast)
  show "projection_before x y \<or> x = y \<or> projection_before y x" if "x \<in> D" "y \<in> D" for x y
    using bytewise.lt_total [of "pr_tenant x" "pr_tenant y"] bytewise.lt_total [of "pr_item x" "pr_item y"] inj_onD [OF assms _ that]
    by (auto simp: projection_before_def)
qed

lemma checksum_order:
  assumes "inj_on (\<lambda>r. (cs_kind r, cs_tenant r, cs_id r)) D" shows "go_less checksum_before D"
proof
  show "\<not> checksum_before x x" if "x \<in> D" for x using bytewise.lt_irrefl by (simp add: checksum_before_def)
  show "checksum_before x z" if "x \<in> D" "y \<in> D" "z \<in> D" "checksum_before x y" "checksum_before y z" for x y z
    using that(4,5) unfolding checksum_before_def
  proof (rule lex_trans)
    assume t: "if cs_tenant x \<noteq> cs_tenant y then str_less (cs_tenant x) (cs_tenant y) else str_less (cs_id x) (cs_id y)"
      "if cs_tenant y \<noteq> cs_tenant z then str_less (cs_tenant y) (cs_tenant z) else str_less (cs_id y) (cs_id z)"
    show "if cs_tenant x \<noteq> cs_tenant z then str_less (cs_tenant x) (cs_tenant z) else str_less (cs_id x) (cs_id z)"
      using t by (rule lex_trans) (use bytewise.lt_trans in blast)
  qed
  show "checksum_before x y \<or> x = y \<or> checksum_before y x" if "x \<in> D" "y \<in> D" for x y
    using bytewise.lt_total [of "cs_kind x" "cs_kind y"] bytewise.lt_total [of "cs_tenant x" "cs_tenant y"]
      bytewise.lt_total [of "cs_id x" "cs_id y"] inj_onD [OF assms _ that]
    by (auto simp: checksum_before_def)
qed

lemma ChecksumTenant_calm:
  assumes "calm (store s)" "pg_text_ok (to_lower t)"
  shows "\<exists>s'. ChecksumTenant t s = (Inr (sha256_hex (projection_text (projection_of (db_of s) (to_lower t)))), s') \<and>
    calm (store s') \<and> db_of s' = db_of s"
  using query_auto_calm [OF assms(1), of "[to_lower t]" PlatDB "\<lambda>_ db. projection_of db (to_lower t)"] assms(2)
  by (auto simp: ChecksumTenant_def on_store_def)

definition table_checksums :: "string \<Rightarrow> seshat_db \<Rightarrow> string \<times> lineage_table \<Rightarrow> checksum_row list" where
  "table_checksums t db kt = map (checksum_of (fst kt)) (filter (\<lambda>h. hp_tenant h = t) (hop_rows (snd kt) db))"

lemma appendRows_calm:
  assumes "pg_text_ok t"
  shows "calm (store s) \<Longrightarrow> \<exists>s'. appendRows t tbs out s = (Inr (out @ concat (map (table_checksums t (db_of s)) tbs)), s') \<and>
    calm (store s') \<and> db_of s' = db_of s"
proof (induction tbs arbitrary: out s)
  case (Cons kt tbs)
  obtain kind tb where kt: "kt = (kind, tb)" by (cases kt)
  obtain w where w: "query_auto PlatDB [t] (\<lambda>_ db. filter (\<lambda>h. hp_tenant h = t) (hop_rows tb db)) (store s) =
      (Inr (filter (\<lambda>h. hp_tenant h = t) (hop_rows tb (db_of s))), w)" "calm w" "durable w = db_of s"
    using query_auto_calm [OF Cons.prems, of "[t]" PlatDB "\<lambda>_ db. filter (\<lambda>h. hp_tenant h = t) (hop_rows tb db)"] assms by auto
  from Cons.IH [of "s\<lparr>store := w\<rparr>" "out @ table_checksums t (db_of s) kt"] w show ?case
    by (simp add: kt on_store_def table_checksums_def)
qed simp

lemma ChecksumLineage_calm:
  assumes "calm (store s)" "t' = to_lower (trim_space t)" "t' \<noteq> []" "pg_text_ok t'"
  shows "\<exists>s'. ChecksumLineage t s = (Inr (sha256_hex (lineage_text (concat (map (table_checksums t' (db_of s)) checksum_tables)))), s') \<and>
    calm (store s') \<and> db_of s' = db_of s"
  using appendRows_calm [OF assms(4,1), of checksum_tables "[]"] assms(2,3) by (auto simp: ChecksumLineage_def Let_def)

text \<open>The text of a projection only depends on which rows there are.\<close>

lemma keyed_projection_set:
  assumes "keyed db" shows "p \<in> set (projection db) \<longleftrightarrow> find_projection db (pr_tenant p) (pr_item p) = Some p"
  unfolding find_projection_pair using assms find_key [of "\<lambda>p. (pr_tenant p, pr_item p)" "projection db" _ p]
  by (simp add: keyed_def del: prod.inject)

lemma same_projection:
  assumes "keyed db" "keyed db'"
    and "\<And>t i. map_option (\<lambda>p. (pr_quantity p, pr_version p)) (find_projection db t i) =
      map_option (\<lambda>p. (pr_quantity p, pr_version p)) (find_projection db' t i)"
  shows "find_projection db t i = find_projection db' t i" "mset (projection db) = mset (projection db')"
proof -
  have key: "pr_tenant p = t \<and> pr_item p = i" if "find_projection d t i = Some p" for d t i p
    using that by (auto simp: find_projection_def dest: find_SomeD)
  show f: "find_projection db t i = find_projection db' t i" for t i
  proof (cases "find_projection db t i")
    case None
    then show ?thesis using assms(3) [of t i] by simp
  next
    case (Some p)
    then obtain q where q: "find_projection db' t i = Some q" "pr_quantity q = pr_quantity p" "pr_version q = pr_version p"
      using assms(3) [of t i] by (cases "find_projection db' t i") auto
    have "p = q" by (rule projection_row.equality) (use key [OF Some] key [OF q(1)] q(2,3) in simp_all)
    with Some q(1) show ?thesis by simp
  qed
  have "set (projection db) = set (projection db')"
    by (rule set_eqI) (simp add: keyed_projection_set [OF assms(1)] keyed_projection_set [OF assms(2)] f)
  moreover have "distinct (projection db)" "distinct (projection db')" using assms(1,2) by (auto simp: keyed_def distinct_map)
  ultimately show "mset (projection db) = mset (projection db')" by (simp add: set_eq_iff_mset_eq_distinct)
qed

lemma projection_text_perm:
  assumes k: "keyed db" and inj: "inj_on to_lower {i. \<exists>p \<in> set (projection db). pr_item p = i}"
    and m: "mset (projection db) = mset (projection db')"
  shows "projection_text (projection_of db t) = projection_text (projection_of db' t)"
proof -
  let ?rows = "projection_of db t" and ?low = "map lower_projection (projection_of db t)"
  have same: "x = y" if "x \<in> set ?rows" "y \<in> set ?rows" "to_lower (pr_item x) = to_lower (pr_item y)" for x y
  proof -
    have "pr_item x = pr_item y" using inj_onD [OF inj that(3)] that(1,2) by (auto simp: projection_of_def)
    moreover have "pr_tenant x = t" "pr_tenant y = t" "x \<in> set (projection db)" "y \<in> set (projection db)"
      using that by (auto simp: projection_of_def)
    ultimately show ?thesis using keyed_projection_set [OF k, of x] keyed_projection_set [OF k, of y] by simp
  qed
  have "inj_on lower_projection (set ?rows)"
    by (rule inj_onI) (rule same, auto simp: lower_projection_def dest: arg_cong [of _ _ pr_item])
  moreover have "distinct ?rows" using k by (auto simp: projection_of_def keyed_def distinct_map)
  ultimately have d: "distinct ?low" by (simp add: distinct_map)
  have "inj_on (\<lambda>r. (pr_tenant r, pr_item r)) (set ?low)"
    using same by (auto simp: inj_on_def lower_projection_def)
  then have gl: "go_less projection_before (set ?low)" by (rule projection_order)
  have "mset (map lower_projection (projection_of db' t)) = mset ?low" using m by (simp add: projection_of_def)
  from go_less.isort_mset_cong [OF gl subset_refl d this] show ?thesis by (simp only: projection_text_def)
qed

text \<open>And so does the text of the lineage tables.\<close>

lemma lineage_text_perm:
  assumes inj: "\<And>tb h h'. \<lbrakk> h \<in> set (hop_rows tb db); h' \<in> set (hop_rows tb db); hp_tenant h = t; hp_tenant h' = t;
      to_lower (hp_id h) = to_lower (hp_id h') \<rbrakk> \<Longrightarrow> h = h'"
    and k: "\<And>tb. distinct (hop_rows tb db)" and m: "\<And>tb. mset (hop_rows tb db) = mset (hop_rows tb db')"
  shows "lineage_text (concat (map (table_checksums t db) checksum_tables)) =
    lineage_text (concat (map (table_checksums t db') checksum_tables))"
proof -
  let ?rows = "\<lambda>db. concat (map (table_checksums t db) checksum_tables)"
  have kinds: "kt \<in> set checksum_tables \<Longrightarrow> kt' \<in> set checksum_tables \<Longrightarrow> fst kt = fst kt' \<Longrightarrow> kt = kt'" for kt kt'
    by (auto simp: checksum_tables_def)
  have row: "\<exists>kt h. kt \<in> set checksum_tables \<and> h \<in> set (hop_rows (snd kt) db) \<and> hp_tenant h = t \<and> x = checksum_of (fst kt) h"
    if x: "x \<in> set (?rows db)" for x
  proof -
    obtain kt where "kt \<in> set checksum_tables" "x \<in> set (table_checksums t db kt)" using x by auto
    then show ?thesis unfolding table_checksums_def by (intro exI [of _ kt]) auto
  qed
  have key: "inj_on (\<lambda>r. (cs_kind r, cs_tenant r, cs_id r)) (set (?rows db))"
  proof (rule inj_onI)
    fix x y assume xy: "x \<in> set (?rows db)" "y \<in> set (?rows db)" "(cs_kind x, cs_tenant x, cs_id x) = (cs_kind y, cs_tenant y, cs_id y)"
    obtain kt h where x: "kt \<in> set checksum_tables" "h \<in> set (hop_rows (snd kt) db)" "hp_tenant h = t" "x = checksum_of (fst kt) h"
      using row [OF xy(1)] by blast
    obtain kt' h' where y: "kt' \<in> set checksum_tables" "h' \<in> set (hop_rows (snd kt') db)" "hp_tenant h' = t" "y = checksum_of (fst kt') h'"
      using row [OF xy(2)] by blast
    have "kt = kt'" using kinds x y xy(3) by (simp add: checksum_of_def)
    moreover have "h = h'" using inj [of h "snd kt" h'] x y xy(3) calculation by (simp add: checksum_of_def)
    ultimately show "x = y" using x y by simp
  qed
  have dist: "distinct (table_checksums t db kt)" for kt
    using k [of "snd kt"] inj by (auto simp: table_checksums_def distinct_map inj_on_def checksum_of_def)
  have kind: "cs_kind x = fst kt" if "x \<in> set (table_checksums t db kt)" for x kt
    using that by (auto simp: table_checksums_def checksum_of_def)
  have d: "distinct (?rows db)"
    using dist kind by (auto simp: checksum_tables_def)
      (fastforce dest: kind)+
  have "mset (table_checksums t db' kt) = mset (table_checksums t db kt)" for kt using m [of "snd kt"] by (simp add: table_checksums_def)
  then have mset: "mset (?rows db') = mset (?rows db)" by (simp add: checksum_tables_def)
  from go_less.isort_mset_cong [OF checksum_order [OF key] subset_refl d mset] show ?thesis by (simp only: lineage_text_def)
qed

section \<open>Identifiers of valid events are in lower case\<close>

lemma trim_space_none:
  assumes "ascii s" "\<forall>c \<in> set s. \<not> is_space (byte_val c)" shows "trim_space s = s"
proof -
  have one: "chunk_rune [c] = byte_val c" if "byte_val c < 0x80" for c
    using decode_encode [of "byte_val c" "[]"] that by (simp add: chunk_rune_def encode_ascii scalar_ascii)
  have keep: "dropWhile (\<lambda>c. is_space (chunk_rune c)) (map (\<lambda>c. [c]) xs) = map (\<lambda>c. [c]) xs" if "set xs \<subseteq> set s" for xs
    using that assms by (cases xs) (auto simp: one ascii_def list_all_iff)
  have "rev (map (\<lambda>c. [c]) s) = map (\<lambda>c. [c]) (rev s)" by (simp add: rev_map)
  then show ?thesis
    using keep [of s] keep [of "rev s"] by (simp add: trim_space_def Let_def rune_chunks_ascii [OF assms(1)] rev_map)
qed

lemma uuid_trim: "valid_uuid t \<Longrightarrow> trim_space t = t"
proof (rule trim_space_none)
  assume u: "valid_uuid t"
  then show "ascii t" by (simp add: valid_uuid_def match_uuid_ascii)
  have "\<not> is_space (byte_val c)" if "uuid_class i c" for i c
    using that by (auto simp: uuid_class_def is_hex_any_def is_digit_def is_variant_any_def is_space_def split: if_splits)
  then show "\<forall>c \<in> set t. \<not> is_space (byte_val c)"
    using u by (fastforce simp: valid_uuid_def match_uuid in_set_conv_nth)
qed

lemma uuid_nonempty: "valid_uuid t \<Longrightarrow> t \<noteq> []"
  by (auto simp: valid_uuid_def match_uuid)

lemma event_lower:
  assumes "valid_envelope env"
  shows "to_lower (AggregateID env) = AggregateID env" "to_lower (TenantID env) = TenantID env" "valid_uuid (TenantID env)"
  using assms by (auto simp: valid_envelope_def valid_id_def err_simps)

section \<open>Replaying\<close>

lemma status_kept [simp]: "rr_Status (widen pos out) = rr_Status out" "rr_Status (stamp out) = rr_Status out"
  "rr_Status (range_from pos out) = rr_Status out" "rr_Status (start_result md) = Some RebuildStatusComplete"
  by (simp_all add: widen_def stamp_def range_from_def start_result_def Let_def)

lemma tally_status:
  "d = DispositionApplied \<or> d = DispositionDuplicateNoop \<or> d = DispositionQuarantinedGap \<Longrightarrow>
   rr_Status (tally i (outcome_of env d) out) = rr_Status out"
  by (auto simp: tally_def outcome_of_def Let_def)

definition history_events :: "HistoryRecord list \<Rightarrow> envelope list" where
  "history_events rs = concat (map (\<lambda>r. case Parse (hr_Value r) of Inl e \<Rightarrow> [] | Inr env \<Rightarrow> [env]) rs)"

definition genuine_history :: "envelope set \<Rightarrow> HistoryRecord \<Rightarrow> bool" where
  "genuine_history H r \<longleftrightarrow> (\<exists>env \<in> H. Parse (hr_Value r) = Inr env \<and> hr_Key r = AggregateKey (TenantID env) (AggregateType env) (AggregateID env))"

lemma replay_loop_calm:
  assumes H: "history H" and st: "\<forall>env \<in> H. storable env" and G: "G = {env \<in> H. TenantID env = t}"
  shows "\<lbrakk> caught_up H G D s; \<forall>r \<in> set rs. genuine_history G r \<rbrakk> \<Longrightarrow>
    \<exists>out' s'. replay_loop rnd t i rs out s = Some (Inr out', s') \<and> rr_Status out' = rr_Status out \<and>
      caught_up H G (D @ history_events rs) s' \<and> beside s s'"
proof (induction rs arbitrary: D i out s)
  case Nil
  then show ?case by (simp add: history_events_def beside_def)
next
  case (Cons r rs)
  let ?pos = "operator_position (hr_Pos r)"
  obtain env where env: "env \<in> H" "TenantID env = t" "Parse (hr_Value r) = Inr env"
    "hr_Key r = AggregateKey (TenantID env) (AggregateType env) (AggregateID env)"
    using Cons.prems(2) G by (auto simp: genuine_history_def)
  obtain d s1 where p: "ProcessRecord False (rnd i) (hr_Key r) (hr_Value r) ?pos s = Some ((outcome_of env d, None), s1)"
    "d = DispositionApplied \<or> d = DispositionDuplicateNoop \<or> d = DispositionQuarantinedGap"
    "caught_up H G (D @ [env]) s1" "beside s s1"
    using delivery_caught_up [OF H st _ Cons.prems(1) env(1,3,4), of "rnd i" ?pos] G by blast
  from Cons.IH [OF p(3), of "i + 1" "tally i (outcome_of env d) (widen ?pos out)"] Cons.prems(2) obtain out' s' where
    s': "replay_loop rnd t (i + 1) rs (tally i (outcome_of env d) (widen ?pos out)) s1 = Some (Inr out', s')"
    "rr_Status out' = rr_Status (tally i (outcome_of env d) (widen ?pos out))"
    "caught_up H G ((D @ [env]) @ history_events rs) s'" "beside s1 s'" by auto
  have "replay_loop rnd t i (r # rs) out s = Some (Inr out', s')"
    using p(1) env(2,3) s'(1) by (simp add: Let_def)
  moreover have "rr_Status out' = rr_Status out" using s'(2) tally_status [OF p(2)] by simp
  moreover have "caught_up H G (D @ history_events (r # rs)) s'" using s'(3) env(3) by (simp add: history_events_def)
  moreover have "beside s s'" using p(4) s'(4) by (simp add: beside_def)
  ultimately show ?case by blast
qed

text \<open>Loading the retained history of a tenant.\<close>

lemma scan_history_ok:
  assumes "\<forall>r \<in> set rows. ob_tenant r = t \<and> (\<exists>env. row_envelope r = Some env \<and> TenantID env = t)"
  shows "\<exists>rs. scan_history t n rows = Inr rs \<and> map hr_Value rs = map ob_bytes rows \<and>
    (\<forall>r \<in> set rs. \<exists>env. Parse (hr_Value r) = Inr env \<and> hr_Key r = AggregateKey (TenantID env) (AggregateType env) (AggregateID env))"
  using assms
proof (induction rows arbitrary: n)
  case (Cons r rows)
  then obtain env where "Parse (ob_bytes r) = Inr env" "TenantID env = t" "ob_tenant r = t"
    by (auto simp: row_envelope_def split: sum.splits)
  moreover obtain rs where "scan_history t (n + 1) rows = Inr rs" "map hr_Value rs = map ob_bytes rows"
    "\<forall>r \<in> set rs. \<exists>env. Parse (hr_Value r) = Inr env \<and> hr_Key r = AggregateKey (TenantID env) (AggregateType env) (AggregateID env)"
    using Cons.IH [of "n + 1"] Cons.prems by auto
  ultimately show ?case by simp
qed simp

lemma load_history_calm:
  assumes "calm (store s)" "t \<noteq> []" "pg_text_ok t" "erp_inv (erp (db_of s))"
  shows "\<exists>rs s'. LoadTenantOutboxHistory coll t [] s = (Inr rs, s') \<and> calm (store s') \<and> db_of s' = db_of s \<and>
    set (history_events rs) = {env \<in> ledger (erp (db_of s)). TenantID env = t} \<and>
    (\<forall>r \<in> set rs. genuine_history {env \<in> ledger (erp (db_of s)). TenantID env = t} r)"
proof -
  let ?e = "erp (db_of s)" and ?rows = "history_rows coll t [] (erp (db_of s))"
  let ?G = "{env \<in> ledger ?e. TenantID env = t}"
  have rows: "set ?rows = {r \<in> set (outbox ?e). ob_tenant r = t}" by (auto simp: history_rows_def)
  have row: "\<exists>env. row_envelope r = Some env \<and> TenantID env = ob_tenant r" if "r \<in> set (outbox ?e)" for r
    using assms(4) that by (force simp: erp_inv_def list_all_iff row_ok_def)
  have all: "\<forall>r \<in> set ?rows. ob_tenant r = t \<and> (\<exists>env. row_envelope r = Some env \<and> TenantID env = t)"
  proof
    fix r assume "r \<in> set ?rows"
    then have r: "r \<in> set (outbox ?e)" "ob_tenant r = t" unfolding rows by simp_all
    with row [OF r(1)] show "ob_tenant r = t \<and> (\<exists>env. row_envelope r = Some env \<and> TenantID env = t)" by simp
  qed
  obtain rs where rs: "scan_history t 0 ?rows = Inr rs" "map hr_Value rs = map ob_bytes ?rows"
    "\<forall>r \<in> set rs. \<exists>env. Parse (hr_Value r) = Inr env \<and> hr_Key r = AggregateKey (TenantID env) (AggregateType env) (AggregateID env)"
    using scan_history_ok [OF all, of 0] by (elim exE conjE) (rule that)
  have ev: "history_events rs = concat (map (\<lambda>b. case Parse b of Inl e \<Rightarrow> [] | Inr env \<Rightarrow> [env]) (map ob_bytes ?rows))"
    unfolding history_events_def rs(2) [symmetric] by (simp add: comp_def)
  have env_of: "Parse (ob_bytes r) = Inr env \<longleftrightarrow> row_envelope r = Some env" for r env by (auto simp: row_envelope_def split: sum.splits)
  have set_ev: "set (history_events rs) = ?G"
  proof (rule set_eqI)
    fix env
    have "env \<in> set (history_events rs) \<longleftrightarrow> (\<exists>r \<in> set ?rows. Parse (ob_bytes r) = Inr env)"
      unfolding ev by (auto simp: eq_commute [of "Inr env"] split: sum.splits)
    also have "\<dots> \<longleftrightarrow> (\<exists>r \<in> set (outbox ?e). ob_tenant r = t \<and> row_envelope r = Some env)"
      unfolding env_of rows by blast
    also have "\<dots> \<longleftrightarrow> env \<in> ?G"
    proof
      assume "\<exists>r \<in> set (outbox ?e). ob_tenant r = t \<and> row_envelope r = Some env"
      then obtain r where r: "r \<in> set (outbox ?e)" "ob_tenant r = t" "row_envelope r = Some env" by blast
      with row [OF r(1)] show "env \<in> ?G" by (auto simp: ledger_def)
    next
      assume "env \<in> ?G"
      then obtain r where r: "r \<in> set (outbox ?e)" "TenantID env = t" "row_envelope r = Some env" by (auto simp: ledger_def)
      with row [OF r(1)] show "\<exists>r \<in> set (outbox ?e). ob_tenant r = t \<and> row_envelope r = Some env" by auto
    qed
    finally show "env \<in> set (history_events rs) \<longleftrightarrow> env \<in> ?G" .
  qed
  have "genuine_history ?G r" if r: "r \<in> set rs" for r
  proof -
    obtain env where env: "Parse (hr_Value r) = Inr env" "hr_Key r = AggregateKey (TenantID env) (AggregateType env) (AggregateID env)"
      using bspec [OF rs(3) r] by (elim exE conjE) (rule that)
    have "env \<in> set (history_events rs)" unfolding history_events_def using r env(1) by force
    with env set_ev show ?thesis by (auto simp: genuine_history_def)
  qed
  moreover obtain s' where "on_store (query_auto PlatDB [t] (\<lambda>_ db. history_rows coll t [] (erp db))) s = (Inr ?rows, s')"
    "calm (store s')" "db_of s' = db_of s"
    using query_auto_calm [OF assms(1), of "[t]" PlatDB "\<lambda>_ db. history_rows coll t [] (erp db)"] assms(3) by (auto simp: on_store_def)
  ultimately show ?thesis using rs(1) set_ev assms(2) by (auto simp: LoadTenantOutboxHistory_def)
qed

section \<open>A rebuilt tenant is complete\<close>

lemma no_gaps:
  assumes T: "tracks H db" and H: "history H" and C: "\<And>i. closed_at H db t i"
    and all: "\<And>env. \<lbrakk> env \<in> H; TenantID env = t \<rbrakk> \<Longrightarrow> find_inbox db (EventID env) \<noteq> None"
  shows "tenant_gaps t db = 0"
proof -
  have "ib_disposition r \<noteq> DispositionQuarantinedGap" if r: "r \<in> set (inbox db)" "ib_tenant r = t" for r
  proof
    assume gap: "ib_disposition r = DispositionQuarantinedGap"
    have f: "find_inbox db (ib_event r) = Some r" using find_inbox_iff [OF tracksD(1) [OF T]] r(1) by blast
    obtain env where env: "env \<in> H" "inbox_matches env r" using tracksD(2) [OF T f] by blast
    let ?i = "AggregateID env" and ?v = "AggregateVersion env"
    have m: "ib_event r = EventID env" "TenantID env = t" "stock_event env"
      using env(2) r(2) gap by (auto simp: inbox_matches_def settled_def)
    have "\<not> taken db env" using f m(1) gap by (simp add: taken_def settled_def)
    then have lev: "level db t ?i < ?v" using tracksD(5) [OF T env(1) m(3)] m(2) by simp
    have "0 \<le> level db t ?i"
    proof (cases "find_projection db t ?i")
      case (Some p)
      then obtain e where e: "e \<in> H" "item_event t ?i (pr_version p) e" using tracksD(4) [OF T Some] by blast
      then have "1 \<le> pr_version p" using historyD(1) [OF H e(1)] by (auto simp: item_event_def valid_envelope_def)
      with Some show ?thesis by (simp add: level_def)
    qed (simp add: level_def)
    moreover have "item_event t ?i ?v env" using m by (simp add: item_event_def)
    ultimately obtain e where e: "e \<in> H" "item_event t ?i (level db t ?i + 1) e"
      using history_below [OF H env(1), of t ?i ?v "level db t ?i + 1"] lev by auto
    then have "find_inbox db (EventID e) = None" using C [of ?i] by (auto simp: closed_at_def)
    moreover have "TenantID e = t" using e(2) by (simp add: item_event_def)
    ultimately show False using all e(1) by blast
  qed
  then show ?thesis by (auto simp: tenant_gaps_def filter_empty_conv)
qed

lemma count_query_calm:
  "\<lbrakk> calm (store s); list_all pg_text_ok ps \<rbrakk> \<Longrightarrow> \<exists>s'. count_query ps q s = (Inr (q (db_of s)), s') \<and> calm (store s') \<and> db_of s' = db_of s"
  using query_auto_calm [of "store s" ps PlatDB "\<lambda>_. q"] by (auto simp: count_query_def on_store_def)

lemma residual_calm:
  assumes "calm (store s)" "list_all pg_text_ok ps" "gaps (db_of s) = 0" "fails (db_of s) = 0"
  shows "\<exists>s'. residual_counts ps gaps fails out s = (Inr out, s') \<and> calm (store s') \<and> db_of s' = db_of s"
proof -
  obtain s1 where 1: "count_query ps gaps s = (Inr 0, s1)" "calm (store s1)" "db_of s1 = db_of s"
    using count_query_calm [OF assms(1,2), of gaps] assms(3) by auto
  obtain s2 where 2: "count_query ps fails s1 = (Inr 0, s2)" "calm (store s2)" "db_of s2 = db_of s"
    using count_query_calm [OF 1(2) assms(2), of fails] assms(4) 1(3) by auto
  show ?thesis using 1 2 by (simp add: residual_counts_def Let_def)
qed

lemma assign_calm:
  assumes "calm (store s)" "valid_uuid t" "to_lower t = t"
  shows "\<exists>out' s'. assignTenantChecksums t out s = ((out', None), s') \<and> rr_Status out' = rr_Status out \<and>
    rr_Checksum out' = sha256_hex (projection_text (projection_of (db_of s) t)) \<and> calm (store s') \<and> db_of s' = db_of s"
proof -
  have t: "pg_text_ok t" "t \<noteq> []" "to_lower (trim_space t) = t"
    using assms(2,3) uuid_storable uuid_nonempty uuid_trim by auto
  obtain s1 where 1: "ChecksumTenant t s = (Inr (sha256_hex (projection_text (projection_of (db_of s) t))), s1)" "calm (store s1)" "db_of s1 = db_of s"
    using ChecksumTenant_calm [OF assms(1), of t] assms(3) t(1) by auto
  obtain c s2 where 2: "ChecksumLineage t s1 = (Inr c, s2)" "calm (store s2)" "db_of s2 = db_of s"
    using ChecksumLineage_calm [OF 1(2) t(3) [symmetric] t(2,1)] 1(3) by auto
  show ?thesis using 1 2 by (simp add: assignTenantChecksums_def)
qed

lemma replay_calm:
  assumes H: "history H" and st: "\<forall>env \<in> H. storable env" and G: "G = {env \<in> H. TenantID env = t}" and t: "valid_uuid t" "to_lower t = t"
    and up: "caught_up H G D s" and rs: "rs \<noteq> []" "\<forall>r \<in> set rs. genuine_history G r" "set (history_events rs) = G"
    and D: "set D \<subseteq> H" and f: "tenant_failures t (db_of s) = 0"
  shows "\<exists>out s'. replayTenantRecords rnd t rs s = Some ((out, None), s') \<and> rr_Status out = Some RebuildStatusComplete \<and>
    rr_Checksum out = sha256_hex (projection_text (projection_of (db_of s') t)) \<and>
    caught_up H G (D @ history_events rs) s' \<and> erp (db_of s') = erp (db_of s)"
proof -
  obtain r rs' where r: "rs = r # rs'" using rs(1) by (cases rs) auto
  obtain out1 s1 where 1: "replay_loop rnd t 0 rs (range_from (hr_Pos r) (start_result replay_metadata)) s = Some (Inr out1, s1)"
    "rr_Status out1 = Some RebuildStatusComplete" "caught_up H G (D @ history_events rs) s1" "beside s s1"
    using replay_loop_calm [OF H st G up rs(2), of rnd 0 "range_from (hr_Pos r) (start_result replay_metadata)"] by auto
  have c: "calm (store s1)" "tracks H (db_of s1)" "closed G (db_of s1)" "delivered (D @ history_events rs) (db_of s1)"
    using 1(3) by (simp_all add: caught_up_def)
  have "closed_at H (db_of s1) t i" for i using c(3) by (auto simp: closed_def closed_at_def G item_event_def)
  moreover have "find_inbox (db_of s1) (EventID env) \<noteq> None" if "env \<in> H" "TenantID env = t" for env
    using c(4) rs(3) that unfolding delivered_def G by auto
  ultimately have "tenant_gaps t (db_of s1) = 0" using no_gaps [OF c(2) H] by blast
  moreover have "tenant_failures t (db_of s1) = 0" using f 1(4) by (simp add: beside_def tenant_failures_def)
  ultimately obtain s2 where 2: "residual_counts [ConsumerName, t] (tenant_gaps t) (tenant_failures t) out1 s1 = (Inr out1, s2)"
    "calm (store s2)" "db_of s2 = db_of s1"
    using residual_calm [OF c(1), of "[ConsumerName, t]" "tenant_gaps t" "tenant_failures t" out1] uuid_storable [OF t(1)] ConsumerName_storable by auto
  obtain out3 s3 where 3: "assignTenantChecksums t out1 s2 = ((out3, None), s3)" "rr_Status out3 = rr_Status out1"
    "rr_Checksum out3 = sha256_hex (projection_text (projection_of (db_of s1) t))" "calm (store s3)" "db_of s3 = db_of s1"
    using assign_calm [OF 2(2) t, of out1] 2(3) by auto
  have "rr_Checksum (stamp out3) = rr_Checksum out3" by (simp add: stamp_def)
  then show ?thesis
    using 1 2(1) 3 c by (simp add: replayTenantRecords_def Let_def r stamped_def caught_up_def beside_def)
qed

lemma rebuild_calm:
  assumes s: "calm (store s)" and inv: "erp_inv (erp (db_of s))" and L: "L = ledger (erp (db_of s))"
    and H: "history L" and st: "\<forall>env \<in> L. storable env" and T: "tracks L (db_of s)" and e: "e \<in> L" "TenantID e = t"
  shows "\<exists>out s' D. RebuildTenantFromHistory coll rnd t s = Some ((out, None), s') \<and> rr_Status out = Some RebuildStatusComplete \<and>
    rr_Checksum out = sha256_hex (projection_text (projection_of (db_of s') t)) \<and>
    caught_up L {env \<in> L. TenantID env = t} D s' \<and> set D \<subseteq> L \<and> {env \<in> L. TenantID env = t} \<subseteq> set D \<and>
    erp (db_of s') = erp (db_of s)"
proof -
  let ?G = "{env \<in> L. TenantID env = t}"
  have t: "valid_uuid t" "to_lower t = t" using event_lower [OF historyD(1) [OF H e(1)]] e(2) by auto
  have nz: "t \<noteq> []" "pg_text_ok t" using t uuid_nonempty uuid_storable by auto
  obtain s1 where 1: "ResetDerivedStateForTenant t s = (Inr (), s1)" "calm (store s1)" "db_of s1 = without_tenant t (db_of s)"
    using tenant_reset_calm [OF s nz] by blast
  have erp1: "erp (db_of s1) = erp (db_of s)" by (simp add: 1(3) without_tenant_def)
  obtain rs s2 where 2: "LoadTenantOutboxHistory coll t [] s1 = (Inr rs, s2)" "calm (store s2)" "db_of s2 = db_of s1"
    "set (history_events rs) = ?G" "\<forall>r \<in> set rs. genuine_history ?G r"
    using load_history_calm [OF 1(2) nz, of coll] inv erp1 L by auto
  have T1: "tracks L (db_of s2)" using without_tenant_tracks [OF T H] 1(3) 2(3) by simp
  obtain D where D: "delivered D (db_of s2)" "set D \<subseteq> L" using delivered_exists [OF T1] by blast
  have "find_inbox (db_of s2) (EventID env) = None" if "env \<in> L" "TenantID env = t" for env
  proof (cases "find_inbox (db_of s) (EventID env)")
    case (Some r)
    then have "ib_tenant r = t" using row_of_event [OF T H that(1) Some] that(2) by (simp add: inbox_matches_def)
    with Some show ?thesis by (simp add: 2(3) 1(3) without_tenant_rows [OF tracksD(1) [OF T]])
  qed (simp add: 2(3) 1(3) without_tenant_rows [OF tracksD(1) [OF T]])
  then have "closed ?G (db_of s2)" by (auto simp: closed_def closed_at_def)
  then have up: "caught_up L ?G D s2" using 2(2) T1 D by (simp add: caught_up_def)
  have "tenant_failures t (db_of s2) = 0" by (simp add: 2(3) 1(3) without_tenant_def tenant_failures_def filter_empty_conv)
  moreover have "rs \<noteq> []" using 2(4) e by (auto simp: history_events_def)
  ultimately obtain out s' where s': "replayTenantRecords rnd t rs s2 = Some ((out, None), s')" "rr_Status out = Some RebuildStatusComplete"
    "rr_Checksum out = sha256_hex (projection_text (projection_of (db_of s') t))"
    "caught_up L ?G (D @ history_events rs) s'" "erp (db_of s') = erp (db_of s2)"
    using replay_calm [OF H st refl t up _ 2(5,4) D(2), of rnd] by blast
  have "RebuildTenantFromHistory coll rnd t s = Some ((out, None), s')"
    by (simp add: RebuildTenantFromHistory_def 1(1) 2(1) s'(1))
  moreover have "set (D @ history_events rs) \<subseteq> L" using D(2) 2(4) by auto
  ultimately show ?thesis using s' 2(3,4) erp1 by (intro exI [of _ out] exI [of _ s'] exI [of _ "D @ history_events rs"]) simp
qed

section \<open>Equal deliveries give equal checksums\<close>

lemma tracks_lower:
  assumes T: "tracks H db" and H: "history H"
  shows "p \<in> set (projection db) \<Longrightarrow> to_lower (pr_item p) = pr_item p"
    "\<lbrakk> h \<in> set (hop_rows tb db); h' \<in> set (hop_rows tb db); hp_tenant h = hp_tenant h'; to_lower (hp_id h) = to_lower (hp_id h') \<rbrakk> \<Longrightarrow> h = h'"
proof -
  assume "p \<in> set (projection db)"
  then have "find_projection db (pr_tenant p) (pr_item p) = Some p" using keyed_projection_set [OF tracksD(1) [OF T]] by blast
  from tracksD(4) [OF T this] obtain env where env: "env \<in> H" "AggregateID env = pr_item p" by (auto simp: item_event_def)
  then show "to_lower (pr_item p) = pr_item p" using event_lower(1) [OF historyD(1) [OF H env(1)]] by simp
next
  assume h: "h \<in> set (hop_rows tb db)" "h' \<in> set (hop_rows tb db)" "hp_tenant h = hp_tenant h'" "to_lower (hp_id h) = to_lower (hp_id h')"
  obtain a where a: "a \<in> H" "envelope_hop a = Some (tb, h)" using tracksD(7) [OF T h(1)] by blast
  obtain b where b: "b \<in> H" "envelope_hop b = Some (tb, h')" using tracksD(7) [OF T h(2)] by blast
  have low: "to_lower (hp_id h) = hp_id h" "to_lower (hp_id h') = hp_id h'"
    using event_lower(1) [OF historyD(1) [OF H a(1)]] event_lower(1) [OF historyD(1) [OF H b(1)]]
      hop_shape(2) [OF historyD(1) [OF H a(1)] a(2)] hop_shape(2) [OF historyD(1) [OF H b(1)] b(2)] by auto
  have "hp_id h = hp_id h'" using h(4) unfolding low .
  then have "hop_conflict tb h h'" using h(3) by (cases tb) simp_all
  then have "a = b" using historyD(6) [OF H a(1) b(1) a(2) b(2)] by blast
  then show "h = h'" using a b by simp
qed

lemma same_deliveries:
  assumes H: "history H" and up: "caught_up H H D p" "caught_up H H D' q" and D: "set D \<subseteq> H" "set D = set D'"
  shows "mset (projection (db_of p)) = mset (projection (db_of q))" "mset (hop_rows tb (db_of p)) = mset (hop_rows tb (db_of q))"
    "find_projection (db_of p) t i = find_projection (db_of q) t i"
proof -
  have k: "keyed (db_of p)" "keyed (db_of q)" using up tracksD(1) by (auto simp: caught_up_def)
  have same: "map_option (\<lambda>p. (pr_quantity p, pr_version p)) (find_projection (db_of p) t i) =
      map_option (\<lambda>p. (pr_quantity p, pr_version p)) (find_projection (db_of q) t i)" for t i
    using caught_up_shows(1) [OF up(1) H D(1), of t i] caught_up_shows(1) [OF up(2) H, of t i] stock_spec_cong [OF H D] D by auto
  show "mset (projection (db_of p)) = mset (projection (db_of q))" "find_projection (db_of p) t i = find_projection (db_of q) t i"
    using same_projection [OF k same] by blast+
  have "set (hop_rows tb (db_of p)) = set (hop_rows tb (db_of q))"
    using caught_up_shows(2) [OF up(1) H D(1)] caught_up_shows(2) [OF up(2) H] D by (simp add: lineage_spec_def)
  moreover have "distinct (hop_rows tb (db_of p))" "distinct (hop_rows tb (db_of q))" using k by (auto simp: keyed_def)
  ultimately show "mset (hop_rows tb (db_of p)) = mset (hop_rows tb (db_of q))" by (simp add: set_eq_iff_mset_eq_distinct)
qed

section \<open>Properties\<close>

lemma sample_polls:
  assumes "set rs \<subseteq> {sample_record}" shows "\<exists>s. polls sample_site rs s"
proof -
  let ?H = "{sample_decremented}" and ?ps = "[\<lparr>fp_HighWatermark = 1, fp_Records = rs\<rparr>]"
  have up: "caught_up ?H ?H [] sample_site" by (rule caught_up_start [OF sample_history]) simp_all
  have "\<forall>r \<in> set (concat (map fp_Records ?ps)). genuine ?H r" using assms sample_genuine by auto
  from ConsumeOnce_calm [OF sample_history _ subset_refl up this, of "\<lambda>_. None" True]
  obtain x s where "ConsumeOnce (\<lambda>_. None) (Fetches ?ps) True sample_site = Some (x, s)" using sample_storable by auto
  from polls.poll [OF polls.start this] show ?thesis by auto
qed

lemma follows_tracks:
  assumes "history H" "db_of s0 = empty_platform e" "consumer_run H s0 s" shows "tracks H (db_of s)"
  by (rule consumer_run_tracks [OF assms(3,1)]) (simp add: assms(2) tracks_empty [OF assms(1)])



text \<open>C23. Resetting a tenant is atomic and touches nothing else: it leaves the database as it was and reports an
  error, or removes exactly the tenant's inbox, projection, lineage and failure rows; an error after such a
  change is only possible when the reply to the commit was lost.\<close>

theorem tenant_reset_isolated:
  "case ResetDerivedStateForTenant t s of (r, s') \<Rightarrow>
     (\<exists>e. r = Inl e) \<and> db_of s' = db_of s \<or>
     db_of s' = without_tenant t (db_of s) \<and> (r = Inr () \<or> (\<exists>e. r = Inl e) \<and> commit_reply (store s) = ReplyLost)"
  using tenant_reset_outcome [of t s] by (cases "ResetDerivedStateForTenant t s") simp





end
