(* ===== verification/Platform_Faults.thy ===== *)
theory Platform_Faults
  imports Platform_Rebuild
begin

text \<open>
  What cannot be handled: records with text that PostgreSQL refuses. Every path of the handler, also the one
  that would quarantine the record, writes the text, so no attempt ever succeeds.
\<close>

section \<open>Text the database cannot hold\<close>

text \<open>A transaction whose body cannot succeed changes nothing.\<close>

lemma transact_never:
  assumes "transact be ce body w = (r, w')" "\<And>now fs x db' fs'. body now (durable w) fs \<noteq> (Inr x, db', fs')"
  shows "(\<exists>e. r = Inl e) \<and> durable w' = durable w"
  using assms(1) by (rule transact_cases) (use assms(2) in blast)+

definition identity_texts :: "recovered \<Rightarrow> string list" where
  "identity_texts rc = concat (map opt_list [rc_event rc, rc_tenant rc, rc_atype rc, rc_aid rc, rc_etype rc])"

definition unstorable :: "string \<Rightarrow> seshat_db \<Rightarrow> bool" where
  "unstorable v db \<longleftrightarrow>
     (case Parse v of
        Inl e \<Rightarrow> \<not> list_all pg_text_ok (identity_texts (recoveredParseIdentity v))
      | Inr env \<Rightarrow> \<not> pg_text_ok (AggregateID env) \<and> find_inbox db (EventID env) = None)"

lemma failure_row_fails:
  assumes "\<not> list_all pg_text_ok (identity_texts rc)"
  shows "upsertFailureReturning rnd now (failure_of rc hash cat code bh pos st) db fs \<noteq> (Inr x, db', fs')"
proof -
  have "\<not> list_all pg_text_ok (failure_texts i (failure_of rc hash cat code bh pos st))" for i
    using assms by (auto simp: failure_texts_def identity_texts_def failure_of_def)
  then show ?thesis by (auto simp: upsertFailureReturning_def tx_stmt_Inr tx_fail_Inr split: sum.splits)
qed

lemma persist_failure_fails:
  assumes "\<not> list_all pg_text_ok (identity_texts rc)"
    and "persist_failure rnd (failure_of rc hash cat code bh pos st) s = ((res, err), s')"
  shows "\<not> res_ShouldAck res \<and> err \<noteq> None \<and> db_of s' = db_of s"
proof -
  let ?body = "\<lambda>now. upsertFailure rnd now (failure_of rc hash cat code bh pos st)"
  obtain r w where t: "transact ErrTransient ErrTransient ?body (store s) = (r, w)" by fastforce
  have "?body now db fs \<noteq> (Inr x, db', fs')" for now db fs x db' fs'
    using failure_row_fails [OF assms(1)] by (auto simp: upsertFailure_def tx_bind_Inr)
  from transact_never [OF t this] assms(2) t show ?thesis
    by (auto simp: persist_failure_def on_store_def no_result_def)
qed

lemma record_as_fails:
  "\<not> pg_text_ok (AggregateID env) \<Longrightarrow> record_as now (inbox_of env hash d ex rcv b) db fs \<noteq> (Inr x, db', fs')"
  by (auto simp: sql_simps inbox_of_def)

lemma applyEvent_fails:
  assumes "\<not> pg_text_ok (AggregateID env)" shows "applyEvent now env hash b db fs \<noteq> (Inr x, db', fs')"
  using assms
  by (auto simp: applyEvent_def applyProjection_def applyLineage_def lockLineageVersion_def tx_bind_Inr tx_query_Inr tx_fail_Inr
      split: option.splits if_splits)

lemma validated_tx_fails:
  assumes "\<not> pg_text_ok (AggregateID env)" "find_inbox db (EventID env) = None"
  shows "validated_tx env hash b now db fs \<noteq> (Inr x, db', fs')"
  using applyEvent_fails [OF assms(1)] assms(2)
  by (auto simp: validated_tx_def lockInbox_def tx_bind_Inr tx_query_Inr split: option.splits)

lemma processValidated_fails:
  assumes "\<not> pg_text_ok (AggregateID env)" "find_inbox (db_of s) (EventID env) = None" "processValidated env s = (r, s')"
  shows "(\<exists>e. r = Inl e) \<and> db_of s' = db_of s"
proof (cases "CanonicalBytes env")
  case (Inl e)
  then show ?thesis using assms(3) by (auto simp: processValidated_def split: sum.splits)
next
  case (Inr b)
  then obtain h where h: "ContentHash env = Inr h" by (simp add: ContentHash_def)
  obtain x w where t: "transact ErrTransient ErrTransient (validated_tx env h b) (store s) = (x, w)" by fastforce
  from transact_never [OF t validated_tx_fails [OF assms(1,2)]] show ?thesis
    using assms(3) t by (auto simp: processValidated_def Inr h on_store_def)
qed

lemma bumpPoison_fails:
  assumes "\<not> pg_text_ok (AggregateID env)" "bumpPoisonAttempt rnd env v pos code s = ((res, err), s')"
  shows "\<not> res_ShouldAck res \<and> err \<noteq> None \<and> db_of s' = db_of s"
proof -
  obtain rc hash where fi: "failureIdentity env = (rc, hash)" by (cases "failureIdentity env")
  then have bad: "\<not> list_all pg_text_ok (identity_texts rc)" using assms(1) by (auto simp: failureIdentity_def identity_texts_def opt_list_def)
  let ?body = "poison_tx rnd (failure_of rc hash ''handler_poison'' code (receivedBytesHash v) pos Retrying)"
  obtain r w where t: "transact ErrTransient ErrTransient ?body (store s) = (r, w)" by fastforce
  have "?body now db fs \<noteq> (Inr x, db', fs')" for now db fs x db' fs'
    using failure_row_fails [OF bad] by (auto simp: poison_tx_def tx_bind_Inr)
  from transact_never [OF t this] assms(2) t show ?thesis
    by (auto simp: bumpPoisonAttempt_def fi on_store_def no_result_def)
qed

lemma quarantineInbox_fails:
  assumes "\<not> pg_text_ok (AggregateID env)" "quarantineInbox env d ex rcv s = (r, s')"
  shows "(\<exists>e. r = Inl e) \<and> db_of s' = db_of s"
proof -
  let ?h = "case ContentHash env of Inl e \<Rightarrow> [] | Inr h \<Rightarrow> h"
  let ?b = "if d = DispositionQuarantinedGap then (case CanonicalBytes env of Inl e \<Rightarrow> [] | Inr b \<Rightarrow> b) else []"
  obtain x w where t: "transact ErrTransient ErrTransient (\<lambda>now. record_as now (inbox_of env ?h d ex rcv ?b)) (store s) = (x, w)" by fastforce
  from transact_never [OF t record_as_fails [OF assms(1)]] show ?thesis
    using assms(2) t by (auto simp: quarantineInbox_def on_store_def Let_def)
qed


definition nul_event :: envelope where
  "nul_event = sample_decremented\<lparr>AggregateID := [CHR 0x00],
     Payload := Some (QuantityDecremented \<lparr>qd_OrderID = ''44444444-4444-4444-B444-444444444444'', qd_ItemID = [CHR 0x00],
       qd_QuantityDecremented = 3, qd_QuantityBefore = 10, qd_QuantityAfter = 7\<rparr>)\<rparr>"

lemma nul_event_valid: "valid_envelope nul_event"
proof -
  have "valid_id [CHR 0x00]" by (simp add: valid_id_def err_simps ascii_lower_id is_space_def)
  then show ?thesis
    using sample_valid by (simp add: valid_envelope_def nul_event_def)
      (simp add: sample_decremented_def)
qed


end
