(* ===== verification/Identity.thy ===== *)
theory Identity
  imports Platform_Reads Source_System "HOL-Library.AList"
begin

text \<open>
  Package \<^verbatim>\<open>identity\<close>: the permission matrix and the policy over the directory of assignments
  (\<^verbatim>\<open>matrix.go\<close>, \<^verbatim>\<open>directory.go\<close>, \<^verbatim>\<open>policy.go\<close>), sessions and pending logins
  (\<^verbatim>\<open>session.go\<close>, \<^verbatim>\<open>store.go\<close>), the cookie lookup and its middleware (\<^verbatim>\<open>authenticator.go\<close>,
  \<^verbatim>\<open>middleware.go\<close>), the relying party and its four handlers (\<^verbatim>\<open>service.go\<close>, \<^verbatim>\<open>handler.go\<close>) and the
  append-only log of decisions (\<^verbatim>\<open>audit.go\<close>, \<^verbatim>\<open>migrate.sql\<close>).

  Go maps are association lists, and a pointer that the code compares with nil is an option. The clock, the random
  source and the OIDC provider are arguments: each operation takes the readings it makes and \<open>oidc\<close> holds what the
  provider and the two libraries answer. Locks are not modelled: operations run one after the other. Bodies of
  redirects and of the multiplexer's own 404 are not modelled; instants in bodies stand for their RFC 3339 text.
  The table of decisions has a \<open>world\<close> of its own.
\<close>

section \<open>Errors and the permission matrix\<close>

datatype identity_error = ErrUnauthenticated | ErrForbidden | ErrInvalidDecision | IdentityRandom | IdentityDB

definition TenantNS001UUID :: string where "TenantNS001UUID = ''11111111-1111-4111-8111-111111111111''"
definition TenantNS002UUID :: string where "TenantNS002UUID = ''22222222-2222-4222-8222-222222222222''"
definition ScopeRuntime :: string where "ScopeRuntime = ''SCOPE-RUNTIME''"

definition RoleOpsReader :: string where "RoleOpsReader = ''ROLE-OPS-READER''"
definition RolePlatformOperator :: string where "RolePlatformOperator = ''ROLE-PLATFORM-OPERATOR''"
definition RoleReleaseObserver :: string where "RoleReleaseObserver = ''ROLE-RELEASE-OBSERVER''"

definition ResInventoryProjection :: string where "ResInventoryProjection = ''RES-INVENTORY-PROJECTION''"
definition ResOpsVisibility :: string where "ResOpsVisibility = ''RES-OPS-VISIBILITY''"
definition ResQuarantine :: string where "ResQuarantine = ''RES-QUARANTINE''"
definition ResReplay :: string where "ResReplay = ''RES-REPLAY''"
definition ResRebuild :: string where "ResRebuild = ''RES-REBUILD''"
definition ResAudit :: string where "ResAudit = ''RES-AUDIT''"
definition ResForecastFeatures :: string where "ResForecastFeatures = ''RES-FORECAST-FEATURES''"
definition ResForecastPredictions :: string where "ResForecastPredictions = ''RES-FORECAST-PREDICTIONS''"
definition ResReleaseMetrics :: string where "ResReleaseMetrics = ''RES-RELEASE-METRICS''"

definition ActRead :: string where "ActRead = ''ACT-READ''"
definition ActQuarantineRelease :: string where "ActQuarantineRelease = ''ACT-QUARANTINE-RELEASE''"
definition ActReplay :: string where "ActReplay = ''ACT-REPLAY''"
definition ActRebuild :: string where "ActRebuild = ''ACT-REBUILD''"
definition ActAuditRead :: string where "ActAuditRead = ''ACT-AUDIT-READ''"

lemmas scope_defs = TenantNS001UUID_def TenantNS002UUID_def ScopeRuntime_def
lemmas role_defs = RoleOpsReader_def RolePlatformOperator_def RoleReleaseObserver_def
lemmas res_defs = ResInventoryProjection_def ResOpsVisibility_def ResQuarantine_def ResReplay_def ResRebuild_def ResAudit_def
  ResForecastFeatures_def ResForecastPredictions_def ResReleaseMetrics_def
lemmas act_defs = ActRead_def ActQuarantineRelease_def ActReplay_def ActRebuild_def ActAuditRead_def
lemmas matrix_defs = scope_defs role_defs res_defs act_defs

record allowRow =
  al_ID :: string
  al_TenantID :: string
  al_RoleID :: string
  al_Resource :: string
  al_Action :: string

definition frozenAllowList :: "allowRow list" where
  "frozenAllowList =
     [\<lparr>al_ID = ''MX-001'', al_TenantID = TenantNS001UUID, al_RoleID = RoleOpsReader, al_Resource = ResInventoryProjection, al_Action = ActRead\<rparr>,
      \<lparr>al_ID = ''MX-002'', al_TenantID = TenantNS001UUID, al_RoleID = RoleOpsReader, al_Resource = ResOpsVisibility, al_Action = ActRead\<rparr>,
      \<lparr>al_ID = ''MX-003'', al_TenantID = TenantNS001UUID, al_RoleID = RolePlatformOperator, al_Resource = ResOpsVisibility, al_Action = ActRead\<rparr>,
      \<lparr>al_ID = ''MX-004'', al_TenantID = TenantNS001UUID, al_RoleID = RolePlatformOperator, al_Resource = ResQuarantine, al_Action = ActQuarantineRelease\<rparr>,
      \<lparr>al_ID = ''MX-005'', al_TenantID = TenantNS001UUID, al_RoleID = RolePlatformOperator, al_Resource = ResReplay, al_Action = ActReplay\<rparr>,
      \<lparr>al_ID = ''MX-006'', al_TenantID = TenantNS001UUID, al_RoleID = RolePlatformOperator, al_Resource = ResRebuild, al_Action = ActRebuild\<rparr>,
      \<lparr>al_ID = ''MX-007'', al_TenantID = TenantNS001UUID, al_RoleID = RolePlatformOperator, al_Resource = ResAudit, al_Action = ActAuditRead\<rparr>,
      \<lparr>al_ID = ''MX-008'', al_TenantID = TenantNS001UUID, al_RoleID = RoleOpsReader, al_Resource = ResForecastFeatures, al_Action = ActRead\<rparr>,
      \<lparr>al_ID = ''MX-009'', al_TenantID = TenantNS001UUID, al_RoleID = RoleOpsReader, al_Resource = ResForecastPredictions, al_Action = ActRead\<rparr>,
      \<lparr>al_ID = ''MX-010'', al_TenantID = ScopeRuntime, al_RoleID = RoleReleaseObserver, al_Resource = ResReleaseMetrics, al_Action = ActRead\<rparr>]"

definition matrixAllows :: "string \<Rightarrow> string \<Rightarrow> string \<Rightarrow> string \<Rightarrow> bool" where
  "matrixAllows tenantID roleID resource action =
     (if tenantID = [] \<or> roleID = [] \<or> resource = [] \<or> action = [] then False
      else list_ex (\<lambda>row. al_TenantID row = tenantID \<and> al_RoleID row = roleID \<and> al_Resource row = resource \<and> al_Action row = action)
             frozenAllowList)"

section \<open>Directory\<close>

record Assignment =
  as_PrincipalID :: string
  as_TenantID :: string
  as_RoleID :: string

text \<open>The map of the directory, as an association list; a nil pointer is \<open>None\<close>.\<close>

type_synonym Directory = "(string \<times> Assignment list) list"

definition rows_of :: "Directory \<Rightarrow> string \<Rightarrow> Assignment list" where
  "rows_of d principalID = (case map_of d principalID of None \<Rightarrow> [] | Some as \<Rightarrow> as)"

definition addLocked :: "Assignment \<Rightarrow> Directory \<Rightarrow> Directory" where
  "addLocked a d =
     (if as_PrincipalID a = [] then d
      else AList.update (as_PrincipalID a) (rows_of d (as_PrincipalID a) @ [a]) d)"

definition NewDirectory :: "Assignment list \<Rightarrow> Directory" where
  "NewDirectory as = fold addLocked as []"

definition Assign :: "Assignment \<Rightarrow> Directory option \<Rightarrow> Directory option" where
  "Assign a d = map_option (addLocked a) d"

definition Clear :: "string \<Rightarrow> Directory option \<Rightarrow> Directory option" where
  "Clear principalID d =
     (case d of
        None \<Rightarrow> None
      | Some m \<Rightarrow> if principalID = [] then Some m else Some (AList.delete principalID m))"

definition Assignments :: "Directory option \<Rightarrow> string \<Rightarrow> Assignment list" where
  "Assignments d principalID =
     (case d of None \<Rightarrow> [] | Some m \<Rightarrow> if principalID = [] then [] else rows_of m principalID)"

section \<open>Policy\<close>

record Policy =
  po_dir :: "Directory option"

text \<open>The loop over the rows: an incomplete row fails the whole evaluation.\<close>

fun scope_roles :: "string \<Rightarrow> string \<Rightarrow> Assignment list \<Rightarrow> string list \<Rightarrow> string list option" where
  "scope_roles principalID scopeID [] roles = Some roles"
| "scope_roles principalID scopeID (row # rows) roles =
     (if as_PrincipalID row \<noteq> principalID then None
      else if as_TenantID row = [] then None
      else if as_TenantID row \<noteq> scopeID then scope_roles principalID scopeID rows roles
      else if as_RoleID row = [] then None
      else scope_roles principalID scopeID rows (roles @ [as_RoleID row]))"

definition Allow :: "Policy option \<Rightarrow> string \<Rightarrow> string \<Rightarrow> string \<Rightarrow> string \<Rightarrow> identity_error option" where
  "Allow p principalID scopeID resource action =
     (case p of
        None \<Rightarrow> Some ErrForbidden
      | Some pol \<Rightarrow>
          if po_dir pol = None then Some ErrForbidden
          else if principalID = [] \<or> scopeID = [] \<or> resource = [] \<or> action = [] then Some ErrForbidden
          else
            (let rows = Assignments (po_dir pol) principalID in
             if rows = [] then Some ErrForbidden
             else
               (case scope_roles principalID scopeID rows [] of
                  None \<Rightarrow> Some ErrForbidden
                | Some roles \<Rightarrow>
                    if roles = [] then Some ErrForbidden
                    else if list_ex (\<lambda>role. matrixAllows scopeID role resource action) roles then None
                    else Some ErrForbidden)))"

section \<open>Sessions\<close>

record Session =
  se_ID :: string
  se_PrincipalID :: string
  se_Issuer :: string
  se_Subject :: string
  se_AuthenticatedAt :: gotime
  se_ExpiresAt :: gotime
  se_CorrelationID :: string

definition Fresh :: "Session option \<Rightarrow> gotime \<Rightarrow> bool" where
  "Fresh s now =
     (case s of
        None \<Rightarrow> False
      | Some se \<Rightarrow>
          if se_PrincipalID se = [] \<or> se_Subject se = [] \<or> se_Issuer se = [] then False
          else now < se_ExpiresAt se)"

record pendingAuth =
  pa_Verifier :: string
  pa_Nonce :: string
  pa_ExpiresAt :: gotime

text \<open>The clock of the store is read by each operation, so \<open>now\<close> is an argument of each; \<open>rnd\<close> are the bytes
  of one call of \<^verbatim>\<open>rand.Read\<close>, \<open>None\<close> when it fails.\<close>

record Store =
  so_sessions :: "(string \<times> Session) list"
  so_pending :: "(string \<times> pendingAuth) list"
  so_ttl :: int

definition defaultSessionTTL :: int where "defaultSessionTTL = 3600 * 10 ^ 9"
definition defaultPendingTTL :: int where "defaultPendingTTL = 600 * 10 ^ 9"

definition NewStore :: "int \<Rightarrow> Store" where
  "NewStore ttl = \<lparr>so_sessions = [], so_pending = [], so_ttl = (if ttl \<le> 0 then defaultSessionTTL else ttl)\<rparr>"

definition randomID :: "string option \<Rightarrow> identity_error + string" where
  "randomID rnd = (case rnd of None \<Rightarrow> Inl IdentityRandom | Some b \<Rightarrow> Inr (hex_encode b))"

definition Create ::
  "string \<Rightarrow> string \<Rightarrow> string \<Rightarrow> string \<Rightarrow> string option \<Rightarrow> string option \<Rightarrow> gotime \<Rightarrow> Store \<Rightarrow> (identity_error + Session) \<times> Store" where
  "Create principalID issuer subject correlationID rnd1 rnd2 now st =
     (case randomID rnd1 of
        Inl e \<Rightarrow> (Inl e, st)
      | Inr i \<Rightarrow>
          (case (if correlationID = [] then randomID rnd2 else Inr correlationID) of
             Inl e \<Rightarrow> (Inl e, st)
           | Inr corr \<Rightarrow>
               (let sess = \<lparr>se_ID = i, se_PrincipalID = principalID, se_Issuer = issuer, se_Subject = subject,
                            se_AuthenticatedAt = now, se_ExpiresAt = now + so_ttl st, se_CorrelationID = corr\<rparr>
                in (Inr sess, st\<lparr>so_sessions := AList.update i sess (so_sessions st)\<rparr>))))"

definition Get :: "string \<Rightarrow> gotime \<Rightarrow> Store \<Rightarrow> Session option \<times> Store" where
  "Get i now st =
     (if i = [] then (None, st)
      else
        (case map_of (so_sessions st) i of
           None \<Rightarrow> (None, st)
         | Some sess \<Rightarrow>
             if \<not> Fresh (Some sess) now then (None, st\<lparr>so_sessions := AList.delete i (so_sessions st)\<rparr>)
             else (Some sess, st)))"

definition Delete :: "string \<Rightarrow> Store \<Rightarrow> Store" where
  "Delete i st = (if i = [] then st else st\<lparr>so_sessions := AList.delete i (so_sessions st)\<rparr>)"

definition sweepPendingLocked :: "gotime \<Rightarrow> Store \<Rightarrow> Store" where
  "sweepPendingLocked now st = st\<lparr>so_pending := filter (\<lambda>(i, p). now < pa_ExpiresAt p) (so_pending st)\<rparr>"

definition putPending :: "string \<Rightarrow> string \<Rightarrow> string \<Rightarrow> gotime \<Rightarrow> Store \<Rightarrow> Store" where
  "putPending state verifier nonce now st0 =
     (let st = sweepPendingLocked now st0 in
      st\<lparr>so_pending := AList.update state
           \<lparr>pa_Verifier = verifier, pa_Nonce = nonce, pa_ExpiresAt = now + defaultPendingTTL\<rparr> (so_pending st)\<rparr>)"

definition takePending :: "string \<Rightarrow> gotime \<Rightarrow> Store \<Rightarrow> pendingAuth option \<times> Store" where
  "takePending state now st0 =
     (let st = sweepPendingLocked now st0 in
      case map_of (so_pending st) state of
        None \<Rightarrow> (None, st)
      | Some p \<Rightarrow> (Some p, st\<lparr>so_pending := AList.delete state (so_pending st)\<rparr>))"

definition pendingLen :: "gotime \<Rightarrow> Store \<Rightarrow> nat \<times> Store" where
  "pendingLen now st0 = (let st = sweepPendingLocked now st0 in (length (so_pending st), st))"

section \<open>Requests and responses\<close>

text \<open>A request as the handlers read it: cookies and query are the parsed pairs in the order sent, the
  body is \<open>None\<close> when reading it fails. A body of a response is an error code or a value of the handler's own
  type, which is written as JSON.\<close>

record request =
  rq_Method :: string
  rq_Path :: string
  rq_Query :: "(string \<times> string) list"
  rq_RawQuery :: string
  rq_Cookies :: "(string \<times> string) list"
  rq_Body :: "string option"

record Cookie =
  ck_Name :: string
  ck_Value :: string
  ck_Path :: string
  ck_MaxAge :: int
  ck_Expires :: "gotime option"
  ck_HttpOnly :: bool
  ck_SameSiteLax :: bool
  ck_Secure :: bool

datatype 'b reply_body = ErrorBody string | Body 'b | NoBody

record 'b response =
  rs_Status :: nat
  rs_Allow :: "string option"
  rs_Cookies :: "Cookie list"
  rs_Location :: "string option"
  rs_Body :: "'b reply_body"

definition respond :: "nat \<Rightarrow> 'b reply_body \<Rightarrow> 'b response" where
  "respond status b = \<lparr>rs_Status = status, rs_Allow = None, rs_Cookies = [], rs_Location = None, rs_Body = b\<rparr>"

definition writeJSON :: "nat \<Rightarrow> 'b \<Rightarrow> 'b response" where
  "writeJSON status v = respond status (Body v)"

definition writeError :: "nat \<Rightarrow> string \<Rightarrow> 'b response" where
  "writeError status code = respond status (ErrorBody code)"

definition method_not_allowed :: "string \<Rightarrow> 'b response" where
  "method_not_allowed allow = (writeError 405 ''method_not_allowed'')\<lparr>rs_Allow := Some allow\<rparr>"

definition with_cookie :: "Cookie \<Rightarrow> 'b response \<Rightarrow> 'b response" where
  "with_cookie c r = r\<lparr>rs_Cookies := rs_Cookies r @ [c]\<rparr>"

definition redirect :: "string \<Rightarrow> 'b response" where
  "redirect url = (respond 302 NoBody)\<lparr>rs_Location := Some url\<rparr>"

definition request_cookie :: "string \<Rightarrow> request \<Rightarrow> string option" where
  "request_cookie name r = (if name = [] then None else map_of (rq_Cookies r) name)"

definition query_get :: "string \<Rightarrow> request \<Rightarrow> string" where
  "query_get name r = (case map_of (rq_Query r) name of None \<Rightarrow> [] | Some v \<Rightarrow> v)"

section \<open>Session lookup\<close>

definition DefaultCookieName :: string where "DefaultCookieName = ''seshatops_session''"
definition DefaultLoginCookieName :: string where "DefaultLoginCookieName = ''seshatops_login''"

text \<open>The authenticator and the store it points to; a nil authenticator or store is \<open>None\<close>.\<close>

record Authenticator =
  au_cookieName :: string

definition NewAuthenticator :: "string \<Rightarrow> Authenticator" where
  "NewAuthenticator cookieName = \<lparr>au_cookieName = (if cookieName = [] then DefaultCookieName else cookieName)\<rparr>"

definition lookup_session :: "Authenticator option \<Rightarrow> request \<Rightarrow> gotime \<Rightarrow> Store \<Rightarrow> (identity_error + Session) \<times> Store" where
  "lookup_session a r now st =
     (case a of
        None \<Rightarrow> (Inl ErrUnauthenticated, st)
      | Some au \<Rightarrow>
          (case request_cookie (au_cookieName au) r of
             None \<Rightarrow> (Inl ErrUnauthenticated, st)
           | Some v \<Rightarrow>
               if v = [] then (Inl ErrUnauthenticated, st)
               else
                 (case Get v now st of
                    (None, st') \<Rightarrow> (Inl ErrUnauthenticated, st')
                  | (Some sess, st') \<Rightarrow> (Inr sess, st'))))"

text \<open>The middleware: \<open>next\<close> runs only with a session.\<close>

definition RequireSession ::
  "Authenticator option \<Rightarrow> request \<Rightarrow> gotime \<Rightarrow> Store \<Rightarrow> (Session \<Rightarrow> Store \<Rightarrow> 'b response \<times> 's) \<Rightarrow> (Store \<Rightarrow> 's) \<Rightarrow> 'b response \<times> 's" where
  "RequireSession lookup r now st nxt stop =
     (case lookup_session lookup r now st of
        (Inl e, st') \<Rightarrow> (writeError 401 ''unauthenticated'', stop st')
      | (Inr sess, st') \<Rightarrow> nxt sess st')"

section \<open>The relying party\<close>

record identity_config =
  cfg_Issuer :: string
  cfg_ClientID :: string
  cfg_ClientSecret :: string
  cfg_RedirectURL :: string
  cfg_Audience :: string
  cfg_SessionTTL :: int
  cfg_CookieSecure :: bool
  cfg_CookieName :: string

record oauth2_config =
  oa_ClientID :: string
  oa_ClientSecret :: string
  oa_RedirectURL :: string
  oa_Endpoint :: string
  oa_Scopes :: "string list"

record id_token =
  it_Issuer :: string
  it_Subject :: string
  it_Nonce :: string

text \<open>The provider and the two OIDC libraries: discovery gives the endpoint; an exchanged token may carry an ID token;
  verification of an ID token for an issuer and an audience gives its claims.\<close>

record oidc =
  oi_Discover :: "string \<Rightarrow> string option"
  oi_AuthCodeURL :: "oauth2_config \<Rightarrow> string \<Rightarrow> string \<Rightarrow> string \<Rightarrow> string"
  oi_Exchange :: "oauth2_config \<Rightarrow> string \<Rightarrow> string \<Rightarrow> string option option"
  oi_Verify :: "string \<Rightarrow> string \<Rightarrow> string \<Rightarrow> id_token option"

record Service =
  sv_cfg :: identity_config
  sv_store :: Store
  sv_auth :: "Authenticator option"
  sv_oauth2 :: oauth2_config

datatype service_error = ConfigRequired | DiscoveryFailed

definition New :: "oidc \<Rightarrow> identity_config \<Rightarrow> service_error + Service" where
  "New env cfg0 =
     (if cfg_Issuer cfg0 = [] \<or> cfg_ClientID cfg0 = [] \<or> cfg_RedirectURL cfg0 = [] then Inl ConfigRequired
      else
        (let cfg1 = (if cfg_CookieName cfg0 = [] then cfg0\<lparr>cfg_CookieName := DefaultCookieName\<rparr> else cfg0);
             cfg = (if cfg_Audience cfg1 = [] then cfg1\<lparr>cfg_Audience := cfg_ClientID cfg1\<rparr> else cfg1)
         in case oi_Discover env (cfg_Issuer cfg) of
              None \<Rightarrow> Inl DiscoveryFailed
            | Some endpoint \<Rightarrow>
                Inr \<lparr>sv_cfg = cfg, sv_store = NewStore (cfg_SessionTTL cfg), sv_auth = Some (NewAuthenticator (cfg_CookieName cfg)),
                     sv_oauth2 = \<lparr>oa_ClientID = cfg_ClientID cfg, oa_ClientSecret = cfg_ClientSecret cfg,
                                  oa_RedirectURL = cfg_RedirectURL cfg, oa_Endpoint = endpoint, oa_Scopes = [''openid'']\<rparr>\<rparr>))"

definition setLoginCookie :: "Service \<Rightarrow> string \<Rightarrow> Cookie" where
  "setLoginCookie s state =
     \<lparr>ck_Name = DefaultLoginCookieName, ck_Value = state, ck_Path = ''/'', ck_MaxAge = defaultPendingTTL div 10 ^ 9, ck_Expires = None,
      ck_HttpOnly = True, ck_SameSiteLax = True, ck_Secure = cfg_CookieSecure (sv_cfg s)\<rparr>"

definition clearLoginCookie :: "Service \<Rightarrow> Cookie" where
  "clearLoginCookie s =
     \<lparr>ck_Name = DefaultLoginCookieName, ck_Value = [], ck_Path = ''/'', ck_MaxAge = -1, ck_Expires = None,
      ck_HttpOnly = True, ck_SameSiteLax = True, ck_Secure = cfg_CookieSecure (sv_cfg s)\<rparr>"

definition setSessionCookie :: "Service \<Rightarrow> string \<Rightarrow> gotime \<Rightarrow> Cookie" where
  "setSessionCookie s i expires =
     \<lparr>ck_Name = cfg_CookieName (sv_cfg s), ck_Value = i, ck_Path = ''/'', ck_MaxAge = 0, ck_Expires = Some expires,
      ck_HttpOnly = True, ck_SameSiteLax = True, ck_Secure = cfg_CookieSecure (sv_cfg s)\<rparr>"

definition clearSessionCookie :: "Service \<Rightarrow> Cookie" where
  "clearSessionCookie s =
     \<lparr>ck_Name = cfg_CookieName (sv_cfg s), ck_Value = [], ck_Path = ''/'', ck_MaxAge = -1, ck_Expires = None,
      ck_HttpOnly = True, ck_SameSiteLax = True, ck_Secure = cfg_CookieSecure (sv_cfg s)\<rparr>"

text \<open>The body of \<^verbatim>\<open>/auth/session\<close>; the two instants are written as RFC 3339 text.\<close>

record sessionBody =
  sb_PrincipalID :: string
  sb_Subject :: string
  sb_Issuer :: string
  sb_AuthenticatedAt :: gotime
  sb_ExpiresAt :: gotime
  sb_CorrelationID :: string

type_synonym auth_response = "sessionBody response"

definition handleLogin ::
  "oidc \<Rightarrow> request \<Rightarrow> string option \<Rightarrow> string option \<Rightarrow> string \<Rightarrow> gotime \<Rightarrow> Service \<Rightarrow> auth_response \<times> Service" where
  "handleLogin env r rnd1 rnd2 verifier now s =
     (if rq_Method r \<noteq> ''GET'' then (method_not_allowed ''GET'', s)
      else
        (case randomID rnd1 of
           Inl _ \<Rightarrow> (writeError 500 ''login_failed'', s)
         | Inr state \<Rightarrow>
             (case randomID rnd2 of
                Inl _ \<Rightarrow> (writeError 500 ''login_failed'', s)
              | Inr nonce \<Rightarrow>
                  (let s' = s\<lparr>sv_store := putPending state verifier nonce now (sv_store s)\<rparr>
                   in (with_cookie (setLoginCookie s state) (redirect (oi_AuthCodeURL env (sv_oauth2 s) state verifier nonce)), s')))))"

text \<open>What follows the exchange of the code, up to the new session: \<open>None\<close> is an invalid assertion.\<close>

definition assertion :: "oidc \<Rightarrow> Service \<Rightarrow> string \<Rightarrow> pendingAuth \<Rightarrow> id_token option" where
  "assertion env s code pending =
     (case oi_Exchange env (sv_oauth2 s) code (pa_Verifier pending) of
        None \<Rightarrow> None
      | Some None \<Rightarrow> None
      | Some (Some rawIDToken) \<Rightarrow>
          if rawIDToken = [] then None
          else
            (case oi_Verify env (cfg_Issuer (sv_cfg s)) (cfg_Audience (sv_cfg s)) rawIDToken of
               None \<Rightarrow> None
             | Some idToken \<Rightarrow>
                 if it_Subject idToken = [] then None
                 else if pa_Nonce pending \<noteq> [] \<and> it_Nonce idToken \<noteq> pa_Nonce pending then None
                 else Some idToken))"

definition handleCallback ::
  "oidc \<Rightarrow> request \<Rightarrow> gotime \<Rightarrow> string option \<Rightarrow> string option \<Rightarrow> gotime \<Rightarrow> Service \<Rightarrow> auth_response \<times> Service" where
  "handleCallback env r now1 rnd1 rnd2 now2 s =
     (if rq_Method r \<noteq> ''GET'' then (method_not_allowed ''GET'', s)
      else if query_get ''error'' r \<noteq> [] then (writeError 401 ''invalid_assertion'', s)
      else
        (let code = query_get ''code'' r; state = query_get ''state'' r in
         if code = [] \<or> state = [] then (writeError 400 ''invalid_callback'', s)
         else if (case request_cookie DefaultLoginCookieName r of None \<Rightarrow> True | Some v \<Rightarrow> v = [] \<or> v \<noteq> state)
           then (writeError 401 ''invalid_callback'', s)
         else
           (case takePending state now1 (sv_store s) of
              (None, st) \<Rightarrow> (with_cookie (clearLoginCookie s) (writeError 401 ''invalid_callback''), s\<lparr>sv_store := st\<rparr>)
            | (Some pending, st) \<Rightarrow>
                (case assertion env s code pending of
                   None \<Rightarrow> (with_cookie (clearLoginCookie s) (writeError 401 ''invalid_assertion''), s\<lparr>sv_store := st\<rparr>)
                 | Some idToken \<Rightarrow>
                     (case Create (it_Subject idToken) (it_Issuer idToken) (it_Subject idToken) [] rnd1 rnd2 now2 st of
                        (Inl _, st') \<Rightarrow> (with_cookie (clearLoginCookie s) (writeError 500 ''login_failed''), s\<lparr>sv_store := st'\<rparr>)
                      | (Inr sess, st') \<Rightarrow>
                          (with_cookie (setSessionCookie s (se_ID sess) (se_ExpiresAt sess))
                             (with_cookie (clearLoginCookie s) (redirect ''/'')), s\<lparr>sv_store := st'\<rparr>))))))"

definition handleLogout :: "request \<Rightarrow> Service \<Rightarrow> auth_response \<times> Service" where
  "handleLogout r s =
     (if rq_Method r \<noteq> ''POST'' then (method_not_allowed ''POST'', s)
      else
        (let s' = (case request_cookie (cfg_CookieName (sv_cfg s)) r of
                     None \<Rightarrow> s
                   | Some v \<Rightarrow> s\<lparr>sv_store := Delete v (sv_store s)\<rparr>)
         in (with_cookie (clearSessionCookie s) (respond 204 NoBody), s')))"

definition handleSession :: "request \<Rightarrow> gotime \<Rightarrow> Service \<Rightarrow> auth_response \<times> Service" where
  "handleSession r now s =
     (if rq_Method r \<noteq> ''GET'' then (method_not_allowed ''GET'', s)
      else
        (case lookup_session (sv_auth s) r now (sv_store s) of
           (Inl _, st) \<Rightarrow> (writeError 401 ''unauthenticated'', s\<lparr>sv_store := st\<rparr>)
         | (Inr sess, st) \<Rightarrow>
             (writeJSON 200 \<lparr>sb_PrincipalID = se_PrincipalID sess, sb_Subject = se_Subject sess, sb_Issuer = se_Issuer sess,
                 sb_AuthenticatedAt = se_AuthenticatedAt sess, sb_ExpiresAt = se_ExpiresAt sess,
                 sb_CorrelationID = se_CorrelationID sess\<rparr>, s\<lparr>sv_store := st\<rparr>)))"

text \<open>One request to the service, with the randomness and the clock readings it will consume. The multiplexer
  serves four exact paths.\<close>

record draws =
  dr_rnd1 :: "string option"
  dr_rnd2 :: "string option"
  dr_verifier :: string
  dr_now1 :: gotime
  dr_now2 :: gotime

definition auth_handler :: "oidc \<Rightarrow> request \<Rightarrow> draws \<Rightarrow> Service \<Rightarrow> auth_response \<times> Service" where
  "auth_handler env r d s =
     (if rq_Path r = ''/auth/login'' then handleLogin env r (dr_rnd1 d) (dr_rnd2 d) (dr_verifier d) (dr_now1 d) s
      else if rq_Path r = ''/auth/callback'' then handleCallback env r (dr_now1 d) (dr_rnd1 d) (dr_rnd2 d) (dr_now2 d) s
      else if rq_Path r = ''/auth/logout'' then handleLogout r s
      else if rq_Path r = ''/auth/session'' then handleSession r (dr_now1 d) s
      else (respond 404 NoBody, s))"

section \<open>Stores\<close>

definition store_ok :: "Store \<Rightarrow> bool" where
  "store_ok st \<longleftrightarrow> distinct (map fst (so_sessions st)) \<and> distinct (map fst (so_pending st)) \<and> 0 < so_ttl st"

lemma map_of_filter_snd:
  "distinct (map fst xs) \<Longrightarrow> map_of (filter (\<lambda>(k, v). P v) xs) k = (case map_of xs k of None \<Rightarrow> None | Some v \<Rightarrow> if P v then Some v else None)"
  by (induction xs) (auto simp: map_of_eq_None_iff image_iff split: option.splits if_splits)

lemma distinct_filter_keys: "distinct (map fst xs) \<Longrightarrow> distinct (map fst (filter P xs))"
  by (induction xs) auto

lemma sweep_pending:
  "store_ok st \<Longrightarrow> map_of (so_pending (sweepPendingLocked now st)) k = Some p \<longleftrightarrow> map_of (so_pending st) k = Some p \<and> now < pa_ExpiresAt p"
  by (cases "map_of (so_pending st) k") (simp_all add: store_ok_def sweepPendingLocked_def map_of_filter_snd del: map_of_eq_Some_iff, auto)

lemma sweep_simps [simp]:
  "so_sessions (sweepPendingLocked now st) = so_sessions st" "so_ttl (sweepPendingLocked now st) = so_ttl st"
  by (simp_all add: sweepPendingLocked_def)

lemma sweep_ok: "store_ok st \<Longrightarrow> store_ok (sweepPendingLocked now st)"
  by (simp add: store_ok_def sweepPendingLocked_def distinct_filter_keys)

lemma NewStore_ok: "store_ok (NewStore ttl)"
  by (simp add: store_ok_def NewStore_def defaultSessionTTL_def)

lemma Create_ok: "store_ok st \<Longrightarrow> store_ok (snd (Create p is su c r1 r2 now st))"
  by (auto simp: store_ok_def Create_def Let_def AList.distinct_update split: sum.splits)

lemma Get_ok: "store_ok st \<Longrightarrow> store_ok (snd (Get i now st))"
  by (auto simp: store_ok_def Get_def AList.distinct_delete split: option.splits)

lemma Delete_ok: "store_ok st \<Longrightarrow> store_ok (Delete i st)"
  by (simp add: store_ok_def Delete_def AList.distinct_delete)

lemma putPending_ok: "store_ok st \<Longrightarrow> store_ok (putPending state v n now st)"
  using sweep_ok [of st now] by (simp add: store_ok_def putPending_def Let_def AList.distinct_update)

lemma takePending_ok: "store_ok st \<Longrightarrow> store_ok (snd (takePending state now st))"
  using sweep_ok [of st now] by (auto simp: store_ok_def takePending_def Let_def AList.distinct_delete split: option.splits)

lemma lookup_session_ok: "store_ok st \<Longrightarrow> store_ok (snd (lookup_session a r now st))"
  using Get_ok [of st] by (auto simp: lookup_session_def split: option.splits prod.splits) (metis snd_conv)+

lemmas store_oks = Create_ok Get_ok Delete_ok putPending_ok takePending_ok lookup_session_ok

subsection \<open>What each operation does to sessions and pending logins\<close>

lemma putPending_sessions [simp]: "so_sessions (putPending state v n now st) = so_sessions st" "so_ttl (putPending state v n now st) = so_ttl st"
  by (simp_all add: putPending_def Let_def)

lemma putPending_lookup:
  assumes "store_ok st" "map_of (so_pending (putPending state v n now st)) k = Some p"
  shows "k = state \<and> p = \<lparr>pa_Verifier = v, pa_Nonce = n, pa_ExpiresAt = now + defaultPendingTTL\<rparr> \<or>
    map_of (so_pending st) k = Some p"
  using assms sweep_pending [OF assms(1), of now k p]
  by (auto simp: putPending_def Let_def update_conv' split: if_splits)

lemma takePending_sessions [simp]: "so_sessions (snd (takePending state now st)) = so_sessions st" "so_ttl (snd (takePending state now st)) = so_ttl st"
  by (auto simp: takePending_def Let_def split: option.splits)

lemma takePending_found:
  assumes "store_ok st" "takePending state now st = (Some p, st')"
  shows "map_of (so_pending st) state = Some p" "now < pa_ExpiresAt p"
  using assms sweep_pending [OF assms(1), of now state p] by (auto simp: takePending_def Let_def split: option.splits)

lemma takePending_lookup:
  assumes "store_ok st" "map_of (so_pending (snd (takePending state now st))) k = Some p"
  shows "map_of (so_pending st) k = Some p"
  using assms sweep_pending [OF assms(1), of now k p]
  by (auto simp: takePending_def Let_def delete_conv' split: option.splits if_splits)

lemma takePending_once: "map_of (so_pending (snd (takePending state now st))) state = None"
  by (auto simp: takePending_def Let_def delete_conv' split: option.splits)

lemma Create_pending [simp]: "so_pending (snd (Create p is su c r1 r2 now st)) = so_pending st" "so_ttl (snd (Create p is su c r1 r2 now st)) = so_ttl st"
  by (auto simp: Create_def Let_def split: sum.splits)

lemma Create_Inr:
  assumes "Create p is su c r1 r2 now st = (Inr sess, st')"
  shows "se_PrincipalID sess = p" "se_Issuer sess = is" "se_Subject sess = su" "se_AuthenticatedAt sess = now"
    "se_ExpiresAt sess = now + so_ttl st" "\<exists>b. r1 = Some b \<and> se_ID sess = hex_encode b"
    "so_sessions st' = AList.update (se_ID sess) sess (so_sessions st)"
  using assms by (auto simp: Create_def Let_def randomID_def split: sum.splits option.splits if_splits)

lemma Create_Inl: "Create p is su c r1 r2 now st = (Inl e, st') \<Longrightarrow> st' = st"
  by (auto simp: Create_def Let_def split: sum.splits)

lemma Delete_simps [simp]: "so_pending (Delete i st) = so_pending st" "so_ttl (Delete i st) = so_ttl st"
  by (simp_all add: Delete_def)

lemma Delete_lookup: "map_of (so_sessions (Delete i st)) k = Some se \<Longrightarrow> map_of (so_sessions st) k = Some se \<and> (i = [] \<or> k \<noteq> i)"
  by (auto simp: Delete_def delete_conv' split: if_splits)

lemma lookup_session_pending [simp]:
  "so_pending (snd (lookup_session a r now st)) = so_pending st" "so_ttl (snd (lookup_session a r now st)) = so_ttl st"
  by (auto simp: lookup_session_def Get_def split: option.splits prod.splits if_splits)

lemma lookup_session_kept:
  "map_of (so_sessions (snd (lookup_session a r now st))) k = Some se \<Longrightarrow> map_of (so_sessions st) k = Some se"
  by (auto simp: lookup_session_def Get_def delete_conv' split: option.splits prod.splits if_splits)

lemma Get_Some: "Get i now st = (Some se, st') \<longleftrightarrow> i \<noteq> [] \<and> map_of (so_sessions st) i = Some se \<and> Fresh (Some se) now \<and> st' = st"
  by (cases "map_of (so_sessions st) i") (auto simp: Get_def simp del: map_of_eq_Some_iff)

lemma lookup_session_Inr:
  assumes "lookup_session a r now st = (Inr sess, st')"
  obtains au i where "a = Some au" "request_cookie (au_cookieName au) r = Some i" "i \<noteq> []" "map_of (so_sessions st) i = Some sess"
    "Fresh (Some sess) now" "st' = st"
proof (cases a)
  case (Some au)
  with assms show ?thesis
    by (cases "request_cookie (au_cookieName au) r")
      (auto simp: lookup_session_def Get_Some split: if_splits prod.splits option.splits simp del: map_of_eq_Some_iff intro: that [OF Some])
qed (use assms in \<open>simp add: lookup_session_def\<close>)

section \<open>Runs of the service\<close>

definition run_auth :: "oidc \<Rightarrow> (request \<times> draws) list \<Rightarrow> Service \<Rightarrow> Service" where
  "run_auth env ops s = foldl (\<lambda>s (r, d). snd (auth_handler env r d s)) s ops"

lemma run_auth_Nil [simp]: "run_auth env [] s = s" and run_auth_snoc [simp]: "run_auth env (ops @ [(r, d)]) s = snd (auth_handler env r d (run_auth env ops s))"
  by (simp_all add: run_auth_def)

text \<open>A login request hands out a state; a callback turns it into a session; a logout names a session.\<close>

definition issued_by :: "request \<Rightarrow> draws \<Rightarrow> string \<Rightarrow> pendingAuth \<Rightarrow> bool" where
  "issued_by r d state p \<longleftrightarrow> rq_Path r = ''/auth/login'' \<and> rq_Method r = ''GET'' \<and> randomID (dr_rnd1 d) = Inr state \<and>
     randomID (dr_rnd2 d) = Inr (pa_Nonce p) \<and> pa_Verifier p = dr_verifier d \<and> pa_ExpiresAt p = dr_now1 d + defaultPendingTTL"

definition established_by :: "oidc \<Rightarrow> Service \<Rightarrow> request \<Rightarrow> draws \<Rightarrow> pendingAuth \<Rightarrow> string \<Rightarrow> Session \<Rightarrow> bool" where
  "established_by env s r d p i sess \<longleftrightarrow>
     rq_Path r = ''/auth/callback'' \<and> rq_Method r = ''GET'' \<and>
     request_cookie DefaultLoginCookieName r = Some (query_get ''state'' r) \<and> dr_now1 d < pa_ExpiresAt p \<and>
     (\<exists>tok. assertion env s (query_get ''code'' r) p = Some tok \<and> se_PrincipalID sess = it_Subject tok \<and>
        se_Subject sess = it_Subject tok \<and> se_Issuer sess = it_Issuer tok) \<and>
     randomID (dr_rnd1 d) = Inr i \<and> se_ID sess = i \<and> se_AuthenticatedAt sess = dr_now2 d \<and>
     se_ExpiresAt sess = dr_now2 d + so_ttl (sv_store s)"

definition logs_out :: "Service \<Rightarrow> request \<Rightarrow> string \<Rightarrow> bool" where
  "logs_out s r i \<longleftrightarrow> rq_Path r = ''/auth/logout'' \<and> rq_Method r = ''POST'' \<and> request_cookie (cfg_CookieName (sv_cfg s)) r = Some i"

text \<open>The parts of the service that no request changes.\<close>

definition same_settings :: "Service \<Rightarrow> Service \<Rightarrow> bool" where
  "same_settings s s' \<longleftrightarrow> sv_cfg s' = sv_cfg s \<and> sv_auth s' = sv_auth s \<and> sv_oauth2 s' = sv_oauth2 s \<and> so_ttl (sv_store s') = so_ttl (sv_store s)"

lemma assertion_settings:
  assumes "same_settings s s'" shows "assertion env s' = assertion env s"
  using assms by (intro ext) (auto simp: assertion_def same_settings_def cong: option.case_cong if_cong)

lemma established_settings:
  assumes "same_settings s s'" shows "established_by env s' = established_by env s"
  using assms assertion_settings [OF assms, of env] by (intro ext) (simp add: established_by_def same_settings_def)

lemma logs_out_settings:
  assumes "same_settings s s'" shows "logs_out s' = logs_out s"
  using assms by (intro ext) (simp add: logs_out_def same_settings_def)

subsection \<open>One request\<close>

lemma login_step:
  assumes "handleLogin env r r1 r2 v now s = (resp, s')" "store_ok (sv_store s)"
  shows "same_settings s s'" "store_ok (sv_store s')" "so_sessions (sv_store s') = so_sessions (sv_store s)"
    "map_of (so_pending (sv_store s')) k = Some p \<Longrightarrow> map_of (so_pending (sv_store s)) k = Some p \<or>
       rq_Method r = ''GET'' \<and> randomID r1 = Inr k \<and> randomID r2 = Inr (pa_Nonce p) \<and> pa_Verifier p = v \<and> pa_ExpiresAt p = now + defaultPendingTTL"
proof -
  consider "s' = s" | state nonce where "rq_Method r = ''GET''" "randomID r1 = Inr state" "randomID r2 = Inr nonce"
      "s' = s\<lparr>sv_store := putPending state v nonce now (sv_store s)\<rparr>"
    using assms(1) by (auto simp: handleLogin_def Let_def split: if_splits sum.splits)
  note cs = this
  show "same_settings s s'" by (cases rule: cs) (simp_all add: same_settings_def)
  show "store_ok (sv_store s')" by (cases rule: cs) (simp_all add: assms(2) putPending_ok)
  show "so_sessions (sv_store s') = so_sessions (sv_store s)" by (cases rule: cs) simp_all
  show "map_of (so_pending (sv_store s)) k = Some p \<or>
       rq_Method r = ''GET'' \<and> randomID r1 = Inr k \<and> randomID r2 = Inr (pa_Nonce p) \<and> pa_Verifier p = v \<and> pa_ExpiresAt p = now + defaultPendingTTL"
    if "map_of (so_pending (sv_store s')) k = Some p"
    using cs
  proof cases
    case (2 state nonce)
    with that putPending_lookup [OF assms(2), of state v nonce now k p] show ?thesis by auto
  qed (use that in simp)
qed

lemma callback_step:
  assumes "handleCallback env r n1 r1 r2 n2 s = (resp, s')" "store_ok (sv_store s)" "rq_Path r = ''/auth/callback''"
    and d: "dr_now1 d = n1" "dr_rnd1 d = r1" "dr_now2 d = n2"
  shows "same_settings s s'" "store_ok (sv_store s')"
    "map_of (so_pending (sv_store s')) k = Some p \<Longrightarrow> map_of (so_pending (sv_store s)) k = Some p"
    "map_of (so_sessions (sv_store s')) i = Some se \<Longrightarrow> map_of (so_sessions (sv_store s)) i = Some se \<or>
       (\<exists>q. map_of (so_pending (sv_store s)) (query_get ''state'' r) = Some q \<and> established_by env s r d q i se)"
proof -
  let ?code = "query_get ''code'' r" and ?state = "query_get ''state'' r"
  let ?st = "snd (takePending ?state n1 (sv_store s))"
  consider "s' = s" | "s' = s\<lparr>sv_store := ?st\<rparr>"
    | q tok sess st' where "rq_Method r = ''GET''" "request_cookie DefaultLoginCookieName r = Some ?state"
        "takePending ?state n1 (sv_store s) = (Some q, ?st)" "assertion env s ?code q = Some tok"
        "Create (it_Subject tok) (it_Issuer tok) (it_Subject tok) [] r1 r2 n2 ?st = (Inr sess, st')" "s' = s\<lparr>sv_store := st'\<rparr>"
  proof (cases "takePending ?state n1 (sv_store s)")
    case (Pair q st)
    then have st: "?st = st" by simp
    note d = assms(1) [unfolded handleCallback_def Let_def Pair prod.case]
    show ?thesis
    proof (cases "rq_Method r = ''GET'' \<and> request_cookie DefaultLoginCookieName r = Some ?state \<and> s' \<noteq> s \<and> s' \<noteq> s\<lparr>sv_store := st\<rparr>")
      case True
      with d obtain p tok where p: "q = Some p" "assertion env s ?code p = Some tok"
        by (auto split: if_splits option.splits)
      obtain x st' where c: "Create (it_Subject tok) (it_Issuer tok) (it_Subject tok) [] r1 r2 n2 st = (x, st')" by fastforce
      with True d p obtain sess where "x = Inr sess" "s' = s\<lparr>sv_store := st'\<rparr>"
        by (cases x) (auto split: if_splits dest: Create_Inl)
      with True p c show ?thesis using that(3) [of p tok sess st'] Pair st by simp
    next
      case False
      with d have "s' = s \<or> s' = s\<lparr>sv_store := st\<rparr>" by (auto split: if_splits option.splits)
      with st that(1,2) show ?thesis by blast
    qed
  qed
  note cs = this
  have ok: "store_ok ?st" by (rule takePending_ok [OF assms(2)])
  have ttl: "so_ttl ?st = so_ttl (sv_store s)" by simp
  show "same_settings s s'"
    using cs by cases (auto simp: same_settings_def dest!: arg_cong [where f = "\<lambda>x. so_ttl (snd x)"])
  show "store_ok (sv_store s')"
    using cs by cases (auto simp: assms(2) ok dest!: arg_cong [where f = snd] intro: Create_ok [OF ok])
  show "map_of (so_pending (sv_store s)) k = Some p" if "map_of (so_pending (sv_store s')) k = Some p"
    using cs
  proof cases
    case (3 q tok sess st')
    have "so_pending st' = so_pending ?st" using 3(5) Create_pending(1) by (metis snd_conv)
    with that 3(6) takePending_lookup [OF assms(2)] show ?thesis by simp
  qed (use that takePending_lookup [OF assms(2)] in auto)
  show "map_of (so_sessions (sv_store s)) i = Some se \<or> (\<exists>q. map_of (so_pending (sv_store s)) ?state = Some q \<and> established_by env s r d q i se)"
    if "map_of (so_sessions (sv_store s')) i = Some se"
    using cs
  proof cases
    case (3 q tok sess st')
    note c = Create_Inr [OF 3(5)]
    show ?thesis
    proof (cases "i = se_ID sess")
      case True
      with that 3(6) c(7) have "se = sess" by (simp add: update_conv')
      with True c 3 takePending_found [OF assms(2) 3(3)] assms(3) d have "established_by env s r d q i se"
        by (auto simp: established_by_def randomID_def)
      with takePending_found(1) [OF assms(2) 3(3)] show ?thesis by blast
    next
      case False
      with that 3(6) c(7) show ?thesis by (simp add: update_conv')
    qed
  qed (use that in auto)
qed

lemma logout_step:
  assumes "handleLogout r s = (resp, s')" "store_ok (sv_store s)" "rq_Path r = ''/auth/logout''"
  shows "same_settings s s'" "store_ok (sv_store s')" "so_pending (sv_store s') = so_pending (sv_store s)"
    "map_of (so_sessions (sv_store s')) i = Some se \<Longrightarrow> i \<noteq> [] \<Longrightarrow> map_of (so_sessions (sv_store s)) i = Some se \<and> \<not> logs_out s r i"
proof -
  consider (none) "s' = s" "\<not> logs_out s r i" | (del) v where "s' = s\<lparr>sv_store := Delete v (sv_store s)\<rparr>" "logs_out s r i \<Longrightarrow> i = v"
    using assms(1) by (auto simp: handleLogout_def Let_def logs_out_def split: if_splits option.splits)
  note cs = this
  show "same_settings s s'" using cs by cases (simp_all add: same_settings_def)
  show "store_ok (sv_store s')" using cs by cases (simp_all add: assms(2) Delete_ok)
  show "so_pending (sv_store s') = so_pending (sv_store s)" using cs by cases simp_all
  show "map_of (so_sessions (sv_store s)) i = Some se \<and> \<not> logs_out s r i"
    if "map_of (so_sessions (sv_store s')) i = Some se" "i \<noteq> []"
    using cs
  proof cases
    case (del v)
    show ?thesis using Delete_lookup [of v "sv_store s" i se] that del by auto
  qed (use that in simp)
qed

lemma session_step:
  assumes "handleSession r now s = (resp, s')" "store_ok (sv_store s)"
  shows "same_settings s s'" "store_ok (sv_store s')" "so_pending (sv_store s') = so_pending (sv_store s)"
    "map_of (so_sessions (sv_store s')) i = Some se \<Longrightarrow> map_of (so_sessions (sv_store s)) i = Some se"
proof -
  have "s' = s \<or> s' = s\<lparr>sv_store := snd (lookup_session (sv_auth s) r now (sv_store s))\<rparr>"
    using assms(1) by (auto simp: handleSession_def split: if_splits prod.splits sum.splits)
  then show "same_settings s s'" "store_ok (sv_store s')" "so_pending (sv_store s') = so_pending (sv_store s)"
    "map_of (so_sessions (sv_store s')) i = Some se \<Longrightarrow> map_of (so_sessions (sv_store s)) i = Some se"
    using assms(2) lookup_session_ok [of "sv_store s"] lookup_session_kept [of "sv_auth s" r now "sv_store s" i se]
    by (auto simp: same_settings_def simp del: map_of_eq_Some_iff)
qed

lemma auth_step:
  assumes "auth_handler env r d s = (resp, s')" "store_ok (sv_store s)"
  shows "same_settings s s'" "store_ok (sv_store s')"
    "map_of (so_pending (sv_store s')) k = Some p \<Longrightarrow> map_of (so_pending (sv_store s)) k = Some p \<or> issued_by r d k p"
    "map_of (so_sessions (sv_store s')) i = Some se \<Longrightarrow> i \<noteq> [] \<Longrightarrow>
       map_of (so_sessions (sv_store s)) i = Some se \<and> \<not> logs_out s r i \<or>
       (\<exists>q. map_of (so_pending (sv_store s)) (query_get ''state'' r) = Some q \<and> established_by env s r d q i se)"
proof -
  consider (login) "rq_Path r = ''/auth/login''" "handleLogin env r (dr_rnd1 d) (dr_rnd2 d) (dr_verifier d) (dr_now1 d) s = (resp, s')"
    | (callback) "rq_Path r = ''/auth/callback''" "handleCallback env r (dr_now1 d) (dr_rnd1 d) (dr_rnd2 d) (dr_now2 d) s = (resp, s')"
    | (logout) "rq_Path r = ''/auth/logout''" "handleLogout r s = (resp, s')"
    | (sess) "rq_Path r \<noteq> ''/auth/logout''" "handleSession r (dr_now1 d) s = (resp, s')"
    | (other) "rq_Path r \<noteq> ''/auth/logout''" "s' = s"
    using assms(1) by (auto simp: auth_handler_def split: if_splits)
  note cs = this
  show "same_settings s s'"
    using cs
    by cases (erule login_step(1) [OF _ assms(2)], erule callback_step(1) [OF _ assms(2) _ refl refl refl], assumption,
      erule logout_step(1) [OF _ assms(2)], assumption, erule session_step(1) [OF _ assms(2)], simp add: same_settings_def)
  show "store_ok (sv_store s')"
    using cs
    by cases (erule login_step(2) [OF _ assms(2)], erule callback_step(2) [OF _ assms(2) _ refl refl refl], assumption,
      erule logout_step(2) [OF _ assms(2)], assumption, erule session_step(2) [OF _ assms(2)], simp add: assms(2))
  show "map_of (so_pending (sv_store s)) k = Some p \<or> issued_by r d k p" if "map_of (so_pending (sv_store s')) k = Some p"
    using cs
  proof cases
    case login
    with login_step(4) [OF login(2) assms(2) that] show ?thesis by (auto simp: issued_by_def)
  next
    case callback
    show ?thesis using callback_step(3) [OF callback(2) assms(2) callback(1) refl refl refl that] by blast
  next
    case logout
    show ?thesis using logout_step(3) [OF logout(2) assms(2) logout(1)] that by simp
  next
    case sess
    show ?thesis using session_step(3) [OF sess(2) assms(2)] that by simp
  qed (use that in simp)
  show "map_of (so_sessions (sv_store s)) i = Some se \<and> \<not> logs_out s r i \<or>
       (\<exists>q. map_of (so_pending (sv_store s)) (query_get ''state'' r) = Some q \<and> established_by env s r d q i se)"
    if "map_of (so_sessions (sv_store s')) i = Some se" "i \<noteq> []"
    using cs
  proof cases
    case login
    have "map_of (so_sessions (sv_store s)) i = Some se" using login_step(3) [OF login(2) assms(2)] that(1) by simp
    with login(1) show ?thesis unfolding logs_out_def by simp
  next
    case callback
    with callback_step(4) [OF callback(2) assms(2) callback(1) refl refl refl that(1)] show ?thesis unfolding logs_out_def by auto
  next
    case logout
    show ?thesis using logout_step(4) [OF logout(2) assms(2) logout(1) that] by blast
  next
    case sess
    have "map_of (so_sessions (sv_store s)) i = Some se" by (rule session_step(4) [OF sess(2) assms(2) that(1)])
    with sess(1) show ?thesis unfolding logs_out_def by simp
  next
    case other
    with that(1) show ?thesis unfolding logs_out_def by simp
  qed
qed

subsection \<open>Whole runs\<close>

lemma run_auth_ok:
  assumes "store_ok (sv_store s)"
  shows "same_settings s (run_auth env ops s) \<and> store_ok (sv_store (run_auth env ops s))"
proof (induction ops rule: rev_induct)
  case (snoc x ops)
  obtain r d where x: "x = (r, d)" by fastforce
  obtain resp s' where h: "auth_handler env r d (run_auth env ops s) = (resp, s')" by fastforce
  with auth_step(1,2) [OF h] snoc show ?case by (auto simp: x same_settings_def)
qed (simp add: assms same_settings_def)

lemma pending_issued:
  assumes "store_ok (sv_store s)" "so_pending (sv_store s) = []" "map_of (so_pending (sv_store (run_auth env ops s))) k = Some p"
  shows "\<exists>r d. (r, d) \<in> set ops \<and> issued_by r d k p"
  using assms(3)
proof (induction ops rule: rev_induct)
  case (snoc x ops)
  obtain r d where x: "x = (r, d)" by fastforce
  obtain resp s' where h: "auth_handler env r d (run_auth env ops s) = (resp, s')" by fastforce
  from auth_step(3) [OF h, of k p] run_auth_ok [OF assms(1)] snoc show ?case by (auto simp: x h simp del: map_of_eq_Some_iff)
qed (simp add: assms(2))

lemma session_established:
  assumes "store_ok (sv_store s)" "so_sessions (sv_store s) = []" "map_of (so_sessions (sv_store (run_auth env ops s))) i = Some se" "i \<noteq> []"
  shows "\<exists>pre r d post q. ops = pre @ (r, d) # post \<and> map_of (so_pending (sv_store (run_auth env pre s))) (query_get ''state'' r) = Some q \<and>
    established_by env s r d q i se \<and> (\<forall>(r, d) \<in> set post. \<not> logs_out s r i)"
  using assms(3)
proof (induction ops rule: rev_induct)
  case (snoc x ops)
  obtain r d where x: "x = (r, d)" by fastforce
  let ?s = "run_auth env ops s"
  obtain resp s' where h: "auth_handler env r d ?s = (resp, s')" by fastforce
  note inv = run_auth_ok [OF assms(1), of env ops]
  have "map_of (so_sessions (sv_store s')) i = Some se" using snoc.prems by (simp add: x h)
  from auth_step(4) [OF h _ this assms(4)] inv
  consider (kept) "map_of (so_sessions (sv_store ?s)) i = Some se" "\<not> logs_out s r i"
    | (fresh) q where "map_of (so_pending (sv_store ?s)) (query_get ''state'' r) = Some q" "established_by env s r d q i se"
    using logs_out_settings [of s ?s] established_settings [of s ?s env] by auto
  then show ?case
  proof cases
    case kept
    from snoc.IH [OF kept(1)] obtain pre r0 d0 post q where o: "ops = pre @ (r0, d0) # post"
      "map_of (so_pending (sv_store (run_auth env pre s))) (query_get ''state'' r0) = Some q" "established_by env s r0 d0 q i se"
      "\<forall>(r, d) \<in> set post. \<not> logs_out s r i" by (elim exE conjE) (rule that)
    with kept(2) show ?thesis
      by (intro exI [of _ pre] exI [of _ r0] exI [of _ d0] exI [of _ "post @ [x]"] exI [of _ q]) (auto simp: x simp del: map_of_eq_Some_iff)
  next
    case fresh
    then show ?thesis by (intro exI [of _ ops] exI [of _ r] exI [of _ d] exI [of _ "[]"] exI [of _ q]) (simp add: x)
  qed
qed (simp add: assms(2))

section \<open>The decision log\<close>

record DecisionRecord =
  de_DecisionID :: string
  de_PrincipalID :: string
  de_TenantID :: string
  de_Resource :: string
  de_Action :: string
  de_Outcome :: string
  de_Reason :: string
  de_TargetID :: string
  de_RecordedAt :: gotime

text \<open>A row of \<^verbatim>\<open>identity.authorization_decisions\<close>; its time is in microseconds.\<close>

record decision_row =
  dc_id :: string
  dc_principal :: string
  dc_tenant :: string
  dc_resource :: string
  dc_action :: string
  dc_outcome :: string
  dc_reason :: string
  dc_target :: "string option"
  dc_recorded :: int

type_synonym audit = "decision_row list world"

definition decisionAllow :: string where "decisionAllow = ''allow''"
definition decisionDeny :: string where "decisionDeny = ''deny''"

definition zero_time :: gotime where "zero_time = unix_nanos 1 1 1 0 0 0 0 0"

definition decision_check :: "DecisionRecord \<Rightarrow> identity_error option" where
  "decision_check rec =
     (if de_PrincipalID rec = [] \<or> de_TenantID rec = [] \<or> de_Resource rec = [] \<or> de_Action rec = [] then Some ErrInvalidDecision
      else if de_Outcome rec \<noteq> decisionAllow \<and> de_Outcome rec \<noteq> decisionDeny then Some ErrInvalidDecision
      else if de_Reason rec = [] then Some ErrInvalidDecision
      else None)"

definition decision_texts :: "DecisionRecord \<Rightarrow> string list" where
  "decision_texts rec = [de_DecisionID rec, de_PrincipalID rec, de_TenantID rec, de_Resource rec, de_Action rec,
     de_Outcome rec, de_Reason rec, de_TargetID rec]"

definition row_of_decision :: "DecisionRecord \<Rightarrow> decision_row" where
  "row_of_decision rec =
     \<lparr>dc_id = de_DecisionID rec, dc_principal = de_PrincipalID rec, dc_tenant = de_TenantID rec, dc_resource = de_Resource rec,
      dc_action = de_Action rec, dc_outcome = de_Outcome rec, dc_reason = de_Reason rec,
      dc_target = (if de_TargetID rec = [] then None else Some (de_TargetID rec)), dc_recorded = pg_time (de_RecordedAt rec)\<rparr>"

text \<open>The primary key is the only constraint that the values can violate.\<close>

definition insert_decision :: "decision_row \<Rightarrow> decision_row list \<Rightarrow> identity_error + (unit \<times> decision_row list)" where
  "insert_decision row rows =
     (if \<exists>x \<in> set rows. dc_id x = dc_id row then Inl IdentityDB else Inr ((), rows @ [row]))"

text \<open>The record with its identifier and its time filled in.\<close>

definition fill_decision :: "DecisionRecord \<Rightarrow> string option \<Rightarrow> gotime \<Rightarrow> identity_error + DecisionRecord" where
  "fill_decision rec rnd now =
     (case (if de_DecisionID rec = [] then randomID rnd else Inr (de_DecisionID rec)) of
        Inl e \<Rightarrow> Inl e
      | Inr i \<Rightarrow> Inr (rec\<lparr>de_DecisionID := i, de_RecordedAt := (if de_RecordedAt rec = zero_time then now else de_RecordedAt rec)\<rparr>))"

definition AppendDecision :: "DecisionRecord \<Rightarrow> string option \<Rightarrow> gotime \<Rightarrow> audit \<Rightarrow> (identity_error + DecisionRecord) \<times> audit" where
  "AppendDecision rec0 rnd now w =
     (case decision_check rec0 of
        Some e \<Rightarrow> (Inl e, w)
      | None \<Rightarrow>
          (case fill_decision rec0 rnd now of
             Inl e \<Rightarrow> (Inl e, w)
           | Inr rec \<Rightarrow>
               (case exec_auto IdentityDB (decision_texts rec) (\<lambda>_. insert_decision (row_of_decision rec)) w of
                  (Inl e, w') \<Rightarrow> (Inl e, w')
                | (Inr _, w') \<Rightarrow> (Inr rec, w'))))"

definition decision_of_row :: "decision_row \<Rightarrow> DecisionRecord" where
  "decision_of_row row =
     \<lparr>de_DecisionID = dc_id row, de_PrincipalID = dc_principal row, de_TenantID = dc_tenant row, de_Resource = dc_resource row,
      de_Action = dc_action row, de_Outcome = dc_outcome row, de_Reason = dc_reason row,
      de_TargetID = (case dc_target row of None \<Rightarrow> [] | Some x \<Rightarrow> x), de_RecordedAt = dc_recorded row * 1000\<rparr>"

text \<open>The order of the query; \<open>coll\<close> is the collation of the database.\<close>

definition decision_before :: "(string \<Rightarrow> string \<Rightarrow> bool) \<Rightarrow> decision_row \<Rightarrow> decision_row \<Rightarrow> bool" where
  "decision_before coll a b \<longleftrightarrow> dc_recorded a < dc_recorded b \<or> dc_recorded a = dc_recorded b \<and> coll (dc_id a) (dc_id b)"

definition ListDecisionsForTenant ::
  "(string \<Rightarrow> string \<Rightarrow> bool) \<Rightarrow> string \<Rightarrow> audit \<Rightarrow> (identity_error + DecisionRecord list) \<times> audit" where
  "ListDecisionsForTenant coll tenantID w =
     (if tenantID = [] then (Inl ErrInvalidDecision, w)
      else query_auto IdentityDB [tenantID]
             (\<lambda>_ rows. map decision_of_row (isort (decision_before coll) (filter (\<lambda>r. dc_tenant r = tenantID) rows))) w)"

lemma decision_roundtrip: "decision_of_row (row_of_decision rec) = rec\<lparr>de_RecordedAt := pg_time (de_RecordedAt rec) * 1000\<rparr>"
  by (simp add: decision_of_row_def row_of_decision_def)

lemma insert_decision_effect:
  assumes "exec_auto IdentityDB ps (\<lambda>_. insert_decision row) w = (x, w')"
  shows "durable w' = durable w \<and> (\<exists>e. x = Inl e) \<or> durable w' = durable w @ [row] \<and> (\<forall>y \<in> set (durable w). dc_id y \<noteq> dc_id row)"
  using assms unfolding exec_auto_def
  by (rule transact_cases) (auto simp: sql_simps insert_decision_def split: if_splits)

lemma append_Inr:
  assumes "AppendDecision rec rnd now w = (Inr out, w')"
  shows "decision_check rec = None" "fill_decision rec rnd now = Inr out" "durable w' = durable w @ [row_of_decision out]"
    "\<forall>x \<in> set (durable w). dc_id x \<noteq> de_DecisionID out"
proof -
  from assms show "decision_check rec = None" by (auto simp: AppendDecision_def split: option.splits)
  with assms obtain rec' where f: "fill_decision rec rnd now = Inr rec'" by (auto simp: AppendDecision_def split: sum.splits)
  obtain x w1 where e: "exec_auto IdentityDB (decision_texts rec') (\<lambda>_. insert_decision (row_of_decision rec')) w = (x, w1)" by fastforce
  with assms \<open>decision_check rec = None\<close> f have x: "x = Inr ()" "w1 = w'" "rec' = out"
    by (auto simp: AppendDecision_def split: sum.splits)
  then show "fill_decision rec rnd now = Inr out" using f by simp
  show "durable w' = durable w @ [row_of_decision out]" "\<forall>x \<in> set (durable w). dc_id x \<noteq> de_DecisionID out"
    using insert_decision_effect [OF e] x by (auto simp: row_of_decision_def)
qed

lemma append_grows:
  assumes "AppendDecision rec rnd now w = (r, w')"
  shows "durable w' = durable w \<or> (\<exists>out. fill_decision rec rnd now = Inr out \<and> durable w' = durable w @ [row_of_decision out])"
proof (cases "decision_check rec")
  case None
  show ?thesis
  proof (cases "fill_decision rec rnd now")
    case (Inr out)
    obtain x w1 where e: "exec_auto IdentityDB (decision_texts out) (\<lambda>_. insert_decision (row_of_decision out)) w = (x, w1)" by fastforce
    with assms None Inr have "w1 = w'" by (auto simp: AppendDecision_def split: sum.splits)
    with insert_decision_effect [OF e] Inr show ?thesis by auto
  qed (use assms None in \<open>simp add: AppendDecision_def\<close>)
qed (use assms in \<open>simp add: AppendDecision_def\<close>)

lemma fill_decision_keeps:
  "fill_decision rec rnd now = Inr out \<Longrightarrow> out = rec\<lparr>de_DecisionID := de_DecisionID out, de_RecordedAt := de_RecordedAt out\<rparr>"
  by (auto simp: fill_decision_def split: sum.splits)

lemma list_calm:
  assumes "calm w" "t \<noteq> []" "pg_text_ok t"
  shows "\<exists>w'. ListDecisionsForTenant coll t w =
    (Inr (map decision_of_row (isort (decision_before coll) (filter (\<lambda>r. dc_tenant r = t) (durable w)))), w') \<and> durable w' = durable w"
  using transact_calm [OF assms(1), of "\<lambda>now. tx_query IdentityDB [t]
      (\<lambda>rows. map decision_of_row (isort (decision_before coll) (filter (\<lambda>r. dc_tenant r = t) rows)))" _ _ IdentityDB IdentityDB] assms(2,3)
  by (auto simp: ListDecisionsForTenant_def query_auto_def tx_query_def tx_stmt_def pop_def)

section \<open>Assignments and the policy\<close>

lemma rows_addLocked:
  "rows_of (addLocked a d) p = rows_of d p @ (if as_PrincipalID a = p \<and> p \<noteq> [] then [a] else [])"
  by (auto simp: addLocked_def rows_of_def update_conv' split: option.splits)

lemma rows_fold: "rows_of (fold addLocked as d) p = rows_of d p @ (if p = [] then [] else filter (\<lambda>a. as_PrincipalID a = p) as)"
  by (induction as arbitrary: d) (auto simp: rows_addLocked)

lemma rows_NewDirectory: "rows_of (NewDirectory as) p = (if p = [] then [] else filter (\<lambda>a. as_PrincipalID a = p) as)"
  by (simp add: NewDirectory_def rows_fold) (simp add: rows_of_def)

lemma rows_Clear: "rows_of (the (Clear q (Some d))) p = (if q \<noteq> [] \<and> p = q then [] else rows_of d p)"
  by (auto simp: Clear_def rows_of_def delete_conv')

lemma matrixAllows_iff:
  "matrixAllows s role r a \<longleftrightarrow>
   (\<exists>row \<in> set frozenAllowList. al_TenantID row = s \<and> al_RoleID row = role \<and> al_Resource row = r \<and> al_Action row = a)"
proof -
  have "\<forall>row \<in> set frozenAllowList. al_TenantID row \<noteq> [] \<and> al_RoleID row \<noteq> [] \<and> al_Resource row \<noteq> [] \<and> al_Action row \<noteq> []"
    by (simp add: frozenAllowList_def matrix_defs)
  then show ?thesis unfolding matrixAllows_def list_ex_iff by (metis (no_types, lifting))
qed

lemma scope_roles_Some:
  "scope_roles p s rows acc = Some roles \<longleftrightarrow>
   (\<forall>as \<in> set rows. as_PrincipalID as = p \<and> as_TenantID as \<noteq> [] \<and> (as_TenantID as = s \<longrightarrow> as_RoleID as \<noteq> [])) \<and>
   roles = acc @ map as_RoleID (filter (\<lambda>as. as_TenantID as = s) rows)"
  by (induction rows arbitrary: acc) auto

lemma Allow_None_iff:
  "Allow (Some \<lparr>po_dir = Some d\<rparr>) p s r a = None \<longleftrightarrow>
   p \<noteq> [] \<and> (\<forall>as \<in> set (rows_of d p). as_PrincipalID as = p \<and> as_TenantID as \<noteq> [] \<and> (as_TenantID as = s \<longrightarrow> as_RoleID as \<noteq> [])) \<and>
   (\<exists>as \<in> set (rows_of d p). as_TenantID as = s \<and> matrixAllows s (as_RoleID as) r a)"
proof (cases "scope_roles p s (rows_of d p) []")
  case None
  have "\<not> (\<forall>as \<in> set (rows_of d p). as_PrincipalID as = p \<and> as_TenantID as \<noteq> [] \<and> (as_TenantID as = s \<longrightarrow> as_RoleID as \<noteq> []))"
    using None scope_roles_Some [of p s "rows_of d p" "[]"] by force
  with None show ?thesis by (auto simp: Allow_def Assignments_def Let_def)
next
  case (Some roles)
  note ok = Some [unfolded scope_roles_Some]
  have ne: "matrixAllows s x r a \<Longrightarrow> s \<noteq> [] \<and> r \<noteq> [] \<and> a \<noteq> []" for x by (auto simp: matrixAllows_def split: if_splits)
  show ?thesis
    using ok Some ne by (auto simp: Allow_def Assignments_def Let_def list_ex_iff filter_empty_conv)
qed

lemma assigned_matrix:
  "(\<exists>x \<in> set as. as_PrincipalID x = p \<and> as_TenantID x = s \<and> matrixAllows s (as_RoleID x) r a) \<longleftrightarrow>
   (\<exists>row \<in> set frozenAllowList. al_TenantID row = s \<and> al_Resource row = r \<and> al_Action row = a \<and>
      \<lparr>as_PrincipalID = p, as_TenantID = s, as_RoleID = al_RoleID row\<rparr> \<in> set as)" (is "?l = ?r")
proof
  assume ?l
  then obtain x row where x: "x \<in> set as" "as_PrincipalID x = p" "as_TenantID x = s" "row \<in> set frozenAllowList" "al_TenantID row = s"
    "al_RoleID row = as_RoleID x" "al_Resource row = r" "al_Action row = a" unfolding matrixAllows_iff by blast
  then have "\<lparr>as_PrincipalID = p, as_TenantID = s, as_RoleID = al_RoleID row\<rparr> = x" by simp
  with x(1) have "\<lparr>as_PrincipalID = p, as_TenantID = s, as_RoleID = al_RoleID row\<rparr> \<in> set as" by (simp only:)
  with x(4-8) show ?r by (intro bexI [of _ row] conjI)
next
  assume ?r
  then obtain row where "row \<in> set frozenAllowList" "al_TenantID row = s" "al_Resource row = r" "al_Action row = a"
    "\<lparr>as_PrincipalID = p, as_TenantID = s, as_RoleID = al_RoleID row\<rparr> \<in> set as" by (elim bexE conjE)
  then show ?l unfolding matrixAllows_iff by (intro bexI [of _ "\<lparr>as_PrincipalID = p, as_TenantID = s, as_RoleID = al_RoleID row\<rparr>"]) auto
qed

lemma Allow_cases: "Allow pol p s r a = None \<or> Allow pol p s r a = Some ErrForbidden"
  by (auto simp: Allow_def Let_def split: option.splits)

lemma Allow_matrix: "Allow pol p s r a = None \<Longrightarrow> \<exists>role. matrixAllows s role r a"
  by (auto simp: Allow_def Let_def list_ex_iff split: option.splits if_splits)

text \<open>What the API may rely on: an authorizer that grants only what the matrix has a row for.\<close>

locale authorizer =
  fixes allow :: "string \<Rightarrow> string \<Rightarrow> string \<Rightarrow> string \<Rightarrow> identity_error option"
  assumes granted: "allow p s r a = None \<Longrightarrow> \<exists>role. matrixAllows s role r a"
    and refused: "allow p s r a \<noteq> None \<Longrightarrow> allow p s r a = Some ErrForbidden"
begin

lemma product_tenant: "allow p s r a = None \<Longrightarrow> r \<noteq> ResReleaseMetrics \<Longrightarrow> s = TenantNS001UUID"
  using granted [of p s r a] by (auto simp: matrixAllows_iff frozenAllowList_def)

lemma runtime_scope: "allow p ScopeRuntime r a = None \<Longrightarrow> r = ResReleaseMetrics \<and> a = ActRead"
  using granted [of p ScopeRuntime r a] by (auto simp: matrixAllows_iff frozenAllowList_def scope_defs)

lemma foreign_tenant: "allow p TenantNS002UUID r a = Some ErrForbidden"
proof (rule refused, rule notI)
  assume "allow p TenantNS002UUID r a = None"
  from granted [OF this] show False by (auto simp: matrixAllows_iff frozenAllowList_def scope_defs)
qed

end

interpretation policy: authorizer "Allow pol"
  using Allow_matrix Allow_cases by unfold_locales (blast, metis)

lemma NewStore_simps: "so_sessions (NewStore ttl) = []" "so_pending (NewStore ttl) = []"
  by (simp_all add: NewStore_def)

lemma New_service:
  assumes "New env cfg = Inr s"
  shows "store_ok (sv_store s)" "so_sessions (sv_store s) = []" "so_pending (sv_store s) = []"
    "sv_auth s = Some au \<Longrightarrow> au_cookieName au = cfg_CookieName (sv_cfg s)"
  using assms
  by (auto simp: New_def Let_def NewStore_ok NewStore_simps NewAuthenticator_def DefaultCookieName_def split: if_splits option.splits)

section \<open>Properties\<close>



text \<open>C28. Sessions come from logins: whatever requests the service has served, a request is taken for a principal
  only if its session cookie names a session that a callback created which presented, in the query and in the
  login cookie, a state that an earlier login request had drawn at most ten minutes before, for an ID token that
  the provider gave for that login's verifier, that verified for the configured issuer and audience and carries
  that login's nonce; the principal is the subject of that token; the session is at most one lifetime old; and no
  logout has named it since.\<close>

theorem session_provenance:
  assumes "New env cfg = Inr s" "lookup_session (sv_auth s) rq now (sv_store (run_auth env ops s)) = (Inr sess, st)"
    and "\<forall>(r, d) \<in> set ops. \<forall>b. dr_rnd2 d = Some b \<longrightarrow> length b = 16"
  shows "\<exists>pre lr ld mid r d post p raw tok.
    ops = pre @ (lr, ld) # mid @ (r, d) # post \<and>
    issued_by lr ld (query_get ''state'' r) p \<and> dr_now1 d < dr_now1 ld + defaultPendingTTL \<and>
    rq_Path r = ''/auth/callback'' \<and> request_cookie DefaultLoginCookieName r = Some (query_get ''state'' r) \<and>
    oi_Exchange env (sv_oauth2 s) (query_get ''code'' r) (dr_verifier ld) = Some (Some raw) \<and>
    oi_Verify env (cfg_Issuer (sv_cfg s)) (cfg_Audience (sv_cfg s)) raw = Some tok \<and> it_Nonce tok = pa_Nonce p \<and>
    se_PrincipalID sess = it_Subject tok \<and> se_Issuer sess = it_Issuer tok \<and>
    request_cookie (cfg_CookieName (sv_cfg s)) rq = Some (se_ID sess) \<and> now < dr_now2 d + so_ttl (sv_store s) \<and>
    (\<forall>(r', d') \<in> set post. \<not> logs_out s r' (se_ID sess))"
proof -
  note new = New_service [OF assms(1)]
  from assms(2) obtain au i where i: "sv_auth s = Some au" "request_cookie (au_cookieName au) rq = Some i" "i \<noteq> []"
    "map_of (so_sessions (sv_store (run_auth env ops s))) i = Some sess" "Fresh (Some sess) now"
    by (rule lookup_session_Inr)
  obtain pre0 r d post p where o: "ops = pre0 @ (r, d) # post"
    "map_of (so_pending (sv_store (run_auth env pre0 s))) (query_get ''state'' r) = Some p"
    "established_by env s r d p i sess" "\<forall>(r, d) \<in> set post. \<not> logs_out s r i"
    using session_established [OF new(1) new(2) i(4,3)] by (elim exE conjE) (rule that)
  obtain lr ld where l: "(lr, ld) \<in> set pre0" "issued_by lr ld (query_get ''state'' r) p"
    using pending_issued [OF new(1) new(3) o(2)] by (elim exE conjE) (rule that)
  obtain pre mid where pre: "pre0 = pre @ (lr, ld) # mid" using l(1) by (meson split_list)
  have "randomID (dr_rnd2 ld) = Inr (pa_Nonce p)" using l(2) unfolding issued_by_def by blast
  then obtain b where b: "dr_rnd2 ld = Some b" "pa_Nonce p = hex_encode b"
    unfolding randomID_def by (cases "dr_rnd2 ld") auto
  have "(lr, ld) \<in> set ops" using o(1) l(1) by simp
  then have "length b = 16" using bspec [OF assms(3), of "(lr, ld)"] b(1) by simp
  then have nonce: "pa_Nonce p \<noteq> []" using b(2) by (cases b) (auto simp: hex_encode_def)
  obtain tok where tok: "assertion env s (query_get ''code'' r) p = Some tok" "se_PrincipalID sess = it_Subject tok" "se_Issuer sess = it_Issuer tok"
    using o(3) unfolding established_by_def by blast
  obtain raw where raw: "oi_Exchange env (sv_oauth2 s) (query_get ''code'' r) (pa_Verifier p) = Some (Some raw)"
    "oi_Verify env (cfg_Issuer (sv_cfg s)) (cfg_Audience (sv_cfg s)) raw = Some tok" "it_Nonce tok = pa_Nonce p"
    using tok(1) nonce by (auto simp: assertion_def split: option.splits if_splits)
  have "request_cookie (cfg_CookieName (sv_cfg s)) rq = Some (se_ID sess)" "now < dr_now2 d + so_ttl (sv_store s)" "se_ID sess = i"
    using i new(4) o(3) by (auto simp: established_by_def Fresh_def split: if_splits)
  with o(3,4) l(2) tok raw show ?thesis
    by (intro exI [of _ pre] exI [of _ lr] exI [of _ ld] exI [of _ mid] exI [of _ r] exI [of _ d] exI [of _ post] exI [of _ p]
        exI [of _ raw] exI [of _ tok]) (simp add: o(1) pre established_by_def issued_by_def)
qed

definition sample_oidc :: oidc where
  "sample_oidc =
     \<lparr>oi_Discover = \<lambda>_. Some ''https://idp.example/auth'',
      oi_AuthCodeURL = \<lambda>cfg state _ _. oa_Endpoint cfg @ ''?state='' @ state,
      oi_Exchange = \<lambda>_ code v. if code = ''code'' \<and> v = ''verifier'' then Some (Some ''token'') else None,
      oi_Verify = \<lambda>iss aud raw. if raw = ''token'' then Some \<lparr>it_Issuer = iss, it_Subject = ''op'', it_Nonce = hex_encode (replicate 16 CHR 0x02)\<rparr> else None\<rparr>"

definition sample_config :: identity_config where
  "sample_config = \<lparr>cfg_Issuer = ''https://idp.example'', cfg_ClientID = ''seshat'', cfg_ClientSecret = ''x'', cfg_RedirectURL = ''https://app.example/auth/callback'',
     cfg_Audience = [], cfg_SessionTTL = 0, cfg_CookieSecure = True, cfg_CookieName = []\<rparr>"

definition sample_request :: "string \<Rightarrow> (string \<times> string) list \<Rightarrow> (string \<times> string) list \<Rightarrow> request" where
  "sample_request path query cookies = \<lparr>rq_Method = ''GET'', rq_Path = path, rq_Query = query, rq_RawQuery = [], rq_Cookies = cookies, rq_Body = Some []\<rparr>"

definition sample_draws :: "char \<Rightarrow> char \<Rightarrow> gotime \<Rightarrow> draws" where
  "sample_draws a b now = \<lparr>dr_rnd1 = Some (replicate 16 a), dr_rnd2 = Some (replicate 16 b), dr_verifier = ''verifier'', dr_now1 = now, dr_now2 = now\<rparr>"

definition sample_logins :: "(request \<times> draws) list" where
  "sample_logins =
     [(sample_request ''/auth/login'' [] [], sample_draws CHR 0x01 CHR 0x02 0),
      (sample_request ''/auth/callback'' [(''code'', ''code''), (''state'', hex_encode (replicate 16 CHR 0x01))]
         [(''seshatops_login'', hex_encode (replicate 16 CHR 0x01))], sample_draws CHR 0x03 CHR 0x04 60)]"

definition sample_authenticated :: request where
  "sample_authenticated = sample_request ''/v1/tenants/'' [] [(''seshatops_session'', hex_encode (replicate 16 CHR 0x03))]"

lemma sample_session:
  "case New sample_oidc sample_config of
     Inl _ \<Rightarrow> False
   | Inr s \<Rightarrow> (case lookup_session (sv_auth s) sample_authenticated 100 (sv_store (run_auth sample_oidc sample_logins s)) of
                (Inl _, _) \<Rightarrow> False
              | (Inr sess, _) \<Rightarrow> se_PrincipalID sess = ''op'' \<and> cfg_Issuer (sv_cfg s) = ''https://idp.example'')"
  by code_simp

theorem session_provenance_witness:
  "\<exists>s sess st tok raw. New sample_oidc sample_config = Inr s \<and>
     lookup_session (sv_auth s) sample_authenticated 100 (sv_store (run_auth sample_oidc sample_logins s)) = (Inr sess, st) \<and>
     oi_Verify sample_oidc (cfg_Issuer (sv_cfg s)) (cfg_Audience (sv_cfg s)) raw = Some tok \<and> it_Subject tok = ''op''"
proof -
  obtain s sess st where s: "New sample_oidc sample_config = Inr s"
    "lookup_session (sv_auth s) sample_authenticated 100 (sv_store (run_auth sample_oidc sample_logins s)) = (Inr sess, st)" "se_PrincipalID sess = ''op''"
    using sample_session by (auto split: sum.splits prod.splits)
  have "\<forall>(r, d) \<in> set sample_logins. \<forall>b. dr_rnd2 d = Some b \<longrightarrow> length b = 16"
    by (simp add: sample_logins_def sample_draws_def)
  from session_provenance [OF s(1,2) this] s show ?thesis by (elim exE conjE) (intro exI conjI, assumption+, simp)
qed


definition sample_decision :: DecisionRecord where
  "sample_decision = \<lparr>de_DecisionID = ''d-1'', de_PrincipalID = ''op'', de_TenantID = TenantNS001UUID, de_Resource = ResRebuild, de_Action = ActRebuild,
     de_Outcome = decisionAllow, de_Reason = ''matrix_allow'', de_TargetID = [], de_RecordedAt = 1500\<rparr>"

definition empty_audit :: audit where
  "empty_audit = \<lparr>durable = [], clock = 0, ticks = [], stmt_faults = [], commits = []\<rparr>"

lemma sample_time: "zero_time \<noteq> 1500"
  by code_simp

lemma sample_append:
  "\<exists>w'. AppendDecision sample_decision None 0 empty_audit = (Inr sample_decision, w') \<and> calm w'"
proof -
  have f: "fill_decision sample_decision None 0 = Inr sample_decision" "decision_check sample_decision = None"
    using sample_time by (simp_all add: fill_decision_def decision_check_def sample_decision_def matrix_defs)
  have "list_all pg_text_ok (decision_texts sample_decision)"
    by (simp add: decision_texts_def sample_decision_def matrix_defs decisionAllow_def pg_text_ok_def valid_utf8_ascii ascii_def)
  from exec_auto_calm [OF _ this, of empty_audit "\<lambda>_. insert_decision (row_of_decision sample_decision)" "()" "[row_of_decision sample_decision]" IdentityDB]
  show ?thesis by (auto simp: AppendDecision_def f calm_def empty_audit_def insert_decision_def)
qed


end
