(* ===== verification/Observability.thy ===== *)
theory Observability
  imports Event_Canon Sha256 "HOL-Library.Word"
begin

text \<open>
  Package \<^verbatim>\<open>observability\<close> (\<^verbatim>\<open>observability.go\<close>): the closed vocabularies of labels, the registry of
  counters and gauges with its recording operations, the Prometheus text it renders, correlation identifiers and
  the attributes of a log record.

  Labels are strings, as in Go; each recording operation tests its labels against the vocabulary. Comments and
  samples of the exposition are kept as lines until they are concatenated. Writing a log record out is the
  logging library's.
\<close>

section \<open>Bounded values\<close>

abbreviation RouteAuth :: string where "RouteAuth \<equiv> ''auth''"
abbreviation RouteInventory :: string where "RouteInventory \<equiv> ''inventory''"
abbreviation RouteOps :: string where "RouteOps \<equiv> ''ops''"
abbreviation RouteForecast :: string where "RouteForecast \<equiv> ''forecast''"
abbreviation RouteMetrics :: string where "RouteMetrics \<equiv> ''metrics''"
abbreviation RouteHealth :: string where "RouteHealth \<equiv> ''health''"
abbreviation RouteOther :: string where "RouteOther \<equiv> ''other''"
abbreviation DenialUnauthenticated :: string where "DenialUnauthenticated \<equiv> ''unauthenticated''"
abbreviation DenialForbidden :: string where "DenialForbidden \<equiv> ''forbidden''"
abbreviation RelayPublished :: string where "RelayPublished \<equiv> ''published''"
abbreviation RelayTransient :: string where "RelayTransient \<equiv> ''transient''"
abbreviation RelayQuarantined :: string where "RelayQuarantined \<equiv> ''quarantined''"
abbreviation RelayAmbiguous :: string where "RelayAmbiguous \<equiv> ''ambiguous''"
abbreviation ConsumerProcessed :: string where "ConsumerProcessed \<equiv> ''processed''"
abbreviation ConsumerSkipped :: string where "ConsumerSkipped \<equiv> ''skipped''"
abbreviation ConsumerAcked :: string where "ConsumerAcked \<equiv> ''acknowledged''"
abbreviation ConsumerWithheld :: string where "ConsumerWithheld \<equiv> ''withheld''"
abbreviation ConsumerFailed :: string where "ConsumerFailed \<equiv> ''commit_failed''"
abbreviation ControlQuarantineRelease :: string where "ControlQuarantineRelease \<equiv> ''quarantine_release''"
abbreviation ControlReplay :: string where "ControlReplay \<equiv> ''replay''"
abbreviation ControlRebuild :: string where "ControlRebuild \<equiv> ''rebuild''"
abbreviation ControlReleased :: string where "ControlReleased \<equiv> ''released''"
abbreviation ControlComplete :: string where "ControlComplete \<equiv> ''complete''"
abbreviation ControlIncomplete :: string where "ControlIncomplete \<equiv> ''incomplete''"
abbreviation ControlDenied :: string where "ControlDenied \<equiv> ''denied''"
abbreviation ControlNotFound :: string where "ControlNotFound \<equiv> ''not_found''"
abbreviation ControlNotReleasable :: string where "ControlNotReleasable \<equiv> ''not_releasable''"
abbreviation ControlFailed :: string where "ControlFailed \<equiv> ''failed''"
abbreviation PredictorCandidate :: string where "PredictorCandidate \<equiv> ''candidate''"
abbreviation PredictorBaseline :: string where "PredictorBaseline \<equiv> ''baseline''"
abbreviation PredictionPredicted :: string where "PredictionPredicted \<equiv> ''predicted''"
abbreviation PredictionAbstained :: string where "PredictionAbstained \<equiv> ''abstained''"
abbreviation FreshnessFresh :: string where "FreshnessFresh \<equiv> ''fresh''"
abbreviation FreshnessStale :: string where "FreshnessStale \<equiv> ''stale''"
abbreviation FreshnessUnavailable :: string where "FreshnessUnavailable \<equiv> ''unavailable''"
abbreviation PythonAvailable :: string where "PythonAvailable \<equiv> ''available''"
abbreviation PythonUnavailable :: string where "PythonUnavailable \<equiv> ''unavailable''"
abbreviation PythonTimeout :: string where "PythonTimeout \<equiv> ''timeout''"
abbreviation PythonInvalidResponse :: string where "PythonInvalidResponse \<equiv> ''invalid_response''"
abbreviation WorkerRelay :: string where "WorkerRelay \<equiv> ''relay''"
abbreviation WorkerConsumer :: string where "WorkerConsumer \<equiv> ''consumer''"

definition orderedRoutes :: "string list" where
  "orderedRoutes = [RouteAuth, RouteInventory, RouteOps, RouteForecast, RouteMetrics, RouteHealth, RouteOther]"

definition validRoute :: "string \<Rightarrow> bool" where
  "validRoute v \<longleftrightarrow> v \<in> set orderedRoutes"

definition validRelayOutcome :: "string \<Rightarrow> bool" where
  "validRelayOutcome v \<longleftrightarrow> v = RelayPublished \<or> v = RelayTransient \<or> v = RelayQuarantined \<or> v = RelayAmbiguous"

definition validConsumerProcessOutcome :: "string \<Rightarrow> bool" where
  "validConsumerProcessOutcome v \<longleftrightarrow> v = ConsumerProcessed \<or> v = ConsumerSkipped"

definition validConsumerAckOutcome :: "string \<Rightarrow> bool" where
  "validConsumerAckOutcome v \<longleftrightarrow> v = ConsumerAcked \<or> v = ConsumerWithheld \<or> v = ConsumerFailed"

definition validControlOperation :: "string \<Rightarrow> bool" where
  "validControlOperation v \<longleftrightarrow> v = ControlQuarantineRelease \<or> v = ControlReplay \<or> v = ControlRebuild"

definition validControlOutcome :: "string \<Rightarrow> bool" where
  "validControlOutcome v \<longleftrightarrow> v = ControlReleased \<or> v = ControlComplete \<or> v = ControlIncomplete \<or> v = ControlDenied \<or>
     v = ControlNotFound \<or> v = ControlNotReleasable \<or> v = ControlFailed"

definition validDenial :: "string \<Rightarrow> bool" where
  "validDenial v \<longleftrightarrow> v = DenialUnauthenticated \<or> v = DenialForbidden"

definition validPredictor :: "string \<Rightarrow> bool" where
  "validPredictor v \<longleftrightarrow> v = PredictorCandidate \<or> v = PredictorBaseline"

definition validPredictionOutcome :: "string \<Rightarrow> bool" where
  "validPredictionOutcome v \<longleftrightarrow> v = PredictionPredicted \<or> v = PredictionAbstained"

definition validFreshness :: "string \<Rightarrow> bool" where
  "validFreshness v \<longleftrightarrow> v = FreshnessFresh \<or> v = FreshnessStale \<or> v = FreshnessUnavailable"

definition validPythonOutcome :: "string \<Rightarrow> bool" where
  "validPythonOutcome v \<longleftrightarrow> v = PythonAvailable \<or> v = PythonUnavailable \<or> v = PythonTimeout \<or> v = PythonInvalidResponse"

definition validHTTPResult :: "string \<Rightarrow> bool" where
  "validHTTPResult v \<longleftrightarrow> v = ''success'' \<or> v = ''client_error'' \<or> v = ''server_error''"

definition validWorker :: "string \<Rightarrow> bool" where
  "validWorker v \<longleftrightarrow> v = WorkerRelay \<or> v = WorkerConsumer"

abbreviation GaugeRuntimeReady :: string where "GaugeRuntimeReady \<equiv> ''seshatops_runtime_ready''"
abbreviation GaugeConsumerObservedLag :: string where "GaugeConsumerObservedLag \<equiv> ''seshatops_consumer_observed_lag_records''"
abbreviation GaugeConsumerObservedLagKnown :: string where "GaugeConsumerObservedLagKnown \<equiv> ''seshatops_consumer_observed_lag_known''"
abbreviation GaugeOutboxPending :: string where "GaugeOutboxPending \<equiv> ''seshatops_outbox_backlog_records_pending''"
abbreviation GaugeOutboxPublishing :: string where "GaugeOutboxPublishing \<equiv> ''seshatops_outbox_backlog_records_publishing''"
abbreviation GaugeOutboxQuarantined :: string where "GaugeOutboxQuarantined \<equiv> ''seshatops_outbox_backlog_records_quarantined''"
abbreviation GaugeOutboxOldestAgeSeconds :: string where "GaugeOutboxOldestAgeSeconds \<equiv> ''seshatops_outbox_oldest_unpublished_age_seconds''"
abbreviation GaugeProcessingFailuresRetrying :: string where "GaugeProcessingFailuresRetrying \<equiv> ''seshatops_processing_failures_retrying''"
abbreviation GaugeProcessingFailuresQuarantined :: string where "GaugeProcessingFailuresQuarantined \<equiv> ''seshatops_processing_failures_quarantined''"
abbreviation GaugeProcessingQuarantinedGap :: string where "GaugeProcessingQuarantinedGap \<equiv> ''seshatops_processing_quarantined_gap''"
abbreviation GaugeProcessingOldestFailureAge :: string where "GaugeProcessingOldestFailureAge \<equiv> ''seshatops_processing_oldest_failure_age_seconds''"
abbreviation GaugeProcessingOldestGapAge :: string where "GaugeProcessingOldestGapAge \<equiv> ''seshatops_processing_oldest_gap_age_seconds''"
abbreviation GaugeBuildInfo :: string where "GaugeBuildInfo \<equiv> ''seshatops_build_info''"

definition gauges :: "string list" where
  "gauges = [GaugeRuntimeReady, GaugeConsumerObservedLag, GaugeConsumerObservedLagKnown, GaugeOutboxPending, GaugeOutboxPublishing,
     GaugeOutboxQuarantined, GaugeOutboxOldestAgeSeconds, GaugeProcessingFailuresRetrying, GaugeProcessingFailuresQuarantined,
     GaugeProcessingQuarantinedGap, GaugeProcessingOldestFailureAge, GaugeProcessingOldestGapAge, GaugeBuildInfo]"

definition validGauge :: "string \<Rightarrow> bool" where
  "validGauge v \<longleftrightarrow> v \<in> set gauges"

section \<open>The registry\<close>

text \<open>A Go map of counters is the function that indexing it computes: 0 where there is no entry. Counters are
  64-bit words; durations are 64-bit nanoseconds.\<close>

record controlValue =
  cv_count :: "64 word"
  cv_total :: int

record Registry =
  re_relay :: "string \<Rightarrow> 64 word"
  re_process :: "string \<Rightarrow> 64 word"
  re_ack :: "string \<Rightarrow> 64 word"
  re_controls :: "string \<Rightarrow> string \<Rightarrow> controlValue"
  re_http :: "string \<Rightarrow> string \<Rightarrow> 64 word"
  re_denials :: "string \<Rightarrow> string \<Rightarrow> 64 word"
  re_prediction :: "string \<Rightarrow> string \<Rightarrow> 64 word"
  re_freshness :: string
  re_python :: "string \<Rightarrow> 64 word"
  re_available :: string
  re_gauges :: "string \<Rightarrow> int"
  re_buildInfo :: "(string \<times> string) option"

definition NewRegistry :: Registry where
  "NewRegistry = \<lparr>re_relay = \<lambda>_. 0, re_process = \<lambda>_. 0, re_ack = \<lambda>_. 0, re_controls = \<lambda>_ _. \<lparr>cv_count = 0, cv_total = 0\<rparr>,
     re_http = \<lambda>_ _. 0, re_denials = \<lambda>_ _. 0, re_prediction = \<lambda>_ _. 0, re_freshness = [], re_python = \<lambda>_. 0,
     re_available = [], re_gauges = \<lambda>_. 0, re_buildInfo = None\<rparr>"

text \<open>The ranges that the code tests a rune against; a rune that is not ASCII is in none of them.\<close>

definition in_range :: "char \<Rightarrow> char \<Rightarrow> char \<Rightarrow> bool" where
  "in_range lo hi c \<longleftrightarrow> byte_val lo \<le> byte_val c \<and> byte_val c \<le> byte_val hi"

definition validBuildLabel :: "string \<Rightarrow> bool" where
  "validBuildLabel v \<longleftrightarrow> v \<noteq> [] \<and> length v \<le> 64 \<and>
     list_all (\<lambda>c. in_range CHR ''0'' CHR ''9'' c \<or> in_range CHR ''a'' CHR ''f'' c \<or> in_range CHR ''A'' CHR ''F'' c \<or>
       in_range CHR ''a'' CHR ''z'' c \<or> in_range CHR ''A'' CHR ''Z'' c \<or> c = CHR ''.'' \<or> c = CHR ''-'' \<or> c = CHR ''_'') v"

definition SetBuildInfo :: "string \<Rightarrow> string \<Rightarrow> Registry \<Rightarrow> Registry" where
  "SetBuildInfo version commit r =
     (if \<not> validBuildLabel version \<or> \<not> validBuildLabel commit then r else r\<lparr>re_buildInfo := Some (version, commit)\<rparr>)"

definition AddRelayPublish :: "string \<Rightarrow> 64 word \<Rightarrow> Registry \<Rightarrow> Registry" where
  "AddRelayPublish out n r =
     (if n = 0 \<or> \<not> validRelayOutcome out then r else r\<lparr>re_relay := (re_relay r)(out := re_relay r out + n)\<rparr>)"

definition AddConsumerProcess :: "string \<Rightarrow> 64 word \<Rightarrow> Registry \<Rightarrow> Registry" where
  "AddConsumerProcess out n r =
     (if n = 0 \<or> \<not> validConsumerProcessOutcome out then r else r\<lparr>re_process := (re_process r)(out := re_process r out + n)\<rparr>)"

definition AddConsumerAck :: "string \<Rightarrow> 64 word \<Rightarrow> Registry \<Rightarrow> Registry" where
  "AddConsumerAck out n r =
     (if n = 0 \<or> \<not> validConsumerAckOutcome out then r else r\<lparr>re_ack := (re_ack r)(out := re_ack r out + n)\<rparr>)"

definition RecordControl :: "string \<Rightarrow> string \<Rightarrow> int \<Rightarrow> Registry \<Rightarrow> Registry" where
  "RecordControl operation out duration0 r =
     (if \<not> validControlOperation operation \<or> \<not> validControlOutcome out then r
      else
        (let duration = (if duration0 < 0 then 0 else duration0);
             v = re_controls r operation out;
             v' = \<lparr>cv_count = cv_count v + 1, cv_total = wrap64 (cv_total v + duration)\<rparr>
         in r\<lparr>re_controls := (re_controls r)(operation := (re_controls r operation)(out := v'))\<rparr>))"

definition RecordHTTP :: "string \<Rightarrow> string \<Rightarrow> Registry \<Rightarrow> Registry" where
  "RecordHTTP route result r =
     (if \<not> validRoute route \<or> \<not> validHTTPResult result then r
      else r\<lparr>re_http := (re_http r)(route := (re_http r route)(result := re_http r route result + 1))\<rparr>)"

definition RecordHTTPDenial :: "string \<Rightarrow> string \<Rightarrow> Registry \<Rightarrow> Registry" where
  "RecordHTTPDenial route reason r =
     (if \<not> validRoute route \<or> \<not> validDenial reason then r
      else r\<lparr>re_denials := (re_denials r)(route := (re_denials r route)(reason := re_denials r route reason + 1))\<rparr>)"

definition RecordPrediction :: "string \<Rightarrow> string \<Rightarrow> Registry \<Rightarrow> Registry" where
  "RecordPrediction predictor out r =
     (if \<not> validPredictor predictor \<or> \<not> validPredictionOutcome out then r
      else r\<lparr>re_prediction := (re_prediction r)(predictor := (re_prediction r predictor)(out := re_prediction r predictor out + 1))\<rparr>)"

definition SetForecastFreshness :: "string \<Rightarrow> Registry \<Rightarrow> Registry" where
  "SetForecastFreshness freshness r = (if \<not> validFreshness freshness then r else r\<lparr>re_freshness := freshness\<rparr>)"

definition RecordPythonInvocation :: "string \<Rightarrow> Registry \<Rightarrow> Registry" where
  "RecordPythonInvocation out r =
     (if \<not> validPythonOutcome out then r else r\<lparr>re_python := (re_python r)(out := re_python r out + 1)\<rparr>)"

definition SetPythonAvailability :: "string \<Rightarrow> Registry \<Rightarrow> Registry" where
  "SetPythonAvailability availability r =
     (if availability \<noteq> PythonAvailable \<and> availability \<noteq> PythonUnavailable then r else r\<lparr>re_available := availability\<rparr>)"

definition SetGauge :: "string \<Rightarrow> int \<Rightarrow> Registry \<Rightarrow> Registry" where
  "SetGauge gauge v r =
     (if \<not> validGauge gauge then r else r\<lparr>re_gauges := (re_gauges r)(gauge := (if v < 0 then 0 else v))\<rparr>)"

section \<open>The exposition\<close>

text \<open>Lines of the text: a comment, or a series with its value. \<open>secs\<close> renders a duration in seconds as
  \<^verbatim>\<open>strconv.FormatFloat\<close> does; it is an argument because it goes through a float. Label values are quoted
  with \<^verbatim>\<open>%q\<close>, which adds nothing but the quotes to the values that can occur.\<close>

datatype prom_line = Meta string | Sample string string

fun line_text :: "prom_line \<Rightarrow> string" where
  "line_text (Meta s) = s @ [CHR 0x0A]"
| "line_text (Sample series v) = series @ '' '' @ v @ [CHR 0x0A]"

fun series_of :: "prom_line \<Rightarrow> string" where
  "series_of (Meta s) = s"
| "series_of (Sample series v) = series"

definition quoted :: "string \<Rightarrow> string" where
  "quoted s = CHR 0x22 # s @ [CHR 0x22]"

fun join_labels :: "string list \<Rightarrow> string" where
  "join_labels [] = []"
| "join_labels [x] = x"
| "join_labels (x # y # zs) = x @ '','' @ join_labels (y # zs)"

record metricRow =
  mr_labels :: "string list"
  mr_value :: "64 word"

definition word_text :: "64 word \<Rightarrow> string" where
  "word_text w = nat_digits (unat w)"

definition help_lines :: "string \<Rightarrow> string \<Rightarrow> string \<Rightarrow> prom_line list" where
  "help_lines name help kind = [Meta (''# HELP '' @ name @ '' '' @ help), Meta (''# TYPE '' @ name @ '' '' @ kind)]"

definition writeCounter :: "string \<Rightarrow> string \<Rightarrow> metricRow list \<Rightarrow> prom_line list" where
  "writeCounter name help rows =
     help_lines name help ''counter'' @
     map (\<lambda>row. Sample (name @ ''_total{'' @ join_labels (mr_labels row) @ ''}'') (word_text (mr_value row))) rows"

definition outcome_row :: "(string \<Rightarrow> 64 word) \<Rightarrow> string \<Rightarrow> metricRow" where
  "outcome_row values out = \<lparr>mr_labels = [''outcome='' @ quoted out], mr_value = values out\<rparr>"

definition relayRows :: "(string \<Rightarrow> 64 word) \<Rightarrow> metricRow list" where
  "relayRows values = map (outcome_row values) [RelayPublished, RelayTransient, RelayQuarantined, RelayAmbiguous]"

definition processRows :: "(string \<Rightarrow> 64 word) \<Rightarrow> metricRow list" where
  "processRows values = map (outcome_row values) [ConsumerProcessed, ConsumerSkipped]"

definition ackRows :: "(string \<Rightarrow> 64 word) \<Rightarrow> metricRow list" where
  "ackRows values = map (outcome_row values) [ConsumerAcked, ConsumerWithheld, ConsumerFailed]"

definition writeControl :: "(int \<Rightarrow> string) \<Rightarrow> (string \<Rightarrow> string \<Rightarrow> controlValue) \<Rightarrow> prom_line list" where
  "writeControl secs values =
     help_lines ''seshatops_control_operations'' ''Privileged control outcomes observed by the local process.'' ''counter'' @
     help_lines ''seshatops_control_duration_seconds'' ''Privileged control handler duration observed by the local process.'' ''summary'' @
     concat (map (\<lambda>operation. concat (map (\<lambda>out.
         (let v = values operation out;
              labels = ''operation='' @ quoted operation @ '',outcome='' @ quoted out
          in [Sample (''seshatops_control_operations_total{'' @ labels @ ''}'') (word_text (cv_count v)),
              Sample (''seshatops_control_duration_seconds_sum{'' @ labels @ ''}'') (secs (cv_total v)),
              Sample (''seshatops_control_duration_seconds_count{'' @ labels @ ''}'') (word_text (cv_count v))]))
         [ControlReleased, ControlComplete, ControlIncomplete, ControlDenied, ControlNotFound, ControlNotReleasable, ControlFailed]))
       [ControlQuarantineRelease, ControlReplay, ControlRebuild])"

text \<open>Two nested loops over fixed label values.\<close>

definition table_lines :: "string \<Rightarrow> string \<Rightarrow> string \<Rightarrow> string list \<Rightarrow> string list \<Rightarrow> (string \<Rightarrow> string \<Rightarrow> 64 word) \<Rightarrow> prom_line list" where
  "table_lines name l1 l2 xs ys values =
     concat (map (\<lambda>x. map (\<lambda>y. Sample (name @ ''_total{'' @ l1 @ ''='' @ quoted x @ '','' @ l2 @ ''='' @ quoted y @ ''}'')
       (word_text (values x y))) ys) xs)"

definition writeHTTP :: "(string \<Rightarrow> string \<Rightarrow> 64 word) \<Rightarrow> prom_line list" where
  "writeHTTP values =
     help_lines ''seshatops_http_requests'' ''HTTP response classes observed by the local process.'' ''counter'' @
     table_lines ''seshatops_http_requests'' ''route'' ''outcome'' orderedRoutes [''success'', ''client_error'', ''server_error''] values"

definition writeDenials :: "(string \<Rightarrow> string \<Rightarrow> 64 word) \<Rightarrow> prom_line list" where
  "writeDenials values =
     help_lines ''seshatops_auth_denials'' ''Authentication and authorization denials observed by the local process.'' ''counter'' @
     table_lines ''seshatops_auth_denials'' ''route'' ''reason'' orderedRoutes [DenialUnauthenticated, DenialForbidden] values"

definition writePrediction :: "(string \<Rightarrow> string \<Rightarrow> 64 word) \<Rightarrow> prom_line list" where
  "writePrediction values =
     help_lines ''seshatops_prediction_outcomes'' ''Forecast prediction outcomes observed by the local process.'' ''counter'' @
     table_lines ''seshatops_prediction_outcomes'' ''predictor'' ''outcome'' [PredictorCandidate, PredictorBaseline]
       [PredictionPredicted, PredictionAbstained] values"

definition writeFreshness :: "string \<Rightarrow> prom_line list" where
  "writeFreshness current =
     help_lines ''seshatops_forecast_freshness'' ''Last forecast freshness state observed by the local process.'' ''gauge'' @
     map (\<lambda>state. Sample (''seshatops_forecast_freshness{state='' @ quoted state @ ''}'') (if state = current then ''1'' else ''0''))
       [FreshnessFresh, FreshnessStale, FreshnessUnavailable]"

definition writePython :: "(string \<Rightarrow> 64 word) \<Rightarrow> string \<Rightarrow> prom_line list" where
  "writePython values availability =
     help_lines ''seshatops_python_candidate_invocations'' ''Python candidate invocation outcomes for this process.'' ''counter'' @
     map (\<lambda>out. Sample (''seshatops_python_candidate_invocations_total{outcome='' @ quoted out @ ''}'') (word_text (values out)))
       [PythonAvailable, PythonUnavailable, PythonTimeout, PythonInvalidResponse] @
     help_lines ''seshatops_python_candidate_available'' ''Last Python candidate availability observed by this process.'' ''gauge'' @
     [Sample ''seshatops_python_candidate_available'' (if availability = PythonAvailable then ''1'' else ''0'')]"

definition writeBuildInfo :: "(string \<times> string) option \<Rightarrow> prom_line list" where
  "writeBuildInfo info =
     help_lines GaugeBuildInfo ''Build identity for this process.'' ''gauge'' @
     (case info of
        None \<Rightarrow> [Sample (GaugeBuildInfo @ ''{version='' @ quoted ''unknown'' @ '',commit='' @ quoted ''unknown'' @ ''}'') ''0'']
      | Some (version, commit) \<Rightarrow>
          if version = [] \<or> commit = []
          then [Sample (GaugeBuildInfo @ ''{version='' @ quoted ''unknown'' @ '',commit='' @ quoted ''unknown'' @ ''}'') ''0'']
          else [Sample (GaugeBuildInfo @ ''{version='' @ quoted version @ '',commit='' @ quoted commit @ ''}'') ''1''])"

definition prom_lines :: "(int \<Rightarrow> string) \<Rightarrow> Registry \<Rightarrow> prom_line list" where
  "prom_lines secs r =
     writeCounter ''seshatops_relay_publish_outcomes'' ''Relay publish outcomes acknowledged by the local process.'' (relayRows (re_relay r)) @
     writeCounter ''seshatops_consumer_processing_outcomes'' ''Consumer processing outcomes observed by the local process.'' (processRows (re_process r)) @
     writeCounter ''seshatops_consumer_ack_outcomes'' ''Consumer acknowledgement outcomes observed by the local process.'' (ackRows (re_ack r)) @
     writeControl secs (re_controls r) @ writeHTTP (re_http r) @ writeDenials (re_denials r) @ writePrediction (re_prediction r) @
     writeFreshness (re_freshness r) @ writePython (re_python r) (re_available r) @ writeBuildInfo (re_buildInfo r) @
     concat (map (\<lambda>gauge. if gauge = GaugeBuildInfo then []
       else [Meta (''# TYPE '' @ gauge @ '' gauge''), Sample gauge (format_int (re_gauges r gauge))]) gauges)"

definition RenderPrometheus :: "(int \<Rightarrow> string) \<Rightarrow> Registry \<Rightarrow> string" where
  "RenderPrometheus secs r = concat (map line_text (prom_lines secs r))"

section \<open>Correlation and logs\<close>

definition lower_hex :: "char \<Rightarrow> bool" where
  "lower_hex c \<longleftrightarrow> in_range CHR ''0'' CHR ''9'' c \<or> in_range CHR ''a'' CHR ''f'' c"

definition validCorrelationID :: "string \<Rightarrow> bool" where
  "validCorrelationID v \<longleftrightarrow> length v = 36 \<and>
     list_all (\<lambda>(i, c). if i = 8 \<or> i = 13 \<or> i = 18 \<or> i = 23 then c = CHR ''-'' else lower_hex c) (enumerate 0 v)"

text \<open>\<open>rnd\<close> are the sixteen bytes of \<^verbatim>\<open>rand.Read\<close>.\<close>

definition NewCorrelationID :: "string option \<Rightarrow> unit + string" where
  "NewCorrelationID rnd =
     (case rnd of
        None \<Rightarrow> Inl ()
      | Some raw0 \<Rightarrow>
          (let raw = raw0[6 := byte (byte_val (raw0 ! 6) mod 16 + 0x40), 8 := byte (byte_val (raw0 ! 8) mod 64 + 0x80)];
               e = hex_encode raw
           in Inr (take 8 e @ ''-'' @ take 4 (drop 8 e) @ ''-'' @ take 4 (drop 12 e) @ ''-'' @ take 4 (drop 16 e) @ ''-'' @ drop 20 e)))"

text \<open>A context is the value it holds under the correlation key.\<close>

type_synonym ctx = "string option"

definition WithCorrelationID :: "ctx \<Rightarrow> string \<Rightarrow> ctx" where
  "WithCorrelationID c i = (if \<not> validCorrelationID i then c else Some i)"

definition CorrelationID :: "ctx \<Rightarrow> string" where
  "CorrelationID c = (case c of None \<Rightarrow> [] | Some i \<Rightarrow> if \<not> validCorrelationID i then [] else i)"

definition EnsureCorrelationID :: "string option \<Rightarrow> ctx \<Rightarrow> ctx \<times> string \<times> bool" where
  "EnsureCorrelationID rnd c =
     (let i = CorrelationID c in
      if i \<noteq> [] then (c, i, True)
      else (case NewCorrelationID rnd of
              Inl _ \<Rightarrow> (c, [], False)
            | Inr j \<Rightarrow> (WithCorrelationID c j, j, True)))"

definition validChecksum :: "string \<Rightarrow> bool" where
  "validChecksum v \<longleftrightarrow> length v = 64 \<and> list_all lower_hex v"

record Fields =
  lf_Route :: string
  lf_Reason :: string
  lf_Operation :: string
  lf_Worker :: string
  lf_Outcome :: string
  lf_StatusCode :: int
  lf_Duration :: int
  lf_Checksum :: string
  lf_LineageChecksum :: string
  lf_Predictor :: string
  lf_Freshness :: string

definition no_fields :: Fields where
  "no_fields = \<lparr>lf_Route = [], lf_Reason = [], lf_Operation = [], lf_Worker = [], lf_Outcome = [], lf_StatusCode = 0, lf_Duration = 0,
     lf_Checksum = [], lf_LineageChecksum = [], lf_Predictor = [], lf_Freshness = []\<rparr>"

datatype attr = AText string | ANum int

type_synonym log_record = "string \<times> (string \<times> attr) list"

definition attr_if :: "bool \<Rightarrow> string \<Rightarrow> attr \<Rightarrow> (string \<times> attr) list" where
  "attr_if b k v = (if b then [(k, v)] else [])"

definition validOutcome :: "string \<Rightarrow> bool" where
  "validOutcome v \<longleftrightarrow> validHTTPResult v \<or> validControlOutcome v \<or> validRelayOutcome v \<or> validConsumerProcessOutcome v \<or>
     validConsumerAckOutcome v \<or> validPredictionOutcome v \<or> validPythonOutcome v"

definition Log :: "ctx \<Rightarrow> string \<Rightarrow> Fields \<Rightarrow> log_record" where
  "Log c event f =
     (event,
      attr_if (CorrelationID c \<noteq> []) ''correlation_id'' (AText (CorrelationID c)) @
      attr_if (validRoute (lf_Route f)) ''route'' (AText (lf_Route f)) @
      attr_if (validDenial (lf_Reason f)) ''reason'' (AText (lf_Reason f)) @
      attr_if (validControlOperation (lf_Operation f)) ''operation'' (AText (lf_Operation f)) @
      attr_if (validWorker (lf_Worker f)) ''worker'' (AText (lf_Worker f)) @
      attr_if (validOutcome (lf_Outcome f)) ''outcome'' (AText (lf_Outcome f)) @
      attr_if (100 \<le> lf_StatusCode f \<and> lf_StatusCode f \<le> 599) ''status_code'' (ANum (lf_StatusCode f)) @
      attr_if (0 \<le> lf_Duration f) ''duration_ms'' (ANum (lf_Duration f div 1000000)) @
      attr_if (validChecksum (lf_Checksum f)) ''checksum'' (AText (lf_Checksum f)) @
      attr_if (validChecksum (lf_LineageChecksum f)) ''lineage_checksum'' (AText (lf_LineageChecksum f)) @
      attr_if (validPredictor (lf_Predictor f)) ''predictor'' (AText (lf_Predictor f)) @
      attr_if (validFreshness (lf_Freshness f)) ''freshness'' (AText (lf_Freshness f)))"

section \<open>Runs\<close>

datatype metric_op =
  OpBuild string string | OpRelay string "64 word" | OpProcess string "64 word" | OpAck string "64 word" | OpControl string string int
| OpHTTP string string | OpDenial string string | OpPrediction string string | OpFreshness string | OpPython string
| OpAvailability string | OpGauge string int

fun metric_step :: "metric_op \<Rightarrow> Registry \<Rightarrow> Registry" where
  "metric_step (OpBuild v c) = SetBuildInfo v c"
| "metric_step (OpRelay x n) = AddRelayPublish x n"
| "metric_step (OpProcess x n) = AddConsumerProcess x n"
| "metric_step (OpAck x n) = AddConsumerAck x n"
| "metric_step (OpControl a b d) = RecordControl a b d"
| "metric_step (OpHTTP a b) = RecordHTTP a b"
| "metric_step (OpDenial a b) = RecordHTTPDenial a b"
| "metric_step (OpPrediction a b) = RecordPrediction a b"
| "metric_step (OpFreshness a) = SetForecastFreshness a"
| "metric_step (OpPython a) = RecordPythonInvocation a"
| "metric_step (OpAvailability a) = SetPythonAvailability a"
| "metric_step (OpGauge a v) = SetGauge a v"

lemmas metric_defs = SetBuildInfo_def AddRelayPublish_def AddConsumerProcess_def AddConsumerAck_def RecordControl_def RecordHTTP_def
  RecordHTTPDenial_def RecordPrediction_def SetForecastFreshness_def RecordPythonInvocation_def SetPythonAvailability_def SetGauge_def Let_def

definition build_ok :: "(string \<times> string) option \<Rightarrow> bool" where
  "build_ok b \<longleftrightarrow> (case b of None \<Rightarrow> True | Some (v, c) \<Rightarrow> validBuildLabel v \<and> validBuildLabel c)"

lemma metric_step_build: "build_ok (re_buildInfo r) \<Longrightarrow> build_ok (re_buildInfo (metric_step x r))"
  by (cases x) (auto simp: metric_defs build_ok_def)

lemma metric_run_build: "build_ok (re_buildInfo r) \<Longrightarrow> build_ok (re_buildInfo (fold metric_step ops r))"
  by (induction ops arbitrary: r) (simp_all add: metric_step_build)

lemma metric_step_gauge: "(\<And>g. 0 \<le> re_gauges r g) \<Longrightarrow> 0 \<le> re_gauges (metric_step x r) g"
  by (cases x) (auto simp: metric_defs)

lemma metric_run_gauge: "(\<And>g. 0 \<le> re_gauges r g) \<Longrightarrow> 0 \<le> re_gauges (fold metric_step ops r) g"
  by (induction ops arbitrary: r) (simp_all add: metric_step_gauge)

lemma series_pieces:
  "map series_of (writeCounter n h (relayRows v)) = map series_of (writeCounter n h (relayRows v'))"
  "map series_of (writeCounter n h (processRows v)) = map series_of (writeCounter n h (processRows v'))"
  "map series_of (writeCounter n h (ackRows v)) = map series_of (writeCounter n h (ackRows v'))"
  "map series_of (writeControl secs cs) = map series_of (writeControl secs' cs')"
  "map series_of (table_lines n l1 l2 xs ys t) = map series_of (table_lines n l1 l2 xs ys t')"
  "map series_of (writeFreshness fr) = map series_of (writeFreshness fr')"
  "map series_of (writePython v a) = map series_of (writePython v' a')"
  by (simp_all add: writeCounter_def relayRows_def processRows_def ackRows_def outcome_row_def writeControl_def Let_def
      table_lines_def map_concat comp_def writeFreshness_def writePython_def)

lemma series_tables:
  "map series_of (writeHTTP t) = map series_of (writeHTTP t')" "map series_of (writeDenials t) = map series_of (writeDenials t')"
  "map series_of (writePrediction t) = map series_of (writePrediction t')"
  unfolding writeHTTP_def writeDenials_def writePrediction_def map_append
  by (rule arg_cong2 [where f = append, OF refl series_pieces(5)])+

lemma series_gauges:
  "map series_of (concat (map (\<lambda>g. if g = b then [] else [Meta (p @ g @ q), Sample g (v g)]) gs)) =
   map series_of (concat (map (\<lambda>g. if g = b then [] else [Meta (p @ g @ q), Sample g (v' g)]) gs))"
  by (induction gs) simp_all

lemma series_fixed: "re_buildInfo r = re_buildInfo r' \<Longrightarrow> map series_of (prom_lines secs r) = map series_of (prom_lines secs' r')"
  unfolding prom_lines_def map_append
  by (intro arg_cong2 [where f = append] series_pieces(1-4,6,7) series_tables series_gauges) simp

lemma attr_if_mem: "(k, v) \<in> set (attr_if b k' v') \<longleftrightarrow> b \<and> k = k' \<and> v = v'"
  by (auto simp: attr_if_def)

lemma CorrelationID_valid: "CorrelationID c \<noteq> [] \<Longrightarrow> validCorrelationID (CorrelationID c)"
  by (auto simp: CorrelationID_def split: option.splits)

section \<open>Properties\<close>

text \<open>C30. The metrics endpoint has a bounded vocabulary: after any sequence of recordings with any arguments, the
  series and comments of the exposition are, line by line, those of a fresh registry, but for two labels of the
  build line, which are at most 64 letters, digits, dots, dashes and underscores each; and no gauge is negative.\<close>

theorem metrics_bounded:
  "\<exists>b. (b = None \<or> (\<exists>v c. b = Some (v, c) \<and> validBuildLabel v \<and> validBuildLabel c)) \<and>
     map series_of (prom_lines secs (fold metric_step ops NewRegistry)) = map series_of (prom_lines secs (NewRegistry\<lparr>re_buildInfo := b\<rparr>)) \<and>
     0 \<le> re_gauges (fold metric_step ops NewRegistry) g"
proof -
  let ?r = "fold metric_step ops NewRegistry"
  have "build_ok (re_buildInfo ?r)" by (rule metric_run_build) (simp add: NewRegistry_def build_ok_def)
  moreover have "0 \<le> re_gauges ?r g" by (rule metric_run_gauge) (simp add: NewRegistry_def)
  ultimately show ?thesis
    using series_fixed [of ?r "NewRegistry\<lparr>re_buildInfo := re_buildInfo ?r\<rparr>" secs secs]
    by (intro exI [of _ "re_buildInfo ?r"]) (auto simp: build_ok_def split: option.splits)
qed


text \<open>The words a log attribute may carry, by the attribute, and the shape of identifiers.\<close>

definition log_words :: "string \<Rightarrow> string list" where
  "log_words k =
     (if k = ''route'' then [''auth'', ''inventory'', ''ops'', ''forecast'', ''metrics'', ''health'', ''other'']
      else if k = ''reason'' then [''unauthenticated'', ''forbidden'']
      else if k = ''operation'' then [''quarantine_release'', ''replay'', ''rebuild'']
      else if k = ''worker'' then [''relay'', ''consumer'']
      else if k = ''outcome'' then
        [''success'', ''client_error'', ''server_error'', ''released'', ''complete'', ''incomplete'', ''denied'', ''not_found'',
         ''not_releasable'', ''failed'', ''published'', ''transient'', ''quarantined'', ''ambiguous'', ''processed'', ''skipped'',
         ''acknowledged'', ''withheld'', ''commit_failed'', ''predicted'', ''abstained'', ''available'', ''unavailable'', ''timeout'',
         ''invalid_response'']
      else if k = ''predictor'' then [''candidate'', ''baseline'']
      else if k = ''freshness'' then [''fresh'', ''stale'', ''unavailable'']
      else [])"

definition hex_or_dash :: "char \<Rightarrow> bool" where
  "hex_or_dash c \<longleftrightarrow> c = CHR ''-'' \<or> (0x30 \<le> byte_val c \<and> byte_val c \<le> 0x39) \<or> (0x61 \<le> byte_val c \<and> byte_val c \<le> 0x66)"

lemma lower_hex_shape: "lower_hex c \<Longrightarrow> hex_or_dash c"
  by (auto simp: lower_hex_def in_range_def hex_or_dash_def)

lemma validCorrelationID_shape: "validCorrelationID s \<Longrightarrow> length s = 36 \<and> (\<forall>c \<in> set s. hex_or_dash c)"
proof -
  assume v: "validCorrelationID s"
  have "hex_or_dash (s ! i)" if "i < length s" for i
  proof -
    have "(i, s ! i) \<in> set (enumerate 0 s)" using that by (simp add: in_set_enumerate_eq)
    with v have "if i = 8 \<or> i = 13 \<or> i = 18 \<or> i = 23 then s ! i = CHR ''-'' else lower_hex (s ! i)"
      by (auto simp: validCorrelationID_def list_all_iff)
    then show ?thesis by (auto simp: lower_hex_shape hex_or_dash_def [of "CHR ''-''"] split: if_splits)
  qed
  with v show ?thesis by (auto simp: validCorrelationID_def in_set_conv_nth)
qed

lemma dash_not_hex: "\<not> lower_hex CHR ''-''"
  by (simp add: lower_hex_def in_range_def)

lemma validChecksum_shape: "validChecksum s \<Longrightarrow> length s = 64 \<and> (\<forall>c \<in> set s. hex_or_dash c \<and> c \<noteq> CHR ''-'')"
  using dash_not_hex lower_hex_shape by (auto simp: validChecksum_def list_all_iff)

text \<open>C32. Log records carry no caller data: every attribute of a record is a word from the closed list of its
  attribute, a correlation identifier of 36 or a checksum of 64 lower-case hexadecimal characters, a status code
  between 100 and 599, or a duration that is not negative.\<close>

theorem log_bounded:
  "(k, v) \<in> set (snd (Log c event f)) \<Longrightarrow>
   (\<exists>s. v = AText s \<and> s \<in> set (log_words k)) \<or>
   (\<exists>s. v = AText s \<and> k = ''correlation_id'' \<and> length s = 36 \<and> (\<forall>x \<in> set s. hex_or_dash x)) \<or>
   (\<exists>s. v = AText s \<and> k \<in> {''checksum'', ''lineage_checksum''} \<and> length s = 64 \<and> (\<forall>x \<in> set s. hex_or_dash x \<and> x \<noteq> CHR ''-'')) \<or>
   (\<exists>n. v = ANum n \<and> (k = ''status_code'' \<and> 100 \<le> n \<and> n \<le> 599 \<or> k = ''duration_ms'' \<and> 0 \<le> n))"
  unfolding Log_def snd_conv set_append Un_iff attr_if_mem
  by (elim disjE conjE)
     (auto simp: log_words_def validRoute_def orderedRoutes_def validDenial_def validControlOperation_def validWorker_def
       validOutcome_def validHTTPResult_def validControlOutcome_def validRelayOutcome_def validConsumerProcessOutcome_def
       validConsumerAckOutcome_def validPredictionOutcome_def validPythonOutcome_def validPredictor_def validFreshness_def
       dest!: validChecksum_shape CorrelationID_valid [THEN validCorrelationID_shape])

theorem log_bounded_witness:
  "(''route'', AText ''ops'') \<in> set (snd (Log None ''http.request.completed'' (no_fields\<lparr>lf_Route := ''ops'', lf_Outcome := ''tenant-7''\<rparr>))) \<and>
   (\<forall>v. (''outcome'', v) \<notin> set (snd (Log None ''http.request.completed'' (no_fields\<lparr>lf_Route := ''ops'', lf_Outcome := ''tenant-7''\<rparr>)))) \<and>
   ''ops'' \<in> set (log_words ''route'')"
proof -
  let ?r = "snd (Log None ''http.request.completed'' (no_fields\<lparr>lf_Route := ''ops'', lf_Outcome := ''tenant-7''\<rparr>))"
  have r: "?r = [(''route'', AText ''ops''), (''duration_ms'', ANum 0)]" by code_simp
  then have "(''route'', AText ''ops'') \<in> set ?r" by simp
  from log_bounded [OF this] r show ?thesis by simp
qed

lemma lower_hex_digit: "n < 16 \<Longrightarrow> lower_hex (hex_digit n)"
  by (auto simp: lower_hex_def in_range_def hex_digit_def split: if_splits)

lemma length_16: "length xs = 16 \<Longrightarrow> \<exists>a b c d e f g h i j k l m n p q. xs = [a, b, c, d, e, f, g, h, i, j, k, l, m, n, p, q]"
  by (auto simp: numeral_eq_Suc length_Suc_conv)

definition dashed :: "string \<Rightarrow> string" where
  "dashed e = take 8 e @ ''-'' @ take 4 (drop 8 e) @ ''-'' @ take 4 (drop 12 e) @ ''-'' @ take 4 (drop 16 e) @ ''-'' @ drop 20 e"

lemma dashed_valid:
  assumes "length raw = 16" shows "validCorrelationID (dashed (hex_encode raw))"
proof -
  obtain a b c d e f g h i j k l m n p q where raw: "raw = [a, b, c, d, e, f, g, h, i, j, k, l, m, n, p, q]"
    using length_16 [OF assms] by blast
  have hi: "lower_hex (hex_digit (byte_val x div 16))" "lower_hex (hex_digit (byte_val x mod 16))" for x
    using byte_val_less [of x] by (simp_all add: lower_hex_digit less_mult_imp_div_less)
  show ?thesis
    by (simp add: raw validCorrelationID_def dashed_def hex_encode_def hi)
qed

lemma NewCorrelationID_valid:
  assumes "length raw = 16" shows "\<exists>i. NewCorrelationID (Some raw) = Inr i \<and> validCorrelationID i"
  using dashed_valid [of "raw[6 := byte (byte_val (raw ! 6) mod 16 + 0x40), 8 := byte (byte_val (raw ! 8) mod 64 + 0x80)]"] assms
  by (simp add: NewCorrelationID_def Let_def dashed_def)

lemma EnsureCorrelationID_valid:
  assumes "rnd = Some raw" "length raw = 16" "EnsureCorrelationID rnd c = (c', i, ok)"
  shows "ok \<and> validCorrelationID i \<and> CorrelationID c' = i"
proof (cases "CorrelationID c = []")
  case True
  obtain j where "NewCorrelationID (Some raw) = Inr j" "validCorrelationID j" using NewCorrelationID_valid [OF assms(2)] by blast
  with True assms show ?thesis by (auto simp: EnsureCorrelationID_def Let_def WithCorrelationID_def CorrelationID_def)
next
  case False
  with assms(3) CorrelationID_valid [OF False] show ?thesis by (auto simp: EnsureCorrelationID_def Let_def)
qed

end
