(* ===== verification/Go_Date.thy ===== *)
theory Go_Date
  imports Platform_Reads
begin

text \<open>
  Calendar dates as the forecasting code uses them: \<^verbatim>\<open>Format("2006-01-02")\<close>, \<^verbatim>\<open>time.Parse("2006-01-02", s)\<close>
  and \<^verbatim>\<open>AddDate(0, 0, n)\<close>, which on day numbers is addition. Formatting undoes parsing, and dates compare as
  strings the way the days they name compare.
\<close>

section \<open>From a day number to a civil date\<close>

text \<open>\<open>n\<close> is the number of days since the Unix epoch, \<open>a\<close> the number since 1 January of year 1.\<close>

definition year_of_days :: "int \<Rightarrow> int" where
  "year_of_days n =
     (let a = n + 719162; y = 400 * a div 146097 + 1
      in if days_before_year (y + 1) \<le> a then y + 1 else y)"

function month_day :: "int \<Rightarrow> nat \<Rightarrow> int \<Rightarrow> nat \<times> int" where
  "month_day y m d = (if 12 \<le> m \<or> d \<le> days_in (int m) y then (m, d) else month_day y (Suc m) (d - days_in (int m) y))"
  by pat_completeness auto
termination by (relation "measure (\<lambda>(y, m, d). 12 - m)") auto

declare month_day.simps [simp del]

definition civil_of_days :: "int \<Rightarrow> int \<times> int \<times> int" where
  "civil_of_days n =
     (let y = year_of_days n; (m, d) = month_day y 1 (n + 719162 - days_before_year y + 1)
      in (y, int m, d))"

text \<open>\<^verbatim>\<open>Format("2006-01-02")\<close>.\<close>

definition pad_int :: "nat \<Rightarrow> int \<Rightarrow> string" where
  "pad_int w v = (let ds = nat_digits (nat v) in replicate (w - length ds) (CHR ''0'') @ ds)"

definition format_date :: "int \<Rightarrow> string" where
  "format_date n = (case civil_of_days n of (y, m, d) \<Rightarrow> pad_int 4 y @ ''-'' @ pad_int 2 m @ ''-'' @ pad_int 2 d)"

text \<open>\<^verbatim>\<open>time.Parse("2006-01-02", s)\<close>, as a day number.\<close>

definition parse_day :: "string \<Rightarrow> int option" where
  "parse_day s =
     Option.bind (get_year s) (\<lambda>(y, s).
     Option.bind (skip (CHR ''-'') s) (\<lambda>s.
     Option.bind (getnum True s) (\<lambda>(m, s).
     if m < 1 \<or> 12 < m then None else
     Option.bind (skip (CHR ''-'') s) (\<lambda>s.
     Option.bind (getnum True s) (\<lambda>(d, s).
     if s \<noteq> [] then None
     else if d < 1 \<or> days_in m y < d then None
     else Some (civil_days y m d))))))"

text \<open>The day an instant falls on, in UTC.\<close>

definition day_of_time :: "gotime \<Rightarrow> int" where
  "day_of_time t = t div (86400 * 10 ^ 9)"

section \<open>The two are inverse\<close>

lemma days_before_year_400:
  "400 * days_before_year (k + 1) = 146097 * k - 100 * (k mod 4) + 4 * (k mod 100) - k mod 400"
proof -
  have "4 * (k div 4) = k - k mod 4" "100 * (k div 100) = k - k mod 100" "400 * (k div 400) = k - k mod 400"
    by (simp_all add: minus_mod_eq_mult_div)
  then show ?thesis unfolding days_before_year_def by simp
qed

lemma days_before_year_bounds:
  "146097 * k - 699 \<le> 400 * days_before_year (k + 1)" "400 * days_before_year (k + 1) \<le> 146097 * k + 396"
proof -
  have "0 \<le> k mod 4" "k mod 4 \<le> 3" "0 \<le> k mod 100" "k mod 100 \<le> 99" "0 \<le> k mod 400" "k mod 400 \<le> 399" by simp_all
  then show "146097 * k - 699 \<le> 400 * days_before_year (k + 1)" "400 * days_before_year (k + 1) \<le> 146097 * k + 396"
    using days_before_year_400 [of k] by linarith+
qed

lemma div_pred:
  assumes "0 < (n :: int)" shows "y div n = (y - 1) div n + (if y mod n = 0 then 1 else 0)"
proof (cases "y mod n = 0")
  case True
  then have "y - 1 = n * (y div n - 1) + (n - 1)" using mult_div_mod_eq [of n y] by (simp add: right_diff_distrib)
  from int_div_pos_eq [OF this] assms True show ?thesis by simp
next
  case False
  have "0 \<le> y mod n" "y mod n < n" using assms by simp_all
  moreover have "y - 1 = n * (y div n) + (y mod n - 1)" using mult_div_mod_eq [of n y] by simp
  ultimately show ?thesis using int_div_pos_eq [of "y - 1" n "y div n" "y mod n - 1"] False by simp
qed

lemma days_before_year_Suc: "days_before_year (y + 1) = days_before_year y + (if is_leap y then 366 else 365)"
proof -
  note d = div_pred [of 4 y] div_pred [of 100 y] div_pred [of 400 y]
  have m: "y mod 100 = 0 \<Longrightarrow> y mod 4 = 0" "y mod 400 = 0 \<Longrightarrow> y mod 100 = 0"
    using dvd_trans [of 4 100 y] dvd_trans [of 100 400 y] by (simp_all add: mod_eq_0_iff_dvd)
  have arith: "365 * y + a' - b' + c' = 365 * (y - 1) + a - b + c + (if p \<and> (\<not> q \<or> r) then 366 else 365)"
    if "a' = a + (if p then 1 else 0)" "b' = b + (if q then 1 else 0)" "c' = c + (if r then 1 else 0)" "q \<Longrightarrow> p" "r \<Longrightarrow> q"
    for a a' b b' c c' :: int and p q r
    using that by (cases p; cases q; cases r) simp_all
  show ?thesis unfolding days_before_year_def is_leap_def add_diff_cancel_right'
    by (rule arith) (use d m in \<open>simp_all only: zero_less_numeral\<close>)
qed

lemma year_of_days_unique:
  assumes "days_before_year y \<le> n + 719162" "n + 719162 < days_before_year (y + 1)"
  shows "year_of_days n = y"
proof -
  define a where "a = n + 719162"
  define g where "g = 400 * a div 146097"
  have g: "146097 * g \<le> 400 * a" "400 * a < 146097 * g + 146097"
    using mult_div_mod_eq [of 146097 "400 * a"] pos_mod_bound [of 146097 "400 * a"] pos_mod_sign [of 146097 "400 * a"]
    unfolding g_def by linarith+
  have b: "146097 * y - 146796 \<le> 400 * a" "400 * a < 146097 * y"
    using assms days_before_year_bounds [of "y - 1"] days_before_year_bounds [of y] unfolding a_def by simp_all
  have "g < y" using g b by linarith
  moreover have "y - 3 < g" using g b by linarith
  ultimately have "g = y - 1 \<or> g = y - 2" by linarith
  then show ?thesis
    using assms unfolding year_of_days_def Let_def a_def [symmetric] g_def [symmetric] by (auto simp: add.commute [of 1])
qed

lemma days_in_pos: "28 \<le> days_in m y"
  by (simp add: days_in_def)

lemma days_before_month_mono: "days_before_month (Suc k) y \<le> days_before_month (Suc k + i) y"
proof (induction i)
  case (Suc i)
  then show ?case using days_in_pos [of "int (Suc k + i)" y] by simp
qed simp

lemma month_day_of:
  assumes "1 \<le> m" "m \<le> 12" "1 \<le> d" "d \<le> days_in (int m) y" "1 \<le> k" "k \<le> m"
  shows "month_day y k (days_before_month m y - days_before_month k y + d) = (m, d)"
  using assms(5,6)
proof (induction "m - k" arbitrary: k)
  case 0
  then show ?case using assms by (simp add: month_day.simps [of y k])
next
  case (Suc j)
  then have k: "k < m" "days_before_month (Suc k) y = days_before_month k y + days_in (int k) y" by simp_all
  have "days_before_month (Suc k) y \<le> days_before_month m y" using days_before_month_mono [of k y "m - Suc k"] k(1) by simp
  then have "\<not> (days_before_month m y - days_before_month k y + d \<le> days_in (int k) y)" using k(2) assms(3) by simp
  moreover have "\<not> 12 \<le> k" using k(1) assms(2) by simp
  moreover have "month_day y (Suc k) (days_before_month m y - days_before_month (Suc k) y + d) = (m, d)"
    using Suc by (intro Suc.hyps(1)) auto
  ultimately show ?case using k(2) by (simp add: month_day.simps [of y k] algebra_simps)
qed

lemma month_in_year:
  assumes "1 \<le> m" "m \<le> 12" "d \<le> days_in (int m) y" shows "days_before_month m y + d \<le> (if is_leap y then 366 else 365)"
proof -
  have "days_before_month m y + days_in (int m) y = days_before_month (Suc m) y" using assms(1) by simp
  also have "\<dots> \<le> days_before_month 13 y" using days_before_month_mono [of m y "12 - m"] assms(2) by simp
  also have "\<dots> = (if is_leap y then 366 else 365)" by (simp add: numeral_eq_Suc days_in_def)
  finally show ?thesis using assms(3) by simp
qed

lemma days_before_month_nonneg: "0 \<le> days_before_month m y"
  by (induction m) (auto simp: days_in_def)

lemma civil_of_days_civil:
  assumes "1 \<le> m" "m \<le> 12" "1 \<le> d" "d \<le> days_in m y"
  shows "civil_of_days (civil_days y m d) = (y, m, d)"
proof -
  let ?n = "civil_days y m d"
  have m: "1 \<le> nat m" "nat m \<le> 12" "d \<le> days_in (int (nat m)) y" using assms by simp_all
  have a: "?n + 719162 = days_before_year y + days_before_month (nat m) y + d - 1" by (simp add: civil_days_def)
  have y: "year_of_days ?n = y"
    using a month_in_year [OF m] days_before_month_nonneg [of "nat m" y] assms(3)
    by (intro year_of_days_unique) (simp_all add: days_before_year_Suc)
  have "month_day y 1 (days_before_month (nat m) y - days_before_month 1 y + d) = (nat m, d)"
    by (rule month_day_of) (use m assms in auto)
  moreover have "?n + 719162 - days_before_year y + 1 = days_before_month (nat m) y - days_before_month 1 y + d" using a by simp
  ultimately show ?thesis
    using assms(1) unfolding civil_of_days_def Let_def y by simp
qed

lemma nat_digits_step: "n < 10 \<Longrightarrow> nat_digits n = [byte (0x30 + n)]" "\<not> n < 10 \<Longrightarrow> nat_digits n = nat_digits (n div 10) @ [byte (0x30 + n mod 10)]"
  by (simp_all add: nat_digits.simps [of n])

lemma digit_byte: "is_digit c \<Longrightarrow> byte (0x30 + digit_val c) = c"
  by (simp add: is_digit_def digit_val_def)

lemma digit_val_less: "is_digit c \<Longrightarrow> digit_val c < 10"
  unfolding is_digit_def digit_val_def by linarith

lemma byte_zero: "byte 48 = CHR ''0''"
  by code_simp

lemma pad_digits:
  "ds \<noteq> [] \<Longrightarrow> list_all is_digit ds \<Longrightarrow> pad_int (length ds) (int (digits_val 0 ds)) = ds"
proof (induction ds rule: rev_nonempty_induct)
  case (single c)
  then show ?case by (simp add: pad_int_def Let_def nat_digits_step digit_val_less digit_byte)
next
  case (snoc c ds)
  let ?v = "digits_val 0 ds"
  have c: "is_digit c" and IH: "pad_int (length ds) (int ?v) = ds" using snoc by simp_all
  have val: "digits_val 0 (ds @ [c]) = 10 * ?v + digit_val c" by (simp add: digits_val_append)
  show ?case
  proof (cases "?v = 0")
    case True
    then have "ds = replicate (length ds - 1) (CHR ''0'') @ [CHR ''0'']"
      using IH by (simp add: pad_int_def Let_def nat_digits_step byte_zero)
    then have ds: "replicate (length ds) (CHR ''0'') = ds"
      using snoc.hyps by (metis Suc_pred' length_greater_0_conv replicate_Suc replicate_append_same)
    have "nat_digits (digits_val 0 (ds @ [c])) = [c]"
      using True c by (simp add: val nat_digits_step digit_val_less digit_byte)
    then show ?thesis by (simp add: pad_int_def Let_def ds del: digits_val.simps)
  next
    case False
    then have "\<not> 10 * ?v + digit_val c < 10" by simp
    then have "nat_digits (digits_val 0 (ds @ [c])) = nat_digits ?v @ [c]"
      using c digit_val_less [OF c] by (simp add: val nat_digits_step(2) digit_byte)
    then show ?thesis using IH by (simp add: pad_int_def Let_def)
  qed
qed

lemma pad_int_parts: "length ds = w \<Longrightarrow> 0 < w \<Longrightarrow> list_all is_digit ds \<Longrightarrow> pad_int w (int (digits_val 0 ds)) = ds"
  using pad_digits [of ds] by auto

lemma getnum_two: "getnum True s = Some (v, t) \<longleftrightarrow> (\<exists>c d. s = c # d # t \<and> is_digit c \<and> is_digit d \<and> v = int (digits_val 0 [c, d]))"
  by (auto simp: getnum_def split: list.splits if_splits)

lemma skip_iff: "skip p s = Some t \<longleftrightarrow> s = p # t"
  by (auto simp: skip_def split: list.splits)

lemma get_year_iff:
  "get_year s = Some (y, t) \<longleftrightarrow> (\<exists>ys. s = ys @ t \<and> length ys = 4 \<and> list_all is_digit ys \<and> y = int (digits_val 0 ys))"
proof
  assume "get_year s = Some (y, t)"
  then show "\<exists>ys. s = ys @ t \<and> length ys = 4 \<and> list_all is_digit ys \<and> y = int (digits_val 0 ys)"
    by (intro exI [of _ "take 4 s"]) (auto simp: get_year_def split: if_splits)
qed (auto simp: get_year_def)

text \<open>The shape of a date.\<close>

definition date_text :: "string \<Rightarrow> string \<Rightarrow> string \<Rightarrow> string" where
  "date_text ys ms ds = ys @ ''-'' @ ms @ ''-'' @ ds"

definition date_parts :: "string \<Rightarrow> string \<Rightarrow> string \<Rightarrow> bool" where
  "date_parts ys ms ds \<longleftrightarrow> length ys = 4 \<and> length ms = 2 \<and> length ds = 2 \<and> list_all is_digit ys \<and> list_all is_digit ms \<and> list_all is_digit ds \<and>
     1 \<le> digits_val 0 ms \<and> digits_val 0 ms \<le> 12 \<and> 1 \<le> digits_val 0 ds \<and>
     int (digits_val 0 ds) \<le> days_in (int (digits_val 0 ms)) (int (digits_val 0 ys))"

lemma parse_day_Some:
  assumes "parse_day s = Some n"
  obtains ys ms ds where "s = date_text ys ms ds" "date_parts ys ms ds"
    "n = civil_days (int (digits_val 0 ys)) (int (digits_val 0 ms)) (int (digits_val 0 ds))"
proof -
  from assms obtain y s1 where 1: "get_year s = Some (y, s1)" by (auto simp: parse_day_def bind_eq_Some_conv)
  with assms obtain s2 where 2: "skip (CHR ''-'') s1 = Some s2" by (auto simp: parse_day_def bind_eq_Some_conv)
  with assms 1 obtain m s3 where 3: "getnum True s2 = Some (m, s3)" by (auto simp: parse_day_def bind_eq_Some_conv)
  with assms 1 2 obtain s4 where 4: "1 \<le> m" "m \<le> 12" "skip (CHR ''-'') s3 = Some s4" by (auto simp: parse_day_def bind_eq_Some_conv split: if_splits)
  with assms 1 2 3 obtain d where 5: "getnum True s4 = Some (d, [])" "1 \<le> d" "d \<le> days_in m y" "n = civil_days y m d"
    by (auto simp: parse_day_def bind_eq_Some_conv split: if_splits)
  obtain ys where ys: "s = ys @ s1" "length ys = 4" "list_all is_digit ys" "y = int (digits_val 0 ys)" using 1 unfolding get_year_iff by (elim exE conjE)
  obtain m1 m2 where ms: "s2 = m1 # m2 # s3" "is_digit m1" "is_digit m2" "m = int (digits_val 0 [m1, m2])" using 3 unfolding getnum_two by (elim exE conjE)
  obtain d1 d2 where ds: "s4 = [d1, d2]" "is_digit d1" "is_digit d2" "d = int (digits_val 0 [d1, d2])" using 5(1) unfolding getnum_two by (elim exE conjE)
  have "s1 = CHR ''-'' # s2" "s3 = CHR ''-'' # s4" using 2 4(3) unfolding skip_iff .
  then show ?thesis
    using ys ms ds 4 5 by (intro that [of ys "[m1, m2]" "[d1, d2]"]) (simp_all add: date_text_def date_parts_def)
qed

lemma format_parse_day: "parse_day s = Some n \<Longrightarrow> format_date n = s"
proof (erule parse_day_Some)
  fix ys ms ds
  assume p: "s = date_text ys ms ds" "date_parts ys ms ds"
    "n = civil_days (int (digits_val 0 ys)) (int (digits_val 0 ms)) (int (digits_val 0 ds))"
  have "civil_of_days n = (int (digits_val 0 ys), int (digits_val 0 ms), int (digits_val 0 ds))"
    unfolding p(3) using p(2) by (intro civil_of_days_civil) (auto simp: date_parts_def)
  moreover have "pad_int 4 (int (digits_val 0 ys)) = ys" "pad_int 2 (int (digits_val 0 ms)) = ms" "pad_int 2 (int (digits_val 0 ds)) = ds"
    using p(2) pad_int_parts [of ys 4] pad_int_parts [of ms 2] pad_int_parts [of ds 2] by (simp_all add: date_parts_def)
  ultimately show ?thesis by (simp add: format_date_def p(1) date_text_def)
qed

section \<open>Order\<close>

lemma less_units_prefix:
  "length a = length c \<Longrightarrow> less_units (a @ b) (c @ d) \<longleftrightarrow> less_units a c \<or> a = c \<and> less_units b d"
  by (induction a c rule: list_induct2) auto

lemma str_less_prefix: "length a = length c \<Longrightarrow> str_less (a @ b) (c @ d) \<longleftrightarrow> str_less a c \<or> a = c \<and> str_less b d"
  by (simp add: str_less_def less_units_prefix inj_map_eq_map [OF inj_byte_val])

lemma digits_val_bound: "list_all is_digit ds \<Longrightarrow> digits_val acc ds < (acc + 1) * 10 ^ length ds"
proof (induction ds arbitrary: acc)
  case (Cons c ds)
  then have "digits_val (10 * acc + digit_val c) ds < (10 * acc + digit_val c + 1) * 10 ^ length ds" by simp
  also have "\<dots> \<le> (10 * acc + 10) * 10 ^ length ds" using digit_val_less [of c] Cons.prems by (intro mult_right_mono) auto
  finally show ?case by (simp add: algebra_simps)
qed simp

lemma digits_val_ge: "acc * 10 ^ length ds \<le> digits_val acc ds"
proof (induction ds arbitrary: acc)
  case (Cons c ds)
  have "acc * 10 ^ length (c # ds) \<le> (10 * acc + digit_val c) * 10 ^ length ds" by (simp add: algebra_simps)
  also have "\<dots> \<le> digits_val (10 * acc + digit_val c) ds" by (rule Cons.IH)
  finally show ?case by simp
qed simp

lemma digits_less:
  "length a = length b \<Longrightarrow> list_all is_digit a \<Longrightarrow> list_all is_digit b \<Longrightarrow> str_less a b \<Longrightarrow> digits_val acc a < digits_val acc b"
proof (induction a b arbitrary: acc rule: list_induct2)
  case (Cons x xs y ys)
  show ?case
  proof (cases "x = y")
    case True
    with Cons show ?thesis by (simp add: str_less_def)
  next
    case False
    with Cons.prems have "byte_val x < byte_val y" using inj_byte_val by (auto simp: str_less_def dest: injD)
    with Cons.prems have "digit_val x < digit_val y" by (auto simp: digit_val_def is_digit_def)
    then have "10 * acc + digit_val x + 1 \<le> 10 * acc + digit_val y" by simp
    then have le: "(10 * acc + digit_val x + 1) * 10 ^ length xs \<le> (10 * acc + digit_val y) * 10 ^ length ys"
      unfolding Cons.hyps(1) by (rule mult_right_mono) simp
    have "digits_val acc (x # xs) < (10 * acc + digit_val x + 1) * 10 ^ length xs" using digits_val_bound [of xs] Cons.prems by simp
    also note le
    also have "(10 * acc + digit_val y) * 10 ^ length ys \<le> digits_val acc (y # ys)" using digits_val_ge [of _ ys] by simp
    finally show ?thesis .
  qed
qed (simp add: str_less_def)

lemma days_before_year_less:
  assumes "y < y'" shows "days_before_year y + (if is_leap y then 366 else 365) \<le> days_before_year y'"
proof -
  have "days_before_year (y + 1) \<le> days_before_year (y + 1 + int k)" for k
  proof (induction k)
    case (Suc k)
    have "days_before_year (y + 1 + int (Suc k)) = days_before_year (y + 1 + int k) + (if is_leap (y + 1 + int k) then 366 else 365)"
      using days_before_year_Suc [of "y + 1 + int k"] by (simp add: ac_simps)
    with Suc show ?case by (simp split: if_splits)
  qed simp
  from this [of "nat (y' - y - 1)"] assms show ?thesis by (simp add: days_before_year_Suc)
qed

lemma days_before_month_less:
  assumes "1 \<le> m" "m < m'" shows "days_before_month m y + days_in (int m) y \<le> days_before_month m' y"
  using days_before_month_mono [of m y "m' - Suc m"] assms by simp

lemma civil_days_less:
  assumes "1 \<le> m" "m \<le> 12" "d \<le> days_in (int m) y" "1 \<le> d'"
    and "y < y' \<or> y = y' \<and> (m < m' \<or> m = m' \<and> d < d')"
  shows "civil_days y (int m) d < civil_days y' (int m') d'"
proof -
  consider "y < y'" | "y = y'" "m < m'" | "y = y'" "m = m'" "d < d'" using assms(5) by blast
  then show ?thesis
  proof cases
    case 1
    from days_before_year_less [OF 1] month_in_year [OF assms(1-3)] days_before_month_nonneg [of m' y'] assms(4) show ?thesis
      by (simp add: civil_days_def)
  next
    case 2
    from days_before_month_less [OF assms(1) 2(2), of y] assms(3,4) 2(1) show ?thesis by (simp add: civil_days_def)
  qed (simp add: civil_days_def)
qed

lemma str_less_Cons: "str_less (c # xs) (c # ys) \<longleftrightarrow> str_less xs ys"
  by (simp add: str_less_def)

text \<open>Dates compare as strings exactly as the days they name.\<close>

lemma date_less:
  assumes "parse_day s = Some a" "parse_day t = Some b" "str_less s t" shows "a < b"
  using assms(1)
proof (rule parse_day_Some)
  fix ys ms ds
  assume p: "s = date_text ys ms ds" "date_parts ys ms ds"
    "a = civil_days (int (digits_val 0 ys)) (int (digits_val 0 ms)) (int (digits_val 0 ds))"
  from assms(2) show ?thesis
  proof (rule parse_day_Some)
    fix ys' ms' ds'
    assume q: "t = date_text ys' ms' ds'" "date_parts ys' ms' ds'"
      "b = civil_days (int (digits_val 0 ys')) (int (digits_val 0 ms')) (int (digits_val 0 ds'))"
    have l: "length ys = length ys'" "length ms = length ms'" "length ds = length ds'" using p(2) q(2) by (simp_all add: date_parts_def)
    have "str_less ys ys' \<or> ys = ys' \<and> (str_less ms ms' \<or> ms = ms' \<and> str_less ds ds')"
      using assms(3) l by (simp add: p(1) q(1) date_text_def str_less_prefix str_less_Cons)
    then have "digits_val 0 ys < digits_val 0 ys' \<or>
        digits_val 0 ys = digits_val 0 ys' \<and> (digits_val 0 ms < digits_val 0 ms' \<or> digits_val 0 ms = digits_val 0 ms' \<and> digits_val 0 ds < digits_val 0 ds')"
      using p(2) q(2) l digits_less unfolding date_parts_def by metis
    then show ?thesis
      unfolding p(3) q(3) using p(2) q(2) by (intro civil_days_less) (auto simp: date_parts_def)
  qed
qed

lemma date_order:
  assumes "parse_day s = Some a" "parse_day t = Some b" shows "str_less s t \<longleftrightarrow> a < b"
  using date_less [OF assms] date_less [OF assms(2,1)] bytewise.lt_total [of s t] assms by fastforce

end
