(* ===== verification/Spec2Isabelle.thy ===== *)
theory Spec2Isabelle
  imports Platform_Faults Identity Observability Go_Date
begin

text \<open>
  Verification of SeshatOps, an event-driven operations platform in Go: package \<^verbatim>\<open>event\<close>.

  \<^item> \<^verbatim>\<open>Prelude\<close>: error returns, \<^verbatim>\<open>sort.Slice\<close>, maps as association lists.
  \<^item> \<^verbatim>\<open>Go_Text\<close>, \<^verbatim>\<open>Go_Time\<close>, \<^verbatim>\<open>Sha256\<close>: what the sources use of Go's \<^verbatim>\<open>unicode/utf8\<close>,
    \<^verbatim>\<open>strings\<close>, \<^verbatim>\<open>strconv\<close>, \<^verbatim>\<open>time\<close> and \<^verbatim>\<open>crypto/sha256\<close>.
  \<^item> \<^verbatim>\<open>Event_Envelope\<close>: \<^verbatim>\<open>event/envelope.go\<close> and \<^verbatim>\<open>event/families.go\<close>.
  \<^item> \<^verbatim>\<open>Event_Json\<close>: \<^verbatim>\<open>event/unicode.go\<close> and \<^verbatim>\<open>event/parse.go\<close>.
  \<^item> \<^verbatim>\<open>Event_Canon\<close>: \<^verbatim>\<open>event/content_hash.go\<close> and the properties of the package.
\<close>

end
